theory Spec2Isabelle
  imports Complex_Main "HOL-Library.Multiset"
begin

section \<open>Numbers\<close>

text \<open>
  The ledger is TypeScript; every amount is a JavaScript \<open>number\<close>, an IEEE-754 binary64
  value. An arithmetic operator of the source computes the exact result and rounds it to
  the nearest binary64 value. The embedding writes that rounding out: every function that
  computes takes the rounding \<open>rnd\<close> as its first argument and applies it to the exact
  result of each \<open>+\<close>, \<open>-\<close>, \<open>*\<close> and \<open>/\<close> of the source, and to each decimal literal
  that is not an integer. Comparisons, \<open>Math.max\<close>, \<open>Math.abs\<close> and integer literals do
  not round.

  Two roundings are used. \<open>exact\<close> rounds nothing: it is the arithmetic of the reals, the
  reading under which the specification states its sums. \<open>fl64\<close> is round-to-nearest,
  ties-to-even, with a 53 bit significand and gradual underflow below \<open>2^-1022\<close>, which
  is what the program executes on finite values. A \<open>number\<close> of the model is a real
  number: \<open>Infinity\<close> and \<open>NaN\<close> are not values of it, \<open>fl64\<close> rounds as if the
  exponent had no upper bound, and a division by zero yields 0. The model is therefore
  the program as long as no result reaches \<open>2^1024\<close> in magnitude and no divisor is
  zero. Every division of the source but one is guarded by a test that its divisor is
  positive; the exception, the division by an entry's price, has a positive divisor on
  every entry the routes and the reconciliation store. The theorems below that bound
  amounts are stated for \<open>exact\<close>; those stated for an arbitrary \<open>rnd\<close> do not depend
  on the values that the arithmetic yields. The evaluations under \<open>fl64\<close> stay far
  inside the finite range.
\<close>

type_synonym number = real

definition exact :: "number \<Rightarrow> number" where
  "exact x = x"

text \<open>
  \<open>binade n x\<close> is \<open>\<lfloor>log\<^sub>2 x\<rfloor>\<close> for a positive \<open>x\<close> between \<open>2^-n\<close> and \<open>2^n\<close>. The
  exact result of one operation on two finite binary64 values lies between \<open>2^-2200\<close>
  and \<open>2^2200\<close>.
\<close>

fun binade :: "nat \<Rightarrow> real \<Rightarrow> int" where
  "binade 0 x = 0"
| "binade (Suc n) x =
     (if 2 \<le> x then binade n (x / 2) + 1
      else if x < 1 then binade n (x * 2) - 1
      else 0)"

definition roundTiesToEven :: "real \<Rightarrow> int" where
  "roundTiesToEven x =
     (let n = \<lfloor>x\<rfloor>; d = x - of_int n
      in if d < 1 / 2 then n
         else if 1 / 2 < d then n + 1
         else if even n then n else n + 1)"

definition pow2 :: "int \<Rightarrow> real" where
  "pow2 e = (if 0 \<le> e then 2 ^ nat e else 1 / 2 ^ nat (- e))"

definition fl64 :: "number \<Rightarrow> number" where
  "fl64 x =
     (if x = 0 then 0
      else let e = max (binade 2200 \<bar>x\<bar>) (- 1022); u = pow2 (e - 52)
           in of_int (roundTiesToEven (x / u)) * u)"

section \<open>Data model\<close>

text \<open>
  The interfaces \<open>ITradeEntry\<close>, \<open>ITradeClose\<close> and \<open>ITrade\<close> of the Trade model. A
  \<open>Date\<close> is its time value, an integer; an \<open>ObjectId\<close> is a natural number. An
  optional field is an \<open>option\<close>. The field \<open>_id\<close> is \<open>tradeId\<close> here. The schema gives
  \<open>source\<close> the default \<open>manual\<close>, so a stored document always has one. The timestamps
  \<open>createdAt\<close> and \<open>updatedAt\<close> are written by the persistence library alone and read by
  no computation; they are left out.
\<close>

type_synonym date = int
type_synonym objectId = nat

datatype TradeSide = Long | Short
datatype TradeStatus = Active | Closed
datatype TradeSource = Manual | Asterdex
datatype TradeExchangeProductType = Spot | Perpetual

record ITradeEntry =
  entryPrice :: number
  amountInvestedUsd :: number
  leverage :: "number option"
  entryDate :: date

record ITradeClose =
  closePrice :: number
  closeCoinAmount :: number
  closeUsdAmount :: number
  closeDate :: date
  pnlUsd :: number
  pnlPercent :: number

record ITrade =
  tradeId :: objectId
  userId :: objectId
  side :: TradeSide
  status :: TradeStatus
  coin :: string
  comment :: "string option"
  stopLossPrice :: "number option"
  takeProfitPrice :: "number option"
  entries :: "ITradeEntry list"
  closes :: "ITradeClose list"
  source :: TradeSource
  exchange :: "string option"
  exchangeAccountId :: "string option"
  exchangePositionId :: "string option"
  exchangeProductType :: "TradeExchangeProductType option"
  lastSyncedAt :: "date option"

section \<open>The aggregation function\<close>

text \<open>
  \<open>computeTradeAggregates\<close>. The two \<open>for\<close> loops are left folds over the entries and
  the closes; \<open>entryStep\<close> and \<open>closeStep\<close> are their bodies, on the tuple of the
  accumulators \<open>(totalInitialMarginUsd, totalEntryCoin, totalEntryNotionalUsd)\<close> and
  \<open>(totalClosedCoin, realizedPnlUsd)\<close>. A value that the source leaves \<open>null\<close> is
  \<open>None\<close>.
\<close>

record TradeAggregates =
  totalInitialMarginUsd :: number
  totalEntryCoin :: number
  openCoin :: number
  avgEntryPrice :: "number option"
  effectiveLeverage :: "number option"
  openNotionalUsd :: "number option"
  openMarginUsd :: "number option"
  debtUsd :: "number option"
  realizedPnlUsd :: number
  realizedPnlPercent :: "number option"
  liquidationPrice :: "number option"

definition entryCoin :: "(number \<Rightarrow> number) \<Rightarrow> ITradeEntry \<Rightarrow> number" where
  "entryCoin rnd e =
     (let lev = (case leverage e of None \<Rightarrow> 1 | Some l \<Rightarrow> l);
          margin = amountInvestedUsd e;
          notional = rnd (margin * lev)
      in rnd (notional / entryPrice e))"

definition entryStep ::
  "(number \<Rightarrow> number) \<Rightarrow> number \<times> number \<times> number \<Rightarrow> ITradeEntry \<Rightarrow> number \<times> number \<times> number" where
  "entryStep rnd acc e =
     (case acc of (totalMargin, totalCoin, totalNotional) \<Rightarrow>
        let lev = (case leverage e of None \<Rightarrow> 1 | Some l \<Rightarrow> l);
            margin = amountInvestedUsd e;
            notional = rnd (margin * lev);
            coin = rnd (notional / entryPrice e)
        in (rnd (totalMargin + margin), rnd (totalCoin + coin), rnd (totalNotional + notional)))"

definition closeStep ::
  "(number \<Rightarrow> number) \<Rightarrow> number \<times> number \<Rightarrow> ITradeClose \<Rightarrow> number \<times> number" where
  "closeStep rnd acc c =
     (case acc of (totalClosed, realized) \<Rightarrow>
        (rnd (totalClosed + closeCoinAmount c), rnd (realized + pnlUsd c)))"

definition computeTradeAggregates :: "(number \<Rightarrow> number) \<Rightarrow> ITrade \<Rightarrow> TradeAggregates" where
  "computeTradeAggregates rnd trade =
     (case foldl (entryStep rnd) (0, 0, 0) (entries trade) of
        (totalMargin, totalCoin, totalNotional) \<Rightarrow>
     (case foldl (closeStep rnd) (0, 0) (closes trade) of
        (totalClosedCoin, realized) \<Rightarrow>
        let openNow = max (rnd (totalCoin - totalClosedCoin)) 0;
            avgEntry = (if totalCoin > 0 then Some (rnd (totalNotional / totalCoin)) else None);
            effLev = (if totalMargin > 0 then Some (rnd (totalNotional / totalMargin)) else None);
            openNotional =
              (case avgEntry of
                 Some a \<Rightarrow> if openNow > 0 then Some (rnd (openNow * a)) else None
               | None \<Rightarrow> None);
            openMargin =
              (case (openNotional, effLev) of
                 (Some n, Some l) \<Rightarrow> if l > 0 then Some (rnd (n / l)) else None
               | _ \<Rightarrow> None);
            debt =
              (case (openNotional, openMargin) of
                 (Some n, Some m) \<Rightarrow> Some (rnd (n - m))
               | _ \<Rightarrow> None);
            realizedPercent =
              (if totalMargin > 0 then Some (rnd (rnd (realized / totalMargin) * 100)) else None);
            liquidation =
              (case (effLev, avgEntry) of
                 (Some l, Some a) \<Rightarrow>
                   if l > 1
                   then (if side trade = Long
                         then Some (rnd (a * rnd (1 - rnd (1 / l))))
                         else Some (rnd (a * rnd (1 + rnd (1 / l)))))
                   else None
               | _ \<Rightarrow> None)
        in \<lparr> totalInitialMarginUsd = totalMargin,
             totalEntryCoin = totalCoin,
             openCoin = openNow,
             avgEntryPrice = avgEntry,
             effectiveLeverage = effLev,
             openNotionalUsd = openNotional,
             openMarginUsd = openMargin,
             debtUsd = debt,
             realizedPnlUsd = realized,
             realizedPnlPercent = realizedPercent,
             liquidationPrice = liquidation \<rparr>))"

section \<open>Strings\<close>

text \<open>
  The string methods the source calls, on ASCII: \<open>toUpperCase\<close>, \<open>trim\<close> (the ASCII
  white space characters) and \<open>split(/[-_/:]/)[0]\<close>, the part of a string before its first
  separator.
\<close>

definition upperChar :: "char \<Rightarrow> char" where
  "upperChar c =
     (let n = (of_char c :: nat) in if 97 \<le> n \<and> n \<le> 122 then char_of (n - 32) else c)"

definition toUpperCase :: "string \<Rightarrow> string" where
  "toUpperCase s = map upperChar s"

definition isSpace :: "char \<Rightarrow> bool" where
  "isSpace c = (let n = (of_char c :: nat) in n = 32 \<or> (9 \<le> n \<and> n \<le> 13))"

definition trim :: "string \<Rightarrow> string" where
  "trim s = rev (dropWhile isSpace (rev (dropWhile isSpace s)))"

definition splitFirst :: "string \<Rightarrow> string" where
  "splitFirst s = takeWhile (\<lambda>c. c \<notin> set ''-_/:'') s"

section \<open>The store\<close>

text \<open>
  The \<open>Trade\<close> collection is the list of its documents. \<open>findOne\<close> returns the first
  document that matches, \<open>save\<close> replaces the document with the same \<open>_id\<close>,
  \<open>create\<close> appends a document under a fresh \<open>_id\<close>, \<open>deleteOne\<close> removes the first
  document that matches. A route answers with a status code and a message (\<open>Inl\<close>) or
  with the document it saved (\<open>Inr\<close>, the argument of \<open>toTradeDto\<close>).

  The Trade schema declares \<open>coin\<close> as \<open>required\<close>, \<open>trim\<close> and \<open>uppercase\<close>:
  every assignment to the field stores the trimmed upper-case string (\<open>setCoin\<close>), and
  a \<open>save\<close> or \<open>create\<close> of a document whose \<open>coin\<close> is empty fails validation
  (\<open>validates\<close>). The other required paths are always present in a document of the
  model.

  A write is an \<open>await\<close> that can reject: the database is unreachable, or refuses the
  document. The predicate \<open>accepts\<close> is that answer of the environment. A route whose
  write is rejected throws; the framework answers 500 and nothing is stored.
\<close>

type_synonym store = "ITrade list"
type_synonym 'a reply = "(nat \<times> string) + 'a"

definition findOne :: "store \<Rightarrow> objectId \<Rightarrow> objectId \<Rightarrow> ITrade option" where
  "findOne db i u = find (\<lambda>t. tradeId t = i \<and> userId t = u) db"

definition save :: "store \<Rightarrow> ITrade \<Rightarrow> store" where
  "save db t = map (\<lambda>d. if tradeId d = tradeId t then t else d) db"

definition newObjectId :: "store \<Rightarrow> objectId" where
  "newObjectId db = foldr (\<lambda>t n. max (Suc (tradeId t)) n) db 0"

definition create :: "store \<Rightarrow> ITrade \<Rightarrow> ITrade" where
  "create db t = t\<lparr>tradeId := newObjectId db\<rparr>"

fun deleteOne :: "store \<Rightarrow> objectId \<Rightarrow> objectId \<Rightarrow> store" where
  "deleteOne [] i u = []"
| "deleteOne (t # db) i u =
     (if tradeId t = i \<and> userId t = u then db else t # deleteOne db i u)"

definition setCoin :: "string \<Rightarrow> string" where
  "setCoin s = toUpperCase (trim s)"

definition validates :: "ITrade \<Rightarrow> bool" where
  "validates t = (coin t \<noteq> [])"

definition persist :: "(ITrade \<Rightarrow> bool) \<Rightarrow> store \<Rightarrow> ITrade reply \<Rightarrow> ITrade reply \<times> store" where
  "persist accepts db r =
     (case r of
        Inl err \<Rightarrow> (Inl err, db)
      | Inr t \<Rightarrow>
          if validates t \<and> accepts t then (Inr t, save db t)
          else (Inl (500, ''Internal Server Error''), db))"

definition persistNew :: "(ITrade \<Rightarrow> bool) \<Rightarrow> store \<Rightarrow> ITrade \<Rightarrow> ITrade reply \<times> store" where
  "persistNew accepts db t =
     (let d = create db t
      in if validates d \<and> accepts d then (Inr d, db @ [d])
         else (Inl (500, ''Internal Server Error''), db))"

section \<open>Request bodies and their schemas\<close>

text \<open>
  A body is the record of its fields; a field the schema marks \<open>optional\<close> is an
  \<open>option\<close>, and one that is \<open>nullable\<close> as well is an \<open>option option\<close>: \<open>None\<close> when
  the key is absent, \<open>Some None\<close> when it is \<open>null\<close>. Each schema is the predicate
  that \<open>safeParse\<close> succeeds.
\<close>

record CreateActiveBody =
  c_coin :: string
  c_side :: TradeSide
  c_entryPrice :: number
  c_amountInvestedUsd :: number
  c_leverage :: "number option"
  c_stopLossPrice :: "number option"
  c_takeProfitPrice :: "number option"
  c_entryDate :: "date option"
  c_comment :: "string option"

record CreateClosedBody = CreateActiveBody +
  c_exitPrice :: number
  c_exitDate :: "date option"

record EditBody =
  e_comment :: "string option"
  e_stopLossPrice :: "number option option"
  e_takeProfitPrice :: "number option option"
  e_coin :: "string option"
  e_side :: "TradeSide option"
  e_entryPrice :: "number option"
  e_amountInvestedUsd :: "number option"
  e_leverage :: "number option option"
  e_entryDate :: "date option"
  e_exitPrice :: "number option"
  e_exitDate :: "date option"

record AddSizeBody =
  a_entryPrice :: number
  a_amountInvestedUsd :: number
  a_leverage :: "number option"
  a_entryDate :: "date option"

record SellBody =
  s_closePrice :: number
  s_closeDate :: "date option"
  s_amountCoin :: "number option"
  s_amountUsd :: "number option"
  s_percentage :: "number option"

definition optPositive :: "number option \<Rightarrow> bool" where
  "optPositive v = (case v of None \<Rightarrow> True | Some x \<Rightarrow> 0 < x)"

definition nullablePositive :: "number option option \<Rightarrow> bool" where
  "nullablePositive v = (case v of Some (Some x) \<Rightarrow> 0 < x | _ \<Rightarrow> True)"

definition optMax1000 :: "string option \<Rightarrow> bool" where
  "optMax1000 v = (case v of None \<Rightarrow> True | Some s \<Rightarrow> length s \<le> 1000)"

definition createActiveTradeSchema :: "'a CreateActiveBody_scheme \<Rightarrow> bool" where
  "createActiveTradeSchema b =
     (1 \<le> length (c_coin b) \<and> 0 < c_entryPrice b \<and> 0 < c_amountInvestedUsd b \<and>
      optPositive (c_leverage b) \<and> optPositive (c_stopLossPrice b) \<and>
      optPositive (c_takeProfitPrice b) \<and> optMax1000 (c_comment b))"

definition createClosedTradeSchema :: "CreateClosedBody \<Rightarrow> bool" where
  "createClosedTradeSchema b = (createActiveTradeSchema b \<and> 0 < c_exitPrice b)"

definition editTradeSchema :: "EditBody \<Rightarrow> bool" where
  "editTradeSchema b =
     (optMax1000 (e_comment b) \<and> nullablePositive (e_stopLossPrice b) \<and>
      nullablePositive (e_takeProfitPrice b) \<and>
      (case e_coin b of None \<Rightarrow> True | Some s \<Rightarrow> 1 \<le> length s) \<and>
      optPositive (e_entryPrice b) \<and> optPositive (e_amountInvestedUsd b) \<and>
      nullablePositive (e_leverage b) \<and> optPositive (e_exitPrice b))"

definition closedFieldsProvided :: "EditBody \<Rightarrow> bool" where
  "closedFieldsProvided b =
     (e_coin b \<noteq> None \<or> e_side b \<noteq> None \<or> e_entryPrice b \<noteq> None \<or>
      e_amountInvestedUsd b \<noteq> None \<or> e_leverage b \<noteq> None \<or> e_entryDate b \<noteq> None \<or>
      e_exitPrice b \<noteq> None \<or> e_exitDate b \<noteq> None)"

definition addSizeSchema :: "AddSizeBody \<Rightarrow> bool" where
  "addSizeSchema b =
     (0 < a_entryPrice b \<and> 0 < a_amountInvestedUsd b \<and> optPositive (a_leverage b))"

definition sellSchemaBase :: "SellBody \<Rightarrow> bool" where
  "sellSchemaBase b =
     (0 < s_closePrice b \<and> optPositive (s_amountCoin b) \<and> optPositive (s_amountUsd b) \<and>
      (case s_percentage b of None \<Rightarrow> True | Some p \<Rightarrow> 0 < p \<and> p \<le> 100))"

definition sellSchema :: "SellBody \<Rightarrow> bool" where
  "sellSchema b =
     (sellSchemaBase b \<and>
      length (filter (\<lambda>k. k \<noteq> None) [s_amountCoin b, s_amountUsd b, s_percentage b]) = 1)"

section \<open>The routes\<close>

text \<open>
  Every route first requires an authenticated user (\<open>requireAuth\<close>: 401 when
  \<open>req.userId\<close> is missing), then parses the body (400), then loads the trade of that
  user (404). What follows works on the loaded document, in memory; it is written to the
  store by the \<open>save\<close> at the end of the route and by nothing else, so a route that
  answers early has stored nothing. \<open>now\<close> is the value of \<open>new Date()\<close>.
\<close>

definition unauthenticated :: "store \<Rightarrow> ITrade reply \<times> store" where
  "unauthenticated db = (Inl (401, ''Not authenticated''), db)"

definition invalidBody :: "store \<Rightarrow> ITrade reply \<times> store" where
  "invalidBody db = (Inl (400, ''Invalid request body''), db)"

definition notFound :: "store \<Rightarrow> ITrade reply \<times> store" where
  "notFound db = (Inl (404, ''Trade not found''), db)"

subsection \<open>POST /trades/active\<close>

definition newEntry ::
  "number \<Rightarrow> number \<Rightarrow> number option \<Rightarrow> date \<Rightarrow> ITradeEntry" where
  "newEntry price amount lev d =
     \<lparr> entryPrice = price, amountInvestedUsd = amount, leverage = lev, entryDate = d \<rparr>"

definition newTrade ::
  "objectId \<Rightarrow> TradeSide \<Rightarrow> TradeStatus \<Rightarrow> string \<Rightarrow> string option \<Rightarrow> number option \<Rightarrow>
   number option \<Rightarrow> ITradeEntry list \<Rightarrow> ITradeClose list \<Rightarrow> ITrade" where
  "newTrade u sd st cn cm sl tp es cs =
     \<lparr> tradeId = 0, userId = u, side = sd, status = st, coin = cn, comment = cm,
       stopLossPrice = sl, takeProfitPrice = tp, entries = es, closes = cs,
       source = Manual, exchange = None, exchangeAccountId = None,
       exchangePositionId = None, exchangeProductType = None, lastSyncedAt = None \<rparr>"

definition createActiveRoute ::
  "(ITrade \<Rightarrow> bool) \<Rightarrow> date \<Rightarrow> store \<Rightarrow> objectId option \<Rightarrow> CreateActiveBody \<Rightarrow>
   ITrade reply \<times> store" where
  "createActiveRoute accepts now db uid body =
     (case uid of
        None \<Rightarrow> unauthenticated db
      | Some u \<Rightarrow>
          if \<not> createActiveTradeSchema body then invalidBody db
          else
            let entry = newEntry (c_entryPrice body) (c_amountInvestedUsd body) (c_leverage body)
                          (case c_entryDate body of Some d \<Rightarrow> d | None \<Rightarrow> now)
            in persistNew accepts db
                 (newTrade u (c_side body) Active (setCoin (c_coin body)) (c_comment body)
                    (c_stopLossPrice body) (c_takeProfitPrice body) [entry] []))"

subsection \<open>POST /trades/closed\<close>

text \<open>
  The close that realizes a whole position at an exit price: its coin amount is the
  \<open>totalEntryCoin\<close> of the aggregates, its profit is taken against their average entry
  price (the entry's own price when they have none) and its percentage against their
  total margin. This route builds it for the new trade; the edit route overwrites every
  field of the single close of a closed trade with the same values. The \<open>tmpTrade\<close> of
  the route is a plain object, not a document: its coin is the string of the body.
\<close>

definition wholeClose ::
  "(number \<Rightarrow> number) \<Rightarrow> TradeSide \<Rightarrow> TradeAggregates \<Rightarrow> number \<Rightarrow> number \<Rightarrow> date \<Rightarrow>
   ITradeClose" where
  "wholeClose rnd sd aggregates fallbackPrice exitPrice exitDate =
     (let fullCoin = totalEntryCoin aggregates;
          closeUsd = rnd (fullCoin * exitPrice);
          marginForTrade = totalInitialMarginUsd aggregates;
          avgEntry = (case avgEntryPrice aggregates of Some a \<Rightarrow> a | None \<Rightarrow> fallbackPrice);
          pnl = (if sd = Long
                 then rnd (rnd (exitPrice - avgEntry) * fullCoin)
                 else rnd (rnd (avgEntry - exitPrice) * fullCoin));
          pnlPct = (if marginForTrade > 0 then rnd (rnd (pnl / marginForTrade) * 100) else 0)
      in \<lparr> closePrice = exitPrice, closeCoinAmount = fullCoin, closeUsdAmount = closeUsd,
           closeDate = exitDate, pnlUsd = pnl, pnlPercent = pnlPct \<rparr>)"

definition createClosedRoute ::
  "(number \<Rightarrow> number) \<Rightarrow> (ITrade \<Rightarrow> bool) \<Rightarrow> date \<Rightarrow> store \<Rightarrow> objectId option \<Rightarrow>
   CreateClosedBody \<Rightarrow> ITrade reply \<times> store" where
  "createClosedRoute rnd accepts now db uid body =
     (case uid of
        None \<Rightarrow> unauthenticated db
      | Some u \<Rightarrow>
          if \<not> createClosedTradeSchema body then invalidBody db
          else
            let exitPrice = c_exitPrice body;
                exitDate = c_exitDate body;
                entry = newEntry (c_entryPrice body) (c_amountInvestedUsd body) (c_leverage body)
                          (case c_entryDate body of
                             Some d \<Rightarrow> d
                           | None \<Rightarrow> (case exitDate of Some d \<Rightarrow> d | None \<Rightarrow> now));
                tmpTrade = newTrade u (c_side body) Closed (c_coin body) (c_comment body)
                             (c_stopLossPrice body) (c_takeProfitPrice body) [entry] [];
                aggregates = computeTradeAggregates rnd tmpTrade;
                close = wholeClose rnd (c_side body) aggregates (c_entryPrice body) exitPrice
                          (case exitDate of Some d \<Rightarrow> d | None \<Rightarrow> now)
            in persistNew accepts db
                 (newTrade u (c_side body) Closed (setCoin (c_coin body)) (c_comment body)
                    (c_stopLossPrice body) (c_takeProfitPrice body) [entry] [close]))"

subsection \<open>PATCH /trades/:id\<close>

text \<open>
  \<open>editTrade\<close> is the part of the route between \<open>findOne\<close> and \<open>save\<close>;
  \<open>editBasics\<close> are its assignments of the comment, the stop loss and the take profit,
  \<open>editEntry\<close> those to the single entry. The source
  assigns the comment, the stop loss and the take profit to the loaded document before it
  checks the number of entries and closes; the value returned on a rejection carries no
  document. With one entry and one close, \<open>trade.entries[0]\<close> and \<open>trade.closes[0]\<close>
  exist, so the test \<open>!entry || !closeRecord\<close> never fires; and \<open>closeRecord.closeDate\<close>
  is a required field, so the last alternative of
  \<open>exitDate ?? closeRecord.closeDate ?? new Date()\<close> is never taken.
\<close>

definition editEntry :: "ITradeEntry \<Rightarrow> EditBody \<Rightarrow> ITradeEntry" where
  "editEntry entry0 body =
     (let entry1 = (case e_entryPrice body of
                      Some v \<Rightarrow> entry0\<lparr>entryPrice := v\<rparr> | None \<Rightarrow> entry0);
          entry2 = (case e_amountInvestedUsd body of
                      Some v \<Rightarrow> entry1\<lparr>amountInvestedUsd := v\<rparr> | None \<Rightarrow> entry1);
          entry3 = (case e_leverage body of
                      Some v \<Rightarrow> entry2\<lparr>leverage := v\<rparr> | None \<Rightarrow> entry2)
      in (case e_entryDate body of
            Some d \<Rightarrow> entry3\<lparr>entryDate := d\<rparr> | None \<Rightarrow> entry3))"

definition editBasics :: "ITrade \<Rightarrow> EditBody \<Rightarrow> ITrade" where
  "editBasics trade0 body =
     (let trade1 = (case e_comment body of
                      Some c \<Rightarrow> trade0\<lparr>comment := Some c\<rparr> | None \<Rightarrow> trade0);
          trade2 = (case e_stopLossPrice body of
                      Some v \<Rightarrow> trade1\<lparr>stopLossPrice := v\<rparr> | None \<Rightarrow> trade1)
      in (case e_takeProfitPrice body of
            Some v \<Rightarrow> trade2\<lparr>takeProfitPrice := v\<rparr> | None \<Rightarrow> trade2))"

definition editTrade :: "(number \<Rightarrow> number) \<Rightarrow> ITrade \<Rightarrow> EditBody \<Rightarrow> ITrade reply" where
  "editTrade rnd trade0 body =
     (if closedFieldsProvided body \<and> status trade0 \<noteq> Closed
      then Inl (400, ''Only closed trades can edit entry/exit details'')
      else
        let trade3 = editBasics trade0 body
        in if status trade3 = Closed \<and> closedFieldsProvided body
           then
             (case (entries trade3, closes trade3) of
                ([entry0], [closeRecord]) \<Rightarrow>
                  let trade4 = (case e_coin body of
                                  Some c \<Rightarrow> trade3\<lparr>coin := setCoin (toUpperCase c)\<rparr>
                                | None \<Rightarrow> trade3);
                      trade5 = (case e_side body of
                                  Some sd \<Rightarrow> trade4\<lparr>side := sd\<rparr> | None \<Rightarrow> trade4);
                      entry4 = editEntry entry0 body;
                      exitPrice = (case e_exitPrice body of
                                     Some v \<Rightarrow> v | None \<Rightarrow> closePrice closeRecord)
                  in if \<not> (exitPrice > 0)
                     then Inl (400, ''Exit price is required for closed trades'')
                     else
                       let exitDate = (case e_exitDate body of
                                         Some d \<Rightarrow> d | None \<Rightarrow> closeDate closeRecord);
                           tradeSnapshot = trade5\<lparr>entries := [entry4]\<rparr>;
                           aggregates = computeTradeAggregates rnd tradeSnapshot
                       in if \<not> (totalEntryCoin aggregates > 0)
                          then Inl (400, ''Trade must have entry size greater than zero'')
                          else Inr (tradeSnapshot\<lparr>closes :=
                                 [wholeClose rnd (side trade5) aggregates (entryPrice entry4)
                                    exitPrice exitDate]\<rparr>)
              | _ \<Rightarrow>
                  Inl (400, ''Editing entry/exit details is only supported for single-entry closed trades''))
           else Inr trade3)"

definition editRoute ::
  "(number \<Rightarrow> number) \<Rightarrow> (ITrade \<Rightarrow> bool) \<Rightarrow> store \<Rightarrow> objectId option \<Rightarrow> objectId \<Rightarrow>
   EditBody \<Rightarrow> ITrade reply \<times> store" where
  "editRoute rnd accepts db uid i body =
     (case uid of
        None \<Rightarrow> unauthenticated db
      | Some u \<Rightarrow>
          if \<not> editTradeSchema body then invalidBody db
          else (case findOne db i u of
                  None \<Rightarrow> notFound db
                | Some trade \<Rightarrow> persist accepts db (editTrade rnd trade body)))"

subsection \<open>POST /trades/:id/add-size\<close>

definition addSizeTrade :: "date \<Rightarrow> ITrade \<Rightarrow> AddSizeBody \<Rightarrow> ITrade reply" where
  "addSizeTrade now trade body =
     (if status trade \<noteq> Active then Inl (400, ''Cannot add size to closed trade'')
      else Inr (trade\<lparr>entries := entries trade @
                  [newEntry (a_entryPrice body) (a_amountInvestedUsd body) (a_leverage body)
                     (case a_entryDate body of Some d \<Rightarrow> d | None \<Rightarrow> now)]\<rparr>))"

definition addSizeRoute ::
  "(ITrade \<Rightarrow> bool) \<Rightarrow> date \<Rightarrow> store \<Rightarrow> objectId option \<Rightarrow> objectId \<Rightarrow> AddSizeBody \<Rightarrow>
   ITrade reply \<times> store" where
  "addSizeRoute accepts now db uid i body =
     (case uid of
        None \<Rightarrow> unauthenticated db
      | Some u \<Rightarrow>
          if \<not> addSizeSchema body then invalidBody db
          else (case findOne db i u of
                  None \<Rightarrow> notFound db
                | Some trade \<Rightarrow> persist accepts db (addSizeTrade now trade body)))"

subsection \<open>POST /trades/:id/sell\<close>

text \<open>
  \<open>requestedCoin\<close> is the coin amount the request implies, before the clamp;
  \<open>sellClose\<close> is the close that the route pushes, for the clamped amount;
  \<open>sellTrade\<close> is the part of the route between \<open>findOne\<close> and \<open>save\<close>. The literal
  \<open>1e-8\<close> is the binary64 value nearest to \<open>10^-8\<close>.
\<close>

definition requestedCoin :: "(number \<Rightarrow> number) \<Rightarrow> number \<Rightarrow> SellBody \<Rightarrow> number" where
  "requestedCoin rnd openNow body =
     (case s_amountCoin body of
        Some a \<Rightarrow> a
      | None \<Rightarrow>
          (case s_amountUsd body of
             Some u \<Rightarrow> rnd (u / s_closePrice body)
           | None \<Rightarrow>
               (case s_percentage body of
                  Some p \<Rightarrow> rnd (rnd (p / 100) * openNow)
                | None \<Rightarrow> 0)))"

definition sellClose ::
  "(number \<Rightarrow> number) \<Rightarrow> date \<Rightarrow> TradeSide \<Rightarrow> TradeAggregates \<Rightarrow> number \<Rightarrow> number \<Rightarrow>
   SellBody \<Rightarrow> ITradeClose" where
  "sellClose rnd now sd aggregatesBefore avgEntry closeCoin body =
     (let closePrice' = s_closePrice body;
          closeUsd = rnd (closeCoin * closePrice');
          marginForPortion =
            (if totalInitialMarginUsd aggregatesBefore > 0 \<and> totalEntryCoin aggregatesBefore > 0
             then rnd (totalInitialMarginUsd aggregatesBefore *
                       rnd (closeCoin / totalEntryCoin aggregatesBefore))
             else 0);
          pnl = (if sd = Long
                 then rnd (rnd (closePrice' - avgEntry) * closeCoin)
                 else rnd (rnd (avgEntry - closePrice') * closeCoin));
          pnlPct = (if marginForPortion > 0 then rnd (rnd (pnl / marginForPortion) * 100) else 0)
      in \<lparr> closePrice = closePrice', closeCoinAmount = closeCoin, closeUsdAmount = closeUsd,
           closeDate = (case s_closeDate body of Some d \<Rightarrow> d | None \<Rightarrow> now),
           pnlUsd = pnl, pnlPercent = pnlPct \<rparr>)"

definition sellTrade ::
  "(number \<Rightarrow> number) \<Rightarrow> date \<Rightarrow> ITrade \<Rightarrow> SellBody \<Rightarrow> ITrade reply" where
  "sellTrade rnd now trade body =
     (if status trade \<noteq> Active then Inl (400, ''Trade already closed'')
      else
        let aggregatesBefore = computeTradeAggregates rnd trade
        in (case avgEntryPrice aggregatesBefore of
              None \<Rightarrow> Inl (400, ''No open position to sell'')
            | Some avgEntry \<Rightarrow>
                if avgEntry = 0 \<or> totalEntryCoin aggregatesBefore \<le> 0 \<or>
                   openCoin aggregatesBefore \<le> 0
                then Inl (400, ''No open position to sell'')
                else
                  let openNow = openCoin aggregatesBefore;
                      requested = requestedCoin rnd openNow body
                  in if \<not> (requested > 0)
                     then Inl (400, ''Sell amount must be greater than zero'')
                     else
                       let closeCoin = (if requested > openNow then openNow else requested);
                           trade1 = trade\<lparr>closes := closes trade @
                                      [sellClose rnd now (side trade) aggregatesBefore avgEntry
                                         closeCoin body]\<rparr>;
                           remainingOpenCoin = rnd (openNow - closeCoin)
                       in if remainingOpenCoin \<le> rnd (1 / 10 ^ 8)
                          then Inr (trade1\<lparr>status := Closed\<rparr>)
                          else Inr trade1))"

definition sellRoute ::
  "(number \<Rightarrow> number) \<Rightarrow> (ITrade \<Rightarrow> bool) \<Rightarrow> date \<Rightarrow> store \<Rightarrow> objectId option \<Rightarrow>
   objectId \<Rightarrow> SellBody \<Rightarrow> ITrade reply \<times> store" where
  "sellRoute rnd accepts now db uid i body =
     (case uid of
        None \<Rightarrow> unauthenticated db
      | Some u \<Rightarrow>
          if \<not> sellSchema body then invalidBody db
          else (case findOne db i u of
                  None \<Rightarrow> notFound db
                | Some trade \<Rightarrow> persist accepts db (sellTrade rnd now trade body)))"

subsection \<open>DELETE /trades/:id\<close>

definition deleteRoute :: "store \<Rightarrow> objectId option \<Rightarrow> objectId \<Rightarrow> unit reply \<times> store" where
  "deleteRoute db uid i =
     (case uid of
        None \<Rightarrow> (Inl (401, ''Not authenticated''), db)
      | Some u \<Rightarrow>
          (case findOne db i u of
             None \<Rightarrow> (Inl (404, ''Trade not found''), db)
           | Some t \<Rightarrow> (Inr (), deleteOne db i u)))"

section \<open>The reconciliation engine\<close>

text \<open>
  \<open>AsterDexSyncService\<close>. An \<open>AsterDexPosition\<close> is one snapshot of the feed; the fields
  \<open>mapPosition\<close> reads are modelled. \<open>openedAt\<close> is an ISO string that the client makes
  from a time value and \<open>mapPosition\<close> parses back with \<open>new Date\<close>; it is that time
  value here.
\<close>

record AsterDexPosition =
  p_id :: string
  p_market :: string
  p_asset :: "string option"
  p_size :: number
  p_entryPrice :: number
  p_leverage :: "number option"
  p_notionalUsd :: "number option"
  p_collateralUsd :: "number option"
  p_accountId :: "string option"
  p_openedAt :: "date option"

record PositionTradePayload =
  positionId :: string
  payloadCoin :: string
  payloadSide :: TradeSide
  entry :: ITradeEntry
  payloadProductType :: TradeExchangeProductType
  accountId :: "string option"

record AsterDexSyncStats =
  totalPositions :: nat
  created :: nat
  updated :: nat
  skipped :: nat
  concurrent :: bool

datatype UpsertResult = Created | Updated

definition mapPosition ::
  "(number \<Rightarrow> number) \<Rightarrow> date \<Rightarrow> AsterDexPosition \<Rightarrow> PositionTradePayload option" where
  "mapPosition rnd now position =
     (if p_id position = [] then None
      else if p_size position = 0 then None
      else if \<not> (p_entryPrice position > 0) then None
      else
        let baseSymbol = (case p_asset position of
                            Some a \<Rightarrow> a | None \<Rightarrow> splitFirst (p_market position))
        in if baseSymbol = [] then None
           else
             let coin' = toUpperCase (trim baseSymbol)
             in if coin' = [] then None
                else
                  let absoluteSize = \<bar>p_size position\<bar>;
                      notional = (case p_notionalUsd position of
                                    Some n \<Rightarrow> n
                                  | None \<Rightarrow> rnd (absoluteSize * p_entryPrice position));
                      derivedLeverage =
                        (case p_leverage position of
                           Some l \<Rightarrow> Some l
                         | None \<Rightarrow>
                             (case p_collateralUsd position of
                                Some c \<Rightarrow> if c \<noteq> 0 \<and> c > 0 then Some (rnd (notional / c)) else None
                              | None \<Rightarrow> None));
                      leverageValue =
                        (case derivedLeverage of
                           Some l \<Rightarrow> if l \<noteq> 0 \<and> l > 1 then l else 1
                         | None \<Rightarrow> 1);
                      productType = (if leverageValue > 1 then Perpetual else Spot);
                      investedUsd =
                        (if productType = Perpetual
                         then (case p_collateralUsd position of
                                 Some c \<Rightarrow> c
                               | None \<Rightarrow> rnd (notional / leverageValue))
                         else notional)
                  in if \<not> (investedUsd > 0) then None
                     else
                       let entryDate' = (case p_openedAt position of
                                           Some d \<Rightarrow> d | None \<Rightarrow> now)
                       in Some \<lparr> positionId = p_id position,
                                 payloadCoin = coin',
                                 payloadSide = (if p_size position > 0 then Long else Short),
                                 entry = \<lparr> entryPrice = p_entryPrice position,
                                           amountInvestedUsd = investedUsd,
                                           leverage = Some (if productType = Perpetual
                                                            then leverageValue else 1),
                                           entryDate = entryDate' \<rparr>,
                                 payloadProductType = productType,
                                 accountId = p_accountId position \<rparr>)"

text \<open>
  The upsert key is \<open>(userId, exchange, exchangePositionId)\<close> with the exchange
  \<open>asterdex\<close>. A \<open>save\<close> or \<open>create\<close> that fails validation or is rejected throws
  (\<open>Inl\<close>); the store is then as it was before this upsert.
\<close>

definition hasKey :: "objectId \<Rightarrow> string \<Rightarrow> ITrade \<Rightarrow> bool" where
  "hasKey u pid t =
     (userId t = u \<and> exchange t = Some ''asterdex'' \<and> exchangePositionId t = Some pid)"

definition upsertTrade ::
  "(ITrade \<Rightarrow> bool) \<Rightarrow> objectId \<Rightarrow> store \<Rightarrow> PositionTradePayload \<Rightarrow> date \<Rightarrow>
   (string + UpsertResult) \<times> store" where
  "upsertTrade accepts userObjectId db payload syncedAt =
     (case find (hasKey userObjectId (positionId payload)) db of
        Some existing \<Rightarrow>
          let doc = existing\<lparr> side := payloadSide payload,
                      status := Active,
                      coin := setCoin (payloadCoin payload),
                      entries := [entry payload],
                      closes := [],
                      source := Asterdex,
                      exchange := Some ''asterdex'',
                      exchangeAccountId := accountId payload,
                      exchangePositionId := Some (positionId payload),
                      exchangeProductType := Some (payloadProductType payload),
                      lastSyncedAt := Some syncedAt \<rparr>
          in if validates doc \<and> accepts doc then (Inr Updated, save db doc)
             else (Inl ''save rejected'', db)
      | None \<Rightarrow>
          let doc = create db
                      \<lparr> tradeId = 0, userId = userObjectId, side = payloadSide payload,
                        status = Active, coin = setCoin (payloadCoin payload), comment = None,
                        stopLossPrice = None, takeProfitPrice = None,
                        entries = [entry payload], closes = [],
                        source = Asterdex, exchange = Some ''asterdex'',
                        exchangeAccountId = accountId payload,
                        exchangePositionId = Some (positionId payload),
                        exchangeProductType = Some (payloadProductType payload),
                        lastSyncedAt = Some syncedAt \<rparr>
          in if validates doc \<and> accepts doc then (Inr Created, db @ [doc])
             else (Inl ''create rejected'', db))"

text \<open>
  \<open>syncPositions\<close>: the loop over the snapshots, with its three counters. An upsert that
  throws leaves the loop and the function; the store keeps the upserts made so far.
\<close>

fun syncLoop ::
  "(number \<Rightarrow> number) \<Rightarrow> (ITrade \<Rightarrow> bool) \<Rightarrow> objectId \<Rightarrow> date \<Rightarrow> AsterDexPosition list \<Rightarrow>
   nat \<times> nat \<times> nat \<Rightarrow> store \<Rightarrow> (string + nat \<times> nat \<times> nat) \<times> store" where
  "syncLoop rnd accepts u now [] counters db = (Inr counters, db)"
| "syncLoop rnd accepts u now (p # ps) (nCreated, nUpdated, nSkipped) db =
     (case mapPosition rnd now p of
        None \<Rightarrow> syncLoop rnd accepts u now ps (nCreated, nUpdated, Suc nSkipped) db
      | Some payload \<Rightarrow>
          (case upsertTrade accepts u db payload now of
             (Inl err, db') \<Rightarrow> (Inl err, db')
           | (Inr Created, db') \<Rightarrow>
               syncLoop rnd accepts u now ps (Suc nCreated, nUpdated, nSkipped) db'
           | (Inr Updated, db') \<Rightarrow>
               syncLoop rnd accepts u now ps (nCreated, Suc nUpdated, nSkipped) db'))"

definition syncPositions ::
  "(number \<Rightarrow> number) \<Rightarrow> (ITrade \<Rightarrow> bool) \<Rightarrow> objectId \<Rightarrow> date \<Rightarrow> AsterDexPosition list \<Rightarrow>
   store \<Rightarrow> (string + AsterDexSyncStats) \<times> store" where
  "syncPositions rnd accepts u now positions db =
     (case syncLoop rnd accepts u now positions (0, 0, 0) db of
        (Inl err, db') \<Rightarrow> (Inl err, db')
      | (Inr (nCreated, nUpdated, nSkipped), db') \<Rightarrow>
          (Inr \<lparr> totalPositions = length positions, created = nCreated, updated = nUpdated,
                 skipped = nSkipped, concurrent = False \<rparr>, db'))"

text \<open>
  \<open>runSync\<close>, run to its end. The state of the service is the flag \<open>syncing\<close>; around it
  are the store and the client, whose state is the number of requests it has signed.
  \<open>feed\<close> is what \<open>fetchOpenPositions\<close> resolves to: the list of snapshots, or the
  error it throws.
\<close>

record SyncState =
  syncing :: bool
  trades :: store
  requests :: nat

definition concurrentStats :: AsterDexSyncStats where
  "concurrentStats =
     \<lparr> totalPositions = 0, created = 0, updated = 0, skipped = 0, concurrent = True \<rparr>"

definition failedStats :: AsterDexSyncStats where
  "failedStats =
     \<lparr> totalPositions = 0, created = 0, updated = 0, skipped = 0, concurrent = False \<rparr>"

definition runSync ::
  "(number \<Rightarrow> number) \<Rightarrow> (ITrade \<Rightarrow> bool) \<Rightarrow> objectId \<Rightarrow> date \<Rightarrow>
   string + AsterDexPosition list \<Rightarrow> SyncState \<Rightarrow> AsterDexSyncStats \<times> SyncState" where
  "runSync rnd accepts u now feed w =
     (if syncing w then (concurrentStats, w)
      else
        let w1 = w\<lparr>syncing := True\<rparr>;
            w2 = w1\<lparr>requests := Suc (requests w1)\<rparr>
        in (case feed of
              Inl err \<Rightarrow> (failedStats, w2\<lparr>syncing := False\<rparr>)
            | Inr positions \<Rightarrow>
                (case syncPositions rnd accepts u now positions (trades w2) of
                   (Inl err, db') \<Rightarrow> (failedStats, w2\<lparr>trades := db', syncing := False\<rparr>)
                 | (Inr stats, db') \<Rightarrow> (stats, w2\<lparr>trades := db', syncing := False\<rparr>))))"

subsection \<open>Overlapping calls\<close>

text \<open>
  \<open>runSync\<close> is \<open>async\<close>: it runs without interruption up to an \<open>await\<close>, and other
  calls, from the interval timer of \<open>start\<close> or from \<open>syncOnce\<close>, run in between. An
  \<open>Engine\<close> is the service with the passes that are suspended at an \<open>await\<close> and the
  statistics its calls have returned so far. A pass waits for the feed (\<open>Fetching\<close>) or
  is inside the loop of \<open>syncPositions\<close> (\<open>Upserting\<close>, with the time of the run, the
  number of snapshots, the snapshots still to do and the counters). An event is a new call
  of \<open>runSync\<close>, the arrival of the feed for the pass at an index, or the next turn of the
  loop of the pass at an index. The test of \<open>syncing\<close> and its assignment are in one
  uninterrupted stretch, as is the \<open>finally\<close> block that clears it.
\<close>

datatype Pass =
    Fetching
  | Upserting date nat "AsterDexPosition list" "nat \<times> nat \<times> nat"

datatype Event =
    Invoke
  | FeedArrives nat "string + AsterDexPosition list" date
  | Continue nat "ITrade \<Rightarrow> bool"

record Engine = SyncState +
  passes :: "Pass list"
  returned :: "AsterDexSyncStats list"

definition finish :: "nat \<Rightarrow> AsterDexSyncStats \<Rightarrow> Engine \<Rightarrow> Engine" where
  "finish k stats e =
     e\<lparr> syncing := False,
        passes := take k (passes e) @ drop (Suc k) (passes e),
        returned := returned e @ [stats] \<rparr>"

definition continuePass ::
  "(number \<Rightarrow> number) \<Rightarrow> objectId \<Rightarrow> (ITrade \<Rightarrow> bool) \<Rightarrow> nat \<Rightarrow> Pass \<Rightarrow> Engine \<Rightarrow> Engine" where
  "continuePass rnd u accepts k pass e =
     (case pass of
        Fetching \<Rightarrow> e
      | Upserting now nTotal [] (nCreated, nUpdated, nSkipped) \<Rightarrow>
          finish k \<lparr> totalPositions = nTotal, created = nCreated, updated = nUpdated,
                     skipped = nSkipped, concurrent = False \<rparr> e
      | Upserting now nTotal (p # ps) (nCreated, nUpdated, nSkipped) \<Rightarrow>
          (case mapPosition rnd now p of
             None \<Rightarrow>
               e\<lparr>passes := (passes e)[k := Upserting now nTotal ps (nCreated, nUpdated, Suc nSkipped)]\<rparr>
           | Some payload \<Rightarrow>
               (case upsertTrade accepts u (trades e) payload now of
                  (Inl err, db') \<Rightarrow> finish k failedStats (e\<lparr>trades := db'\<rparr>)
                | (Inr Created, db') \<Rightarrow>
                    e\<lparr> trades := db',
                       passes := (passes e)[k := Upserting now nTotal ps (Suc nCreated, nUpdated, nSkipped)] \<rparr>
                | (Inr Updated, db') \<Rightarrow>
                    e\<lparr> trades := db',
                       passes := (passes e)[k := Upserting now nTotal ps (nCreated, Suc nUpdated, nSkipped)] \<rparr>)))"

fun step :: "(number \<Rightarrow> number) \<Rightarrow> objectId \<Rightarrow> Engine \<Rightarrow> Event \<Rightarrow> Engine" where
  "step rnd u e Invoke =
     (if syncing e then e\<lparr>returned := returned e @ [concurrentStats]\<rparr>
      else e\<lparr> syncing := True, requests := Suc (requests e), passes := passes e @ [Fetching] \<rparr>)"
| "step rnd u e (FeedArrives k feed now) =
     (if k < length (passes e) \<and> passes e ! k = Fetching
      then (case feed of
              Inl err \<Rightarrow> finish k failedStats e
            | Inr positions \<Rightarrow>
                e\<lparr>passes := (passes e)[k := Upserting now (length positions) positions (0, 0, 0)]\<rparr>)
      else e)"
| "step rnd u e (Continue k accepts) =
     (if k < length (passes e) then continuePass rnd u accepts k (passes e ! k) e else e)"

definition idle :: "store \<Rightarrow> Engine" where
  "idle db = \<lparr> syncing = False, trades = db, requests = 0, passes = [], returned = [] \<rparr>"

definition run :: "(number \<Rightarrow> number) \<Rightarrow> objectId \<Rightarrow> store \<Rightarrow> Event list \<Rightarrow> Engine" where
  "run rnd u db events = foldl (step rnd u) (idle db) events"

section \<open>Histories\<close>

text \<open>
  A request is one call of a route or one reconciliation run, with the time at which it
  is served and the answer of the database to its write. The reachable stores are those
  that a list of requests produces from the empty collection.
\<close>

datatype Request =
    CreateActive "objectId option" CreateActiveBody
  | CreateClosed "objectId option" CreateClosedBody
  | Edit "objectId option" objectId EditBody
  | AddSize "objectId option" objectId AddSizeBody
  | Sell "objectId option" objectId SellBody
  | Delete "objectId option" objectId
  | Reconcile objectId "string + AsterDexPosition list"

fun serve ::
  "(number \<Rightarrow> number) \<Rightarrow> (ITrade \<Rightarrow> bool) \<Rightarrow> date \<Rightarrow> store \<Rightarrow> Request \<Rightarrow> store" where
  "serve rnd accepts now db (CreateActive uid body) =
     snd (createActiveRoute accepts now db uid body)"
| "serve rnd accepts now db (CreateClosed uid body) =
     snd (createClosedRoute rnd accepts now db uid body)"
| "serve rnd accepts now db (Edit uid i body) = snd (editRoute rnd accepts db uid i body)"
| "serve rnd accepts now db (AddSize uid i body) = snd (addSizeRoute accepts now db uid i body)"
| "serve rnd accepts now db (Sell uid i body) = snd (sellRoute rnd accepts now db uid i body)"
| "serve rnd accepts now db (Delete uid i) = snd (deleteRoute db uid i)"
| "serve rnd accepts now db (Reconcile u feed) =
     trades (snd (runSync rnd accepts u now feed \<lparr> syncing = False, trades = db, requests = 0 \<rparr>))"

definition history ::
  "(number \<Rightarrow> number) \<Rightarrow> ((ITrade \<Rightarrow> bool) \<times> date \<times> Request) list \<Rightarrow> store" where
  "history rnd reqs = foldl (\<lambda>db (accepts, now, r). serve rnd accepts now db r) [] reqs"

definition isRoute :: "Request \<Rightarrow> bool" where
  "isRoute r = (case r of Reconcile u feed \<Rightarrow> False | _ \<Rightarrow> True)"

text \<open>The sums of the specification, over the exact per-entry and per-close amounts.\<close>

definition sumEntryCoin :: "ITradeEntry list \<Rightarrow> number" where
  "sumEntryCoin es = sum_list (map (entryCoin exact) es)"

definition sumCloseCoin :: "ITradeClose list \<Rightarrow> number" where
  "sumCloseCoin cs = sum_list (map closeCoinAmount cs)"

text \<open>
  The entry of the data model: a positive price, a positive margin and, when it has one, a
  positive leverage. The schemas of the routes and \<open>mapPosition\<close> admit no other entry.
\<close>

definition validEntry :: "ITradeEntry \<Rightarrow> bool" where
  "validEntry e = (0 < entryPrice e \<and> 0 < amountInvestedUsd e \<and> optPositive (leverage e))"

section \<open>Notions used by the statements\<close>

text \<open>
  The coin amount that a sell closes: the amount the request implies, clamped to the open
  coin. It names the value of \<open>closeCoin\<close> in \<open>sellTrade\<close>.
\<close>

definition soldCoin :: "(number \<Rightarrow> number) \<Rightarrow> ITrade \<Rightarrow> SellBody \<Rightarrow> number" where
  "soldCoin rnd trade body =
     (let openNow = openCoin (computeTradeAggregates rnd trade);
          requested = requestedCoin rnd openNow body
      in if requested > openNow then openNow else requested)"

text \<open>
  The invariant of the ledger in exact arithmetic: the entries are entries of the data
  model, the closes have positive coin amounts, and the closes sum to no more than the
  entries.
\<close>

definition ledgerInv :: "ITrade \<Rightarrow> bool" where
  "ledgerInv t =
     ((\<forall>e\<in>set (entries t). validEntry e) \<and>
      (\<forall>c\<in>set (closes t). 0 < closeCoinAmount c) \<and>
      sumCloseCoin (closes t) \<le> sumEntryCoin (entries t))"

text \<open>
  The two documents that \<open>upsertTrade\<close> writes: the existing one with its fields
  overwritten, and the new one.
\<close>

definition upsertDoc :: "ITrade \<Rightarrow> PositionTradePayload \<Rightarrow> date \<Rightarrow> ITrade" where
  "upsertDoc existing payload syncedAt =
     existing\<lparr> side := payloadSide payload, status := Active,
                coin := setCoin (payloadCoin payload), entries := [entry payload], closes := [],
                source := Asterdex, exchange := Some ''asterdex'',
                exchangeAccountId := accountId payload,
                exchangePositionId := Some (positionId payload),
                exchangeProductType := Some (payloadProductType payload),
                lastSyncedAt := Some syncedAt \<rparr>"

definition freshDoc :: "objectId \<Rightarrow> PositionTradePayload \<Rightarrow> date \<Rightarrow> ITrade" where
  "freshDoc u payload syncedAt =
     \<lparr> tradeId = 0, userId = u, side = payloadSide payload,
       status = Active, coin = setCoin (payloadCoin payload), comment = None,
       stopLossPrice = None, takeProfitPrice = None,
       entries = [entry payload], closes = [],
       source = Asterdex, exchange = Some ''asterdex'',
       exchangeAccountId = accountId payload,
       exchangePositionId = Some (positionId payload),
       exchangeProductType = Some (payloadProductType payload),
       lastSyncedAt = Some syncedAt \<rparr>"

text \<open>
  At most one pass is in flight, and the flag \<open>syncing\<close> is set exactly while one is.
\<close>

definition oneAtATime :: "Engine \<Rightarrow> bool" where
  "oneAtATime e = (length (passes e) \<le> 1 \<and> (syncing e = (passes e \<noteq> [])))"

section \<open>Documents and requests of the examples\<close>

text \<open>
  The statements of this development are also evaluated on concrete requests, documents
  and snapshots. \<open>acceptAll\<close> is the database that accepts every write. The first
  position is a long of 50 coins: margin 1000 at leverage 5, bought at 100.
\<close>

definition acceptAll :: "ITrade \<Rightarrow> bool" where
  "acceptAll d = True"

declare acceptAll_def [simp]

definition exampleOpen :: CreateActiveBody where
  "exampleOpen = \<lparr> c_coin = ''BTC'', c_side = Long, c_entryPrice = 100, c_amountInvestedUsd = 1000,
             c_leverage = Some 5, c_stopLossPrice = None, c_takeProfitPrice = None,
             c_entryDate = None, c_comment = None \<rparr>"

definition exampleTrade :: ITrade where
  "exampleTrade = create [] (newTrade 1 Long Active ''BTC'' None None None
                               [newEntry 100 1000 (Some 5) 7] [])"

definition sellOf :: "number \<Rightarrow> number option \<Rightarrow> number option \<Rightarrow> number option \<Rightarrow> SellBody" where
  "sellOf price amountCoin amountUsd percentage =
     \<lparr> s_closePrice = price, s_closeDate = None, s_amountCoin = amountCoin,
       s_amountUsd = amountUsd, s_percentage = percentage \<rparr>"

text \<open>
  The second position holds more than \<open>2^30\<close> coins of a cheap asset: margin
  \<open>2^10 + 3 * 2^-42\<close> at price \<open>2^-20\<close>, without leverage. All three numbers
  are binary64 values, and so is the total \<open>2^30 + 3 * 2^-22\<close>.
\<close>

definition memeOpen :: CreateActiveBody where
  "memeOpen = \<lparr> c_coin = ''PEPE'', c_side = Long, c_entryPrice = 1 / 2 ^ 20,
             c_amountInvestedUsd = 2 ^ 10 + 3 / 2 ^ 42,
             c_leverage = None, c_stopLossPrice = None, c_takeProfitPrice = None,
             c_entryDate = None, c_comment = None \<rparr>"

definition memeTrade :: ITrade where
  "memeTrade = create [] (newTrade 1 Long Active ''PEPE'' None None None
                               [newEntry (1 / 2 ^ 20) (2 ^ 10 + 3 / 2 ^ 42) None 7] [])"

text \<open>
  A first sell of \<open>3 * 2^-23\<close> coins of that position, and the document it leaves.
\<close>

definition memeFirstSell :: SellBody where
  "memeFirstSell = sellOf (1 / 2 ^ 20) (Some (3 / 2 ^ 23)) None None"

definition memeAfterFirstSell :: ITrade where
  "memeAfterFirstSell =
     memeTrade\<lparr>closes := [sellClose fl64 8 Long (computeTradeAggregates fl64 memeTrade)
                            (1 / 2 ^ 20) (3 / 2 ^ 23) memeFirstSell],
               status := Active\<rparr>"

text \<open>
  Two requests that sell the rest: one asks for \<open>2^31\<close> coins, the other for 100
  per cent. \<open>memeSoldOut\<close> is the document after either, \<open>memeHistory\<close> the
  requests that lead to the document after the first sell.
\<close>

definition memeSellAll :: SellBody where
  "memeSellAll = sellOf (1 / 2 ^ 20) (Some (2 ^ 31)) None None"

definition memeSellRest :: SellBody where
  "memeSellRest = sellOf (1 / 2 ^ 20) None None (Some 100)"

definition memeSoldOut :: "SellBody \<Rightarrow> ITrade" where
  "memeSoldOut body =
     memeAfterFirstSell\<lparr>closes := closes memeAfterFirstSell @
         [sellClose fl64 9 Long (computeTradeAggregates fl64 memeAfterFirstSell)
            (1 / 2 ^ 20) (2 ^ 30 + 1 / 2 ^ 21) body],
       status := Closed\<rparr>"

definition memeHistory :: "((ITrade \<Rightarrow> bool) \<times> date \<times> Request) list" where
  "memeHistory = [(acceptAll, 7, CreateActive (Some 1) memeOpen),
                  (acceptAll, 8, Sell (Some 1) 0 memeFirstSell)]"

text \<open>
  Requests on the position of 50 coins: a sell of half, a sell of 80 coins, an edit of the
  comment, and an edit that supplies an entry price together with a comment, a stop loss
  and a take profit.
\<close>

definition exampleHistory :: "((ITrade \<Rightarrow> bool) \<times> date \<times> Request) list" where
  "exampleHistory = [(acceptAll, 7, CreateActive (Some 1) exampleOpen)]"

definition exampleSellHalf :: SellBody where
  "exampleSellHalf = sellOf 120 None None (Some 50)"

definition exampleSellAll :: SellBody where
  "exampleSellAll = sellOf 120 (Some 80) None None"

definition exampleHalfSold :: ITrade where
  "exampleHalfSold =
     exampleTrade\<lparr>closes := [\<lparr> closePrice = 120, closeCoinAmount = 25, closeUsdAmount = 3000,
                               closeDate = 8, pnlUsd = 500, pnlPercent = 100 \<rparr>]\<rparr>"

definition exampleSoldOut :: ITrade where
  "exampleSoldOut =
     exampleTrade\<lparr>closes := [\<lparr> closePrice = 120, closeCoinAmount = 50, closeUsdAmount = 6000,
                               closeDate = 8, pnlUsd = 1000, pnlPercent = 100 \<rparr>],
                  status := Closed\<rparr>"

definition exampleComment :: EditBody where
  "exampleComment =
     \<lparr> e_comment = Some ''done'', e_stopLossPrice = None, e_takeProfitPrice = None,
       e_coin = None, e_side = None, e_entryPrice = None, e_amountInvestedUsd = None,
       e_leverage = None, e_entryDate = None, e_exitPrice = None, e_exitDate = None \<rparr>"

definition exampleEdit :: EditBody where
  "exampleEdit =
     \<lparr> e_comment = Some ''moved the stop'', e_stopLossPrice = Some (Some 90),
       e_takeProfitPrice = Some (Some 150),
       e_coin = None, e_side = None, e_entryPrice = Some 120, e_amountInvestedUsd = None,
       e_leverage = None, e_entryDate = None, e_exitPrice = None, e_exitDate = None \<rparr>"

text \<open>
  Four snapshots of the feed. The fourth has size zero and fails the mapping rules.
  \<open>refusesETH\<close> is a database that rejects the write of a document whose coin is
  ETH and accepts every other write.
\<close>

definition btcPosition :: AsterDexPosition where
  "btcPosition = \<lparr> p_id = ''p1'', p_market = ''BTC-USD'', p_asset = Some ''BTC'', p_size = 2,
                   p_entryPrice = 100, p_leverage = None, p_notionalUsd = Some 200,
                   p_collateralUsd = None, p_accountId = None, p_openedAt = Some 3 \<rparr>"

definition ethPosition :: AsterDexPosition where
  "ethPosition = \<lparr> p_id = ''p2'', p_market = ''ETH-USD'', p_asset = Some ''ETH'', p_size = - 4,
                   p_entryPrice = 50, p_leverage = None, p_notionalUsd = Some 200,
                   p_collateralUsd = None, p_accountId = None, p_openedAt = Some 4 \<rparr>"

definition solPosition :: AsterDexPosition where
  "solPosition = \<lparr> p_id = ''p3'', p_market = ''SOL-USD'', p_asset = Some ''SOL'', p_size = 10,
                   p_entryPrice = 20, p_leverage = None, p_notionalUsd = Some 200,
                   p_collateralUsd = None, p_accountId = None, p_openedAt = Some 5 \<rparr>"

definition flatPosition :: AsterDexPosition where
  "flatPosition = \<lparr> p_id = ''p0'', p_market = ''BTC-USD'', p_asset = Some ''BTC'', p_size = 0,
                    p_entryPrice = 100, p_leverage = None, p_notionalUsd = Some 0,
                    p_collateralUsd = None, p_accountId = None, p_openedAt = Some 2 \<rparr>"

definition btcPayload :: PositionTradePayload where
  "btcPayload = \<lparr> positionId = ''p1'', payloadCoin = ''BTC'', payloadSide = Long,
                  entry = \<lparr> entryPrice = 100, amountInvestedUsd = 200, leverage = Some 1,
                            entryDate = 3 \<rparr>,
                  payloadProductType = Spot, accountId = None \<rparr>"

definition ethPayload :: PositionTradePayload where
  "ethPayload = \<lparr> positionId = ''p2'', payloadCoin = ''ETH'', payloadSide = Short,
                  entry = \<lparr> entryPrice = 50, amountInvestedUsd = 200, leverage = Some 1,
                            entryDate = 4 \<rparr>,
                  payloadProductType = Spot, accountId = None \<rparr>"

definition refusesETH :: "ITrade \<Rightarrow> bool" where
  "refusesETH d = (coin d \<noteq> ''ETH'')"

definition btcSynced :: ITrade where
  "btcSynced = create [] (freshDoc 1 btcPayload 7)"

definition idleState :: SyncState where
  "idleState = \<lparr> syncing = False, trades = [], requests = 0 \<rparr>"

definition busyState :: SyncState where
  "busyState = \<lparr> syncing = True, trades = [btcSynced], requests = 1 \<rparr>"

definition sellEverything :: SellBody where
  "sellEverything = sellOf 120 None None (Some 100)"

definition btcSyncedSold :: ITrade where
  "btcSyncedSold =
     btcSynced\<lparr>closes := [sellClose fl64 8 Long (computeTradeAggregates fl64 btcSynced) 100 2
                            sellEverything],
               status := Closed\<rparr>"

definition syncHistory :: "((ITrade \<Rightarrow> bool) \<times> date \<times> Request) list" where
  "syncHistory = [(acceptAll, 7, Reconcile 1 (Inr [btcPosition])),
                  (acceptAll, 8, Sell (Some 1) 0 sellEverything)]"

text \<open>
  The states of the service before and after two runs on the first snapshot, and the
  statistics of a run on one snapshot.
\<close>

definition btcResynced :: ITrade where
  "btcResynced = upsertDoc btcSynced btcPayload 9"

definition onceSynced :: SyncState where
  "onceSynced = \<lparr> syncing = False, trades = [btcSynced], requests = 1 \<rparr>"

definition twiceSynced :: SyncState where
  "twiceSynced = \<lparr> syncing = False, trades = [btcResynced], requests = 2 \<rparr>"

definition createdOne :: AsterDexSyncStats where
  "createdOne = \<lparr> totalPositions = 1, created = 1, updated = 0, skipped = 0, concurrent = False \<rparr>"

definition updatedOne :: AsterDexSyncStats where
  "updatedOne = \<lparr> totalPositions = 1, created = 0, updated = 1, skipped = 0, concurrent = False \<rparr>"

definition skippedOne :: AsterDexSyncStats where
  "skippedOne = \<lparr> totalPositions = 1, created = 0, updated = 0, skipped = 1, concurrent = False \<rparr>"

section \<open>Properties of the aggregation function\<close>

lemma entryCoin_exact:
  "entryCoin exact e =
     amountInvestedUsd e * (case leverage e of None \<Rightarrow> 1 | Some l \<Rightarrow> l) / entryPrice e"
  by (simp add: entryCoin_def exact_def)

lemma entryStep_exact:
  "entryStep exact (m, c, n) e =
     (m + amountInvestedUsd e, c + entryCoin exact e,
      n + amountInvestedUsd e * (case leverage e of None \<Rightarrow> 1 | Some l \<Rightarrow> l))"
  by (simp add: entryStep_def entryCoin_def exact_def Let_def)

lemma closeStep_exact:
  "closeStep exact (c, p) x = (c + closeCoinAmount x, p + pnlUsd x)"
  by (simp add: closeStep_def exact_def)

lemma foldl_entryStep_exact:
  "foldl (entryStep exact) (m, c, n) es =
     (m + sum_list (map amountInvestedUsd es),
      c + sumEntryCoin es,
      n + sum_list (map (\<lambda>e. amountInvestedUsd e * (case leverage e of None \<Rightarrow> 1 | Some l \<Rightarrow> l)) es))"
proof (induction es arbitrary: m c n)
  case Nil
  show ?case by (simp add: sumEntryCoin_def)
next
  case (Cons e es)
  have "foldl (entryStep exact) (m, c, n) (e # es) =
        foldl (entryStep exact) (entryStep exact (m, c, n) e) es"
    by simp
  also have "\<dots> = foldl (entryStep exact)
      (m + amountInvestedUsd e, c + entryCoin exact e,
       n + amountInvestedUsd e * (case leverage e of None \<Rightarrow> 1 | Some l \<Rightarrow> l)) es"
    by (simp only: entryStep_exact)
  finally show ?case
    by (simp add: Cons.IH sumEntryCoin_def add.assoc)
qed

lemma foldl_closeStep_exact:
  "foldl (closeStep exact) (c, p) cs =
     (c + sumCloseCoin cs, p + sum_list (map pnlUsd cs))"
proof (induction cs arbitrary: c p)
  case Nil
  show ?case by (simp add: sumCloseCoin_def)
next
  case (Cons x xs)
  have "foldl (closeStep exact) (c, p) (x # xs) =
        foldl (closeStep exact) (c + closeCoinAmount x, p + pnlUsd x) xs"
    by (simp only: foldl.simps closeStep_exact)
  then show ?case
    by (simp add: Cons.IH sumCloseCoin_def add.assoc)
qed

lemma totalEntryCoin_exact:
  "totalEntryCoin (computeTradeAggregates exact t) = sumEntryCoin (entries t)"
  by (simp add: computeTradeAggregates_def foldl_entryStep_exact foldl_closeStep_exact Let_def)

lemma totalInitialMarginUsd_exact:
  "totalInitialMarginUsd (computeTradeAggregates exact t) =
     sum_list (map amountInvestedUsd (entries t))"
  by (simp add: computeTradeAggregates_def foldl_entryStep_exact foldl_closeStep_exact Let_def)

lemma openCoin_exact:
  "openCoin (computeTradeAggregates exact t) =
     max (sumEntryCoin (entries t) - sumCloseCoin (closes t)) 0"
  by (simp add: computeTradeAggregates_def foldl_entryStep_exact foldl_closeStep_exact Let_def
      exact_def)

lemma totalEntryCoin_fold:
  "totalEntryCoin (computeTradeAggregates rnd t) =
     fst (snd (foldl (entryStep rnd) (0, 0, 0) (entries t)))"
  by (simp add: computeTradeAggregates_def Let_def split: prod.splits)

lemma totalInitialMarginUsd_fold:
  "totalInitialMarginUsd (computeTradeAggregates rnd t) =
     fst (foldl (entryStep rnd) (0, 0, 0) (entries t))"
  by (simp add: computeTradeAggregates_def Let_def split: prod.splits)

lemma openCoin_fold:
  "openCoin (computeTradeAggregates rnd t) =
     max (rnd (fst (snd (foldl (entryStep rnd) (0, 0, 0) (entries t))) -
               fst (foldl (closeStep rnd) (0, 0) (closes t)))) 0"
  by (simp add: computeTradeAggregates_def Let_def split: prod.splits)

lemma avgEntryPrice_fold:
  "avgEntryPrice (computeTradeAggregates rnd t) =
     (case foldl (entryStep rnd) (0, 0, 0) (entries t) of
        (totalMargin, totalCoin, totalNotional) \<Rightarrow>
          if totalCoin > 0 then Some (rnd (totalNotional / totalCoin)) else None)"
  by (simp add: computeTradeAggregates_def Let_def split: prod.splits)

lemma sumEntryCoin_mset: "mset es' = mset es \<Longrightarrow> sumEntryCoin es' = sumEntryCoin es"
  unfolding sumEntryCoin_def by (metis mset_map sum_mset_sum_list)

subsection \<open>Evaluating the binary64 rounding\<close>

lemma binade_numeral:
  "binade (numeral k) x =
     (if 2 \<le> x then binade (pred_numeral k) (x / 2) + 1
      else if x < 1 then binade (pred_numeral k) (x * 2) - 1
      else 0)"
  by (simp add: numeral_eq_Suc)

lemmas fl64_eval = fl64_def binade_numeral roundTiesToEven_def pow2_def Let_def

subsection \<open>The total entry coin and the order of the entries\<close>

text \<open>
  Claim C8, as amended. In exact arithmetic \<open>totalEntryCoin\<close> is the sum over the entries
  of \<open>amountInvestedUsd * leverage / entryPrice\<close>, with the leverage 1 when the entry has
  none, and a trade with the same entries in another order has the same
  \<open>totalEntryCoin\<close>.
\<close>

theorem totalEntryCoin_exact_sum_any_order:
  "totalEntryCoin (computeTradeAggregates exact t) =
     (\<Sum>e\<leftarrow>entries t. amountInvestedUsd e * (case leverage e of None \<Rightarrow> 1 | Some l \<Rightarrow> l) /
        entryPrice e) \<and>
   (mset (entries t') = mset (entries t) \<longrightarrow>
      totalEntryCoin (computeTradeAggregates exact t') =
      totalEntryCoin (computeTradeAggregates exact t))"
proof
  show "totalEntryCoin (computeTradeAggregates exact t) =
     (\<Sum>e\<leftarrow>entries t. amountInvestedUsd e * (case leverage e of None \<Rightarrow> 1 | Some l \<Rightarrow> l) /
        entryPrice e)"
    by (simp add: totalEntryCoin_exact sumEntryCoin_def entryCoin_exact cong: map_cong)
  show "mset (entries t') = mset (entries t) \<longrightarrow>
      totalEntryCoin (computeTradeAggregates exact t') =
      totalEntryCoin (computeTradeAggregates exact t)"
    using sumEntryCoin_mset[of "entries t'" "entries t"] by (simp add: totalEntryCoin_exact)
qed

theorem totalEntryCoin_exact_sum_any_order_witness:
  "mset (entries (newTrade 1 Long Active ''BTC'' None None None
                    [newEntry 100 1000 (Some 5) 0, newEntry 50 200 None 0] [])) =
   mset (entries (newTrade 1 Long Active ''BTC'' None None None
                    [newEntry 50 200 None 0, newEntry 100 1000 (Some 5) 0] [])) \<and>
   totalEntryCoin (computeTradeAggregates exact
     (newTrade 1 Long Active ''BTC'' None None None
        [newEntry 100 1000 (Some 5) 0, newEntry 50 200 None 0] [])) = 54 \<and>
   totalEntryCoin (computeTradeAggregates exact
     (newTrade 1 Long Active ''BTC'' None None None
        [newEntry 50 200 None 0, newEntry 100 1000 (Some 5) 0] [])) = 54"
  using totalEntryCoin_exact_sum_any_order
    [of "newTrade 1 Long Active ''BTC'' None None None
           [newEntry 50 200 None 0, newEntry 100 1000 (Some 5) 0] []"
        "newTrade 1 Long Active ''BTC'' None None None
           [newEntry 100 1000 (Some 5) 0, newEntry 50 200 None 0] []"]
  by (simp add: newTrade_def newEntry_def)

text \<open>
  Claim C8 as stated fails on the program, which adds in binary64. Three entries at the
  price 1 with the margins 0.1, 0.2 and 0.3 (the binary64 values of these literals) give
  the total 0.6000000000000001 in this order and 0.6 in the reverse order.
\<close>

theorem totalEntryCoin_binary64_order_counterexample:
  "mset [newEntry 1 (fl64 (3 / 10)) None 0, newEntry 1 (fl64 (2 / 10)) None 0,
         newEntry 1 (fl64 (1 / 10)) None 0] =
   mset [newEntry 1 (fl64 (1 / 10)) None 0, newEntry 1 (fl64 (2 / 10)) None 0,
         newEntry 1 (fl64 (3 / 10)) None 0] \<and>
   totalEntryCoin (computeTradeAggregates fl64
      (newTrade 1 Long Active ''PEPE'' None None None
         [newEntry 1 (fl64 (1 / 10)) None 0, newEntry 1 (fl64 (2 / 10)) None 0,
          newEntry 1 (fl64 (3 / 10)) None 0] [])) = 5404319552844596 / 2 ^ 53 \<and>
   totalEntryCoin (computeTradeAggregates fl64
      (newTrade 1 Long Active ''PEPE'' None None None
         [newEntry 1 (fl64 (3 / 10)) None 0, newEntry 1 (fl64 (2 / 10)) None 0,
          newEntry 1 (fl64 (1 / 10)) None 0] [])) = 5404319552844595 / 2 ^ 53"
proof (intro conjI)
  show "mset [newEntry 1 (fl64 (3 / 10)) None 0, newEntry 1 (fl64 (2 / 10)) None 0,
         newEntry 1 (fl64 (1 / 10)) None 0] =
   mset [newEntry 1 (fl64 (1 / 10)) None 0, newEntry 1 (fl64 (2 / 10)) None 0,
         newEntry 1 (fl64 (3 / 10)) None 0]"
    by (simp add: add_mset_commute)
  show "totalEntryCoin (computeTradeAggregates fl64
      (newTrade 1 Long Active ''PEPE'' None None None
         [newEntry 1 (fl64 (1 / 10)) None 0, newEntry 1 (fl64 (2 / 10)) None 0,
          newEntry 1 (fl64 (3 / 10)) None 0] [])) = 5404319552844596 / 2 ^ 53"
    by (simp add: totalEntryCoin_fold newTrade_def newEntry_def entryStep_def fl64_eval)
  show "totalEntryCoin (computeTradeAggregates fl64
      (newTrade 1 Long Active ''PEPE'' None None None
         [newEntry 1 (fl64 (3 / 10)) None 0, newEntry 1 (fl64 (2 / 10)) None 0,
          newEntry 1 (fl64 (1 / 10)) None 0] [])) = 5404319552844595 / 2 ^ 53"
    by (simp add: totalEntryCoin_fold newTrade_def newEntry_def entryStep_def fl64_eval)
qed

subsection \<open>The open coin\<close>

lemma validEntry_entryCoin_pos: "validEntry e \<Longrightarrow> 0 < entryCoin exact e"
  by (auto simp: entryCoin_exact validEntry_def optPositive_def split: option.splits)

lemma sumEntryCoin_nonneg: "\<forall>e\<in>set es. validEntry e \<Longrightarrow> 0 \<le> sumEntryCoin es"
  unfolding sumEntryCoin_def
  by (induction es) (auto dest: validEntry_entryCoin_pos intro: add_nonneg_nonneg less_imp_le)

lemma sumCloseCoin_nonneg: "\<forall>c\<in>set cs. 0 \<le> closeCoinAmount c \<Longrightarrow> 0 \<le> sumCloseCoin cs"
  unfolding sumCloseCoin_def by (induction cs) auto




section \<open>The routes on one document\<close>

lemma closeCoinAmount_sellClose [simp]:
  "closeCoinAmount (sellClose rnd now sd agg a c body) = c"
  by (simp add: sellClose_def Let_def)

lemma closeCoinAmount_wholeClose [simp]:
  "closeCoinAmount (wholeClose rnd sd agg fb p d) = totalEntryCoin agg"
  by (simp add: wholeClose_def Let_def)

lemma sellTrade_Inr:
  assumes "sellTrade rnd now trade body = Inr t'"
  shows "status trade = Active \<and>
         0 < totalEntryCoin (computeTradeAggregates rnd trade) \<and>
         0 < openCoin (computeTradeAggregates rnd trade) \<and>
         0 < requestedCoin rnd (openCoin (computeTradeAggregates rnd trade)) body \<and>
         (\<exists>a. avgEntryPrice (computeTradeAggregates rnd trade) = Some a \<and> a \<noteq> 0 \<and>
              t' = trade\<lparr>closes := closes trade @
                          [sellClose rnd now (side trade) (computeTradeAggregates rnd trade) a
                             (soldCoin rnd trade body) body],
                     status := (if rnd (openCoin (computeTradeAggregates rnd trade) - soldCoin rnd trade body)
                                   \<le> rnd (1 / 10 ^ 8) then Closed else Active)\<rparr>)"
proof -
  let ?agg = "computeTradeAggregates rnd trade"
  from assms have act: "status trade = Active"
    by (auto simp: sellTrade_def split: if_splits)
  from assms act obtain a where a: "avgEntryPrice ?agg = Some a"
    by (cases "avgEntryPrice ?agg") (auto simp: sellTrade_def Let_def)
  from assms act a have g: "a \<noteq> 0" "0 < totalEntryCoin ?agg" "0 < openCoin ?agg"
    by (auto simp: sellTrade_def Let_def split: if_splits)
  from assms act a g have r: "0 < requestedCoin rnd (openCoin ?agg) body"
    by (auto simp: sellTrade_def Let_def split: if_splits)
  have "t' = trade\<lparr>closes := closes trade @
               [sellClose rnd now (side trade) ?agg a (soldCoin rnd trade body) body],
             status := (if rnd (openCoin ?agg - soldCoin rnd trade body) \<le> rnd (1 / 10 ^ 8)
                        then Closed else Active)\<rparr>"
    using assms act a g r
    by (auto simp: sellTrade_def soldCoin_def Let_def split: if_splits)
  then show ?thesis using act a g r by simp
qed

lemma sellTrade_performed:
  assumes "status trade = Active"
    and "avgEntryPrice (computeTradeAggregates rnd trade) = Some a" "a \<noteq> 0"
    and "0 < totalEntryCoin (computeTradeAggregates rnd trade)"
    and "0 < openCoin (computeTradeAggregates rnd trade)"
    and "0 < requestedCoin rnd (openCoin (computeTradeAggregates rnd trade)) body"
  shows "sellTrade rnd now trade body =
           Inr (trade\<lparr>closes := closes trade @
                          [sellClose rnd now (side trade) (computeTradeAggregates rnd trade) a
                             (soldCoin rnd trade body) body],
                     status := (if rnd (openCoin (computeTradeAggregates rnd trade) - soldCoin rnd trade body)
                                   \<le> rnd (1 / 10 ^ 8) then Closed else Active)\<rparr>)"
  using assms by (simp add: sellTrade_def soldCoin_def Let_def)

lemma findOne_Some:
  "findOne db i u = Some t \<Longrightarrow> t \<in> set db \<and> tradeId t = i \<and> userId t = u"
  unfolding findOne_def by (auto simp: find_Some_iff)

lemma set_save: "set (save db t) \<subseteq> insert t (set db)"
  unfolding save_def by auto

lemma map_tradeId_save: "map tradeId (save db t) = map tradeId db"
  unfolding save_def by (induction db) auto

lemma persist_cases:
  "(\<exists>e. persist accepts db r = (Inl e, db)) \<or>
   (\<exists>t. r = Inr t \<and> validates t \<and> accepts t \<and> persist accepts db r = (Inr t, save db t))"
  unfolding persist_def by (cases r) auto

lemma persist_Inl: "persist accepts db r = (Inl e, db') \<Longrightarrow> db' = db"
  using persist_cases[of accepts db r] by auto


lemma persistNew_cases:
  "(\<exists>e. persistNew accepts db t = (Inl e, db)) \<or>
   (validates (create db t) \<and> accepts (create db t) \<and>
    persistNew accepts db t = (Inr (create db t), db @ [create db t]))"
  unfolding persistNew_def Let_def by auto

lemma editRoute_Inl:
  assumes "editRoute rnd accepts db uid i body = (Inl err, db')"
  shows "db' = db"
  using assms
  unfolding editRoute_def unauthenticated_def invalidBody_def notFound_def
  by (auto split: option.splits if_splits dest: persist_Inl)


lemma validEntry_newEntry:
  "0 < p \<Longrightarrow> 0 < a \<Longrightarrow> optPositive l \<Longrightarrow> validEntry (newEntry p a l d)"
  by (simp add: validEntry_def newEntry_def)

lemma sumEntryCoin_append: "sumEntryCoin (es @ [e]) = sumEntryCoin es + entryCoin exact e"
  by (simp add: sumEntryCoin_def)

lemma sumCloseCoin_append: "sumCloseCoin (cs @ [c]) = sumCloseCoin cs + closeCoinAmount c"
  by (simp add: sumCloseCoin_def)

lemma sumEntryCoin_single: "sumEntryCoin [e] = entryCoin exact e"
  by (simp add: sumEntryCoin_def)

lemma sumCloseCoin_single: "sumCloseCoin [c] = closeCoinAmount c"
  by (simp add: sumCloseCoin_def)

lemma ledgerInv_tradeId [simp]: "ledgerInv (t\<lparr>tradeId := x\<rparr>) = ledgerInv t"
  by (simp add: ledgerInv_def)

lemma ledgerInv_create [simp]: "ledgerInv (create db t) = ledgerInv t"
  by (simp add: create_def)

lemma soldCoin_exact_bounds:
  assumes "0 < openCoin (computeTradeAggregates exact trade)"
    and "0 < requestedCoin exact (openCoin (computeTradeAggregates exact trade)) body"
  shows "0 < soldCoin exact trade body \<and>
         sumCloseCoin (closes trade) + soldCoin exact trade body \<le> sumEntryCoin (entries trade)"
proof -
  let ?o = "openCoin (computeTradeAggregates exact trade)"
  have o: "?o = sumEntryCoin (entries trade) - sumCloseCoin (closes trade)"
    using assms(1) by (simp add: openCoin_exact max_def split: if_splits)
  have "soldCoin exact trade body \<le> ?o" "0 < soldCoin exact trade body"
    using assms by (auto simp: soldCoin_def Let_def)
  then show ?thesis using o by simp
qed

lemma sellTrade_ledgerInv:
  assumes "sellTrade exact now trade body = Inr t'" "ledgerInv trade"
  shows "ledgerInv t'"
proof -
  from sellTrade_Inr[OF assms(1)] obtain a where
    o: "0 < openCoin (computeTradeAggregates exact trade)"
    and r: "0 < requestedCoin exact (openCoin (computeTradeAggregates exact trade)) body"
    and t': "t' = trade\<lparr>closes := closes trade @
                [sellClose exact now (side trade) (computeTradeAggregates exact trade) a
                   (soldCoin exact trade body) body],
              status := (if exact (openCoin (computeTradeAggregates exact trade) - soldCoin exact trade body)
                            \<le> exact (1 / 10 ^ 8) then Closed else Active)\<rparr>"
    by blast
  from soldCoin_exact_bounds[OF o r] show ?thesis
    using assms(2) unfolding t' ledgerInv_def by (simp add: sumCloseCoin_append)
qed

lemma addSizeTrade_ledgerInv:
  assumes "addSizeTrade now trade body = Inr t'" "addSizeSchema body" "ledgerInv trade"
  shows "ledgerInv t'"
proof -
  let ?e = "newEntry (a_entryPrice body) (a_amountInvestedUsd body) (a_leverage body)
              (case a_entryDate body of Some d \<Rightarrow> d | None \<Rightarrow> now)"
  have v: "validEntry ?e"
    using assms(2) by (intro validEntry_newEntry) (auto simp: addSizeSchema_def)
  have t': "t' = trade\<lparr>entries := entries trade @ [?e]\<rparr>"
    using assms(1) by (auto simp: addSizeTrade_def split: if_splits)
  show ?thesis
    using assms(3) v validEntry_entryCoin_pos[OF v] unfolding t' ledgerInv_def
    by (auto simp: sumEntryCoin_append)
qed

lemma editBasics_fields [simp]:
  "entries (editBasics t b) = entries t" "closes (editBasics t b) = closes t"
  "status (editBasics t b) = status t" "tradeId (editBasics t b) = tradeId t"
  "userId (editBasics t b) = userId t"
  by (auto simp: editBasics_def Let_def split: option.splits)

lemma validEntry_editEntry:
  assumes "validEntry e" "editTradeSchema b"
  shows "validEntry (editEntry e b)"
  using assms
  by (auto simp: validEntry_def editEntry_def editTradeSchema_def optPositive_def
      nullablePositive_def Let_def split: option.splits)

lemma editTrade_Inr:
  assumes "editTrade rnd trade body = Inr t'"
  shows "(t' = editBasics trade body) \<or>
         (status trade = Closed \<and>
          (\<exists>e0 c0 t5 p d. entries trade = [e0] \<and> closes trade = [c0] \<and>
              status t5 = Closed \<and> tradeId t5 = tradeId trade \<and> userId t5 = userId trade \<and>
              0 < totalEntryCoin (computeTradeAggregates rnd (t5\<lparr>entries := [editEntry e0 body]\<rparr>)) \<and>
              t' = t5\<lparr>entries := [editEntry e0 body],
                      closes := [wholeClose rnd (side t5)
                         (computeTradeAggregates rnd (t5\<lparr>entries := [editEntry e0 body]\<rparr>))
                         (entryPrice (editEntry e0 body)) p d]\<rparr>))"
proof (cases "status (editBasics trade body) = Closed \<and> closedFieldsProvided body")
  case False
  then show ?thesis using assms by (auto simp: editTrade_def Let_def split: if_splits)
next
  case True
  then have cl: "status trade = Closed" by simp
  from assms True obtain e0 c0 where ec: "entries trade = [e0]" "closes trade = [c0]"
    by (auto simp: editTrade_def Let_def split: if_splits list.splits)
  let ?t4 = "(case e_coin body of
               Some c \<Rightarrow> (editBasics trade body)\<lparr>coin := setCoin (toUpperCase c)\<rparr>
             | None \<Rightarrow> editBasics trade body)"
  let ?t5 = "(case e_side body of Some sd \<Rightarrow> ?t4\<lparr>side := sd\<rparr> | None \<Rightarrow> ?t4)"
  have t5: "status ?t5 = Closed" "tradeId ?t5 = tradeId trade" "userId ?t5 = userId trade"
    using cl by (auto split: option.splits)
  let ?p = "(case e_exitPrice body of Some v \<Rightarrow> v | None \<Rightarrow> closePrice c0)"
  let ?d = "(case e_exitDate body of Some d \<Rightarrow> d | None \<Rightarrow> closeDate c0)"
  let ?agg = "computeTradeAggregates rnd (?t5\<lparr>entries := [editEntry e0 body]\<rparr>)"
  from assms True ec have pos: "0 < totalEntryCoin ?agg"
    by (auto simp: editTrade_def Let_def split: if_splits)
  from assms True ec have "t' = ?t5\<lparr>entries := [editEntry e0 body],
                      closes := [wholeClose rnd (side ?t5) ?agg (entryPrice (editEntry e0 body)) ?p ?d]\<rparr>"
    by (auto simp: editTrade_def Let_def split: if_splits)
  then show ?thesis using cl ec t5 pos by blast
qed

lemma editTrade_ledgerInv:
  assumes "editTrade exact trade body = Inr t'" "editTradeSchema body" "ledgerInv trade"
  shows "ledgerInv t'"
  using editTrade_Inr[OF assms(1)]
proof (elim disjE conjE exE)
  assume "t' = editBasics trade body"
  then show ?thesis using assms(3) by (simp add: ledgerInv_def)
next
  fix e0 c0 t5 p d
  assume ec: "entries trade = [e0]"
    and pos: "0 < totalEntryCoin (computeTradeAggregates exact (t5\<lparr>entries := [editEntry e0 body]\<rparr>))"
    and t': "t' = t5\<lparr>entries := [editEntry e0 body],
                      closes := [wholeClose exact (side t5)
                         (computeTradeAggregates exact (t5\<lparr>entries := [editEntry e0 body]\<rparr>))
                         (entryPrice (editEntry e0 body)) p d]\<rparr>"
  have "validEntry e0" using assms(3) ec by (simp add: ledgerInv_def)
  then have v: "validEntry (editEntry e0 body)" using assms(2) by (rule validEntry_editEntry)
  show ?thesis
    unfolding t' ledgerInv_def using v pos
    by (simp add: totalEntryCoin_exact sumCloseCoin_single)
qed


section \<open>The ledger invariant\<close>

lemma newTrade_fields [simp]:
  "entries (newTrade u sd st cn cm sl tp es cs) = es"
  "closes (newTrade u sd st cn cm sl tp es cs) = cs"
  "status (newTrade u sd st cn cm sl tp es cs) = st"
  "userId (newTrade u sd st cn cm sl tp es cs) = u"
  "side (newTrade u sd st cn cm sl tp es cs) = sd"
  "coin (newTrade u sd st cn cm sl tp es cs) = cn"
  by (simp_all add: newTrade_def)

lemma persistNew_ledgerInv:
  assumes "\<forall>t\<in>set db. ledgerInv t" "ledgerInv d"
  shows "\<forall>t\<in>set (snd (persistNew accepts db d)). ledgerInv t"
  using persistNew_cases[of accepts db d] assms by auto

lemma persist_ledgerInv:
  assumes "\<forall>t\<in>set db. ledgerInv t" "\<And>t'. r = Inr t' \<Longrightarrow> ledgerInv t'"
  shows "\<forall>t\<in>set (snd (persist accepts db r)). ledgerInv t"
proof -
  from persist_cases[of accepts db r] show ?thesis
  proof (elim disjE exE conjE)
    fix e assume "persist accepts db r = (Inl e, db)"
    then show ?thesis using assms(1) by simp
  next
    fix t assume "r = Inr t" "persist accepts db r = (Inr t, save db t)"
    then show ?thesis using assms set_save[of db t] by auto
  qed
qed

lemma createActiveRoute_ledgerInv:
  assumes "\<forall>t\<in>set db. ledgerInv t"
  shows "\<forall>t\<in>set (snd (createActiveRoute accepts now db uid body)). ledgerInv t"
proof (cases "uid \<noteq> None \<and> createActiveTradeSchema body")
  case False
  then show ?thesis using assms
    by (auto simp: createActiveRoute_def unauthenticated_def invalidBody_def split: option.splits)
next
  case True
  then obtain u where u: "uid = Some u" by auto
  let ?e = "newEntry (c_entryPrice body) (c_amountInvestedUsd body) (c_leverage body)
              (case c_entryDate body of Some d \<Rightarrow> d | None \<Rightarrow> now)"
  have v: "validEntry ?e"
    using True by (intro validEntry_newEntry) (auto simp: createActiveTradeSchema_def)
  have inv: "ledgerInv (newTrade u (c_side body) Active (setCoin (c_coin body)) (c_comment body)
                    (c_stopLossPrice body) (c_takeProfitPrice body) [?e] [])"
    using v sumEntryCoin_nonneg[of "[?e]"] by (simp add: ledgerInv_def sumCloseCoin_def)
  show ?thesis
    using True u persistNew_ledgerInv[OF assms inv, of accepts]
    by (simp add: createActiveRoute_def Let_def)
qed

lemma createClosedRoute_ledgerInv:
  assumes "\<forall>t\<in>set db. ledgerInv t"
  shows "\<forall>t\<in>set (snd (createClosedRoute exact accepts now db uid body)). ledgerInv t"
proof (cases "uid \<noteq> None \<and> createClosedTradeSchema body")
  case False
  then show ?thesis using assms
    by (auto simp: createClosedRoute_def unauthenticated_def invalidBody_def split: option.splits)
next
  case True
  then obtain u where u: "uid = Some u" by auto
  let ?e = "newEntry (c_entryPrice body) (c_amountInvestedUsd body) (c_leverage body)
              (case c_entryDate body of Some d \<Rightarrow> d
               | None \<Rightarrow> (case c_exitDate body of Some d \<Rightarrow> d | None \<Rightarrow> now))"
  have v: "validEntry ?e"
    using True by (intro validEntry_newEntry)
      (auto simp: createClosedTradeSchema_def createActiveTradeSchema_def)
  let ?agg = "computeTradeAggregates exact
                (newTrade u (c_side body) Closed (c_coin body) (c_comment body)
                   (c_stopLossPrice body) (c_takeProfitPrice body) [?e] [])"
  let ?c = "wholeClose exact (c_side body) ?agg (c_entryPrice body) (c_exitPrice body)
              (case c_exitDate body of Some d \<Rightarrow> d | None \<Rightarrow> now)"
  have cc: "closeCoinAmount ?c = sumEntryCoin [?e]"
    by (simp add: totalEntryCoin_exact)
  have inv: "ledgerInv (newTrade u (c_side body) Closed (setCoin (c_coin body)) (c_comment body)
                    (c_stopLossPrice body) (c_takeProfitPrice body) [?e] [?c])"
    using v cc validEntry_entryCoin_pos[OF v]
    by (simp add: ledgerInv_def sumCloseCoin_single sumEntryCoin_single
        del: closeCoinAmount_wholeClose)
  show ?thesis
    using True u persistNew_ledgerInv[OF assms inv, of accepts]
    by (simp add: createClosedRoute_def Let_def)
qed

lemma editRoute_ledgerInv:
  assumes "\<forall>t\<in>set db. ledgerInv t"
  shows "\<forall>t\<in>set (snd (editRoute exact accepts db uid i body)). ledgerInv t"
proof (cases "\<exists>u trade. uid = Some u \<and> editTradeSchema body \<and> findOne db i u = Some trade")
  case False
  then show ?thesis using assms
    by (auto simp: editRoute_def unauthenticated_def invalidBody_def notFound_def
        split: option.splits)
next
  case True
  then obtain u trade where h: "uid = Some u" "editTradeSchema body" "findOne db i u = Some trade"
    by blast
  have "ledgerInv trade" using findOne_Some[OF h(3)] assms by simp
  then have "\<And>t'. editTrade exact trade body = Inr t' \<Longrightarrow> ledgerInv t'"
    using editTrade_ledgerInv h(2) by blast
  from persist_ledgerInv[OF assms this] show ?thesis
    using h by (simp add: editRoute_def)
qed

lemma addSizeRoute_ledgerInv:
  assumes "\<forall>t\<in>set db. ledgerInv t"
  shows "\<forall>t\<in>set (snd (addSizeRoute accepts now db uid i body)). ledgerInv t"
proof (cases "\<exists>u trade. uid = Some u \<and> addSizeSchema body \<and> findOne db i u = Some trade")
  case False
  then show ?thesis using assms
    by (auto simp: addSizeRoute_def unauthenticated_def invalidBody_def notFound_def
        split: option.splits)
next
  case True
  then obtain u trade where h: "uid = Some u" "addSizeSchema body" "findOne db i u = Some trade"
    by blast
  have "ledgerInv trade" using findOne_Some[OF h(3)] assms by simp
  then have "\<And>t'. addSizeTrade now trade body = Inr t' \<Longrightarrow> ledgerInv t'"
    using addSizeTrade_ledgerInv h(2) by blast
  from persist_ledgerInv[OF assms this] show ?thesis
    using h by (simp add: addSizeRoute_def)
qed

lemma sellRoute_ledgerInv:
  assumes "\<forall>t\<in>set db. ledgerInv t"
  shows "\<forall>t\<in>set (snd (sellRoute exact accepts now db uid i body)). ledgerInv t"
proof (cases "\<exists>u trade. uid = Some u \<and> sellSchema body \<and> findOne db i u = Some trade")
  case False
  then show ?thesis using assms
    by (auto simp: sellRoute_def unauthenticated_def invalidBody_def notFound_def
        split: option.splits)
next
  case True
  then obtain u trade where h: "uid = Some u" "sellSchema body" "findOne db i u = Some trade"
    by blast
  have "ledgerInv trade" using findOne_Some[OF h(3)] assms by simp
  then have "\<And>t'. sellTrade exact now trade body = Inr t' \<Longrightarrow> ledgerInv t'"
    using sellTrade_ledgerInv by blast
  from persist_ledgerInv[OF assms this] show ?thesis
    using h by (simp add: sellRoute_def)
qed

lemma set_deleteOne: "set (deleteOne db i u) \<subseteq> set db"
  by (induction db) auto

lemma deleteRoute_ledgerInv:
  assumes "\<forall>t\<in>set db. ledgerInv t"
  shows "\<forall>t\<in>set (snd (deleteRoute db uid i)). ledgerInv t"
  using assms set_deleteOne[of db i]
  by (auto simp: deleteRoute_def split: option.splits)

lemma mapPosition_validEntry:
  assumes "mapPosition exact now p = Some payload"
  shows "validEntry (entry payload)"
  using assms
  unfolding mapPosition_def Let_def validEntry_def optPositive_def
  by (auto split: if_splits option.splits)


lemma mapPosition_Some:
  assumes "mapPosition rnd now p = Some payload"
  shows "positionId payload = p_id p \<and> payloadCoin payload \<noteq> [] \<and>
         (\<exists>b. payloadCoin payload = toUpperCase (trim b)) \<and>
         mapPosition rnd now' p =
           Some (payload\<lparr>entry := (entry payload)\<lparr>entryDate :=
                    (case p_openedAt p of Some d \<Rightarrow> d | None \<Rightarrow> now')\<rparr>\<rparr>)"
  using assms
  unfolding mapPosition_def Let_def
  by (auto split: if_splits)


lemma isSpace_upperChar [simp]: "isSpace (upperChar c) = isSpace c"
proof -
  have "(of_char (char_of (of_char c - 32 :: nat)) :: nat) = of_char c - 32"
    if "97 \<le> (of_char c :: nat)" "(of_char c :: nat) \<le> 122"
    using that by simp
  then show ?thesis
    by (auto simp: isSpace_def upperChar_def Let_def)
qed

lemma upperChar_idem [simp]: "upperChar (upperChar c) = upperChar c"
proof -
  have "(of_char (char_of (of_char c - 32 :: nat)) :: nat) = of_char c - 32"
    if "97 \<le> (of_char c :: nat)" "(of_char c :: nat) \<le> 122"
    using that by simp
  then show ?thesis
    by (auto simp: upperChar_def Let_def)
qed

lemma dropWhile_isSpace_upper:
  "dropWhile isSpace (map upperChar s) = map upperChar (dropWhile isSpace s)"
  by (induction s) auto

lemma trim_toUpperCase: "trim (toUpperCase s) = toUpperCase (trim s)"
  by (simp add: trim_def toUpperCase_def dropWhile_isSpace_upper rev_map)

lemma toUpperCase_idem: "toUpperCase (toUpperCase s) = toUpperCase s"
  by (simp add: toUpperCase_def)

lemma dropWhile_prefix_rev:
  assumes "z = [] \<or> \<not> P (hd z)"
  shows "dropWhile P (rev (dropWhile P (rev z))) = rev (dropWhile P (rev z))"
proof (cases "dropWhile P (rev z) = []")
  case True
  show ?thesis unfolding True by simp
next
  case False
  define w where "w = rev (dropWhile P (rev z))"
  have wne: "w \<noteq> []" using False by (simp add: w_def)
  have "takeWhile P (rev z) @ dropWhile P (rev z) = rev z"
    by (rule takeWhile_dropWhile_id)
  then have "rev (takeWhile P (rev z) @ dropWhile P (rev z)) = rev (rev z)"
    by (rule arg_cong)
  then have split: "w @ rev (takeWhile P (rev z)) = z"
    by (simp only: rev_append rev_rev_ident w_def)
  have "hd z = hd w" using wne split by (metis hd_append2)
  moreover have "z \<noteq> []" using wne split by (metis append_is_Nil_conv)
  ultimately have "\<not> P (hd w)" using assms by simp
  then have "dropWhile P w = w" using wne by (cases w) auto
  then show ?thesis by (simp only: w_def)
qed

lemma trim_idem: "trim (trim s) = trim s"
proof -
  let ?z = "dropWhile isSpace s"
  have z: "?z = [] \<or> \<not> isSpace (hd ?z)"
    by (metis hd_dropWhile)
  have "dropWhile isSpace (rev (dropWhile isSpace (rev ?z))) = rev (dropWhile isSpace (rev ?z))"
    using dropWhile_prefix_rev[of ?z isSpace] z by blast
  then show ?thesis by (simp add: trim_def dropWhile_idem)
qed

lemma setCoin_mapped: "setCoin (toUpperCase (trim b)) = toUpperCase (trim b)"
  by (simp add: setCoin_def trim_toUpperCase trim_idem toUpperCase_idem)


lemma upsertTrade_found:
  assumes "find (hasKey u (positionId payload)) db = Some existing"
  shows "upsertTrade accepts u db payload syncedAt =
           (if validates (upsertDoc existing payload syncedAt) \<and> accepts (upsertDoc existing payload syncedAt)
            then (Inr Updated, save db (upsertDoc existing payload syncedAt))
            else (Inl ''save rejected'', db))"
  using assms by (simp add: upsertTrade_def upsertDoc_def Let_def)

lemma upsertTrade_absent:
  assumes "find (hasKey u (positionId payload)) db = None"
  shows "upsertTrade accepts u db payload syncedAt =
           (if validates (create db (freshDoc u payload syncedAt)) \<and> accepts (create db (freshDoc u payload syncedAt))
            then (Inr Created, db @ [create db (freshDoc u payload syncedAt)])
            else (Inl ''create rejected'', db))"
  using assms by (simp add: upsertTrade_def freshDoc_def Let_def)

lemma upsertDoc_ledgerInv: "validEntry (entry payload) \<Longrightarrow> ledgerInv (upsertDoc e payload syncedAt)"
  using sumEntryCoin_nonneg[of "[entry payload]"]
  by (simp add: ledgerInv_def upsertDoc_def sumCloseCoin_def)

lemma freshDoc_ledgerInv: "validEntry (entry payload) \<Longrightarrow> ledgerInv (freshDoc u payload syncedAt)"
  using sumEntryCoin_nonneg[of "[entry payload]"]
  by (simp add: ledgerInv_def freshDoc_def sumCloseCoin_def)

lemma upsertTrade_ledgerInv:
  assumes "\<forall>t\<in>set db. ledgerInv t" "validEntry (entry payload)"
  shows "\<forall>t\<in>set (snd (upsertTrade accepts u db payload syncedAt)). ledgerInv t"
proof (cases "find (hasKey u (positionId payload)) db")
  case None
  show ?thesis
    unfolding upsertTrade_absent[OF None]
    using assms(1) freshDoc_ledgerInv[OF assms(2)] by auto
next
  case (Some existing)
  show ?thesis
    unfolding upsertTrade_found[OF Some]
    using assms(1) upsertDoc_ledgerInv[OF assms(2)] set_save[of db "upsertDoc existing payload syncedAt"]
    by auto
qed

lemma syncLoop_ledgerInv:
  assumes "\<forall>t\<in>set db. ledgerInv t"
  shows "\<forall>t\<in>set (snd (syncLoop exact accepts u now ps counters db)). ledgerInv t"
  using assms
proof (induction ps arbitrary: counters db)
  case Nil
  then show ?case by simp
next
  case (Cons p ps)
  obtain a b c where cn: "counters = (a, b, c)" by (cases counters) auto
  show ?case
  proof (cases "mapPosition exact now p")
    case None
    then show ?thesis using Cons cn by simp
  next
    case (Some payload)
    have inv: "\<forall>t\<in>set (snd (upsertTrade accepts u db payload now)). ledgerInv t"
      using upsertTrade_ledgerInv[OF Cons.prems mapPosition_validEntry[OF Some]] .
    obtain r db' where up: "upsertTrade accepts u db payload now = (r, db')"
      by (cases "upsertTrade accepts u db payload now") auto
    then have inv': "\<forall>t\<in>set db'. ledgerInv t" using inv by simp
    show ?thesis
      using Some up cn inv' Cons.IH[OF inv']
      by (cases r) (auto split: UpsertResult.splits)
  qed
qed

lemma runSync_ledgerInv:
  assumes "\<forall>t\<in>set (trades w). ledgerInv t"
  shows "\<forall>t\<in>set (trades (snd (runSync exact accepts u now feed w))). ledgerInv t"
proof (cases "syncing w")
  case True
  then show ?thesis using assms by (simp add: runSync_def)
next
  case False
  show ?thesis
  proof (cases feed)
    case (Inl err)
    then show ?thesis using False assms by (simp add: runSync_def Let_def)
  next
    case (Inr positions)
    have "\<forall>t\<in>set (snd (syncLoop exact accepts u now positions (0, 0, 0) (trades w))). ledgerInv t"
      using syncLoop_ledgerInv[OF assms] .
    then show ?thesis
      using False Inr
      by (auto simp: runSync_def Let_def syncPositions_def split: prod.splits sum.splits)
  qed
qed

lemma serve_ledgerInv:
  assumes "\<forall>t\<in>set db. ledgerInv t"
  shows "\<forall>t\<in>set (serve exact accepts now db r). ledgerInv t"
proof (cases r)
  case (CreateActive uid body)
  then show ?thesis using createActiveRoute_ledgerInv[OF assms] by simp
next
  case (CreateClosed uid body)
  then show ?thesis using createClosedRoute_ledgerInv[OF assms] by simp
next
  case (Edit uid i body)
  then show ?thesis using editRoute_ledgerInv[OF assms] by simp
next
  case (AddSize uid i body)
  then show ?thesis using addSizeRoute_ledgerInv[OF assms] by simp
next
  case (Sell uid i body)
  then show ?thesis using sellRoute_ledgerInv[OF assms] by simp
next
  case (Delete uid i)
  then show ?thesis using deleteRoute_ledgerInv[OF assms] by simp
next
  case (Reconcile u feed)
  then show ?thesis
    using runSync_ledgerInv[of "\<lparr>syncing = False, trades = db, requests = 0\<rparr>" accepts u now feed] assms
    by simp
qed

lemma history_snoc:
  "history rnd (reqs @ [(accepts, now, r)]) = serve rnd accepts now (history rnd reqs) r"
  by (simp add: history_def)

lemma history_ledgerInv: "\<forall>t\<in>set (history exact reqs). ledgerInv t"
proof (induction reqs rule: rev_induct)
  case Nil
  show ?case by (simp add: history_def)
next
  case (snoc x xs)
  obtain accepts now r where x: "x = (accepts, now, r)" by (cases x) auto
  show ?case unfolding x history_snoc using serve_ledgerInv[OF snoc] .
qed

subsection \<open>The closes of a reachable position\<close>

text \<open>
  Claim C1, as amended. In exact arithmetic, every position of every store that the
  routes (create active, create closed, edit, add size, sell, delete) and the
  reconciliation runs produce from the empty collection has close coin amounts that sum
  to no more than its total entry coin amount, hence to no more than that amount plus
  \<open>10^-8\<close>.
\<close>

theorem reachable_closes_within_entries:
  "\<forall>t\<in>set (history exact reqs).
     sumCloseCoin (closes t) \<le> totalEntryCoin (computeTradeAggregates exact t) \<and>
     sumCloseCoin (closes t) \<le> totalEntryCoin (computeTradeAggregates exact t) + 1 / 10 ^ 8"
proof
  fix t assume "t \<in> set (history exact reqs)"
  then have "ledgerInv t" using history_ledgerInv by blast
  then have "sumCloseCoin (closes t) \<le> totalEntryCoin (computeTradeAggregates exact t)"
    by (simp add: ledgerInv_def totalEntryCoin_exact)
  then show "sumCloseCoin (closes t) \<le> totalEntryCoin (computeTradeAggregates exact t) \<and>
     sumCloseCoin (closes t) \<le> totalEntryCoin (computeTradeAggregates exact t) + 1 / 10 ^ 8"
    by simp
qed


lemma persist_validates:
  assumes "\<forall>t\<in>set db. validates t"
  shows "\<forall>t\<in>set (snd (persist accepts db r)). validates t"
proof -
  from persist_cases[of accepts db r] show ?thesis
  proof (elim disjE exE conjE)
    fix e assume "persist accepts db r = (Inl e, db)"
    then show ?thesis using assms by simp
  next
    fix t assume "validates t" "persist accepts db r = (Inr t, save db t)"
    then show ?thesis using assms set_save[of db t] by auto
  qed
qed

lemma persistNew_validates:
  assumes "\<forall>t\<in>set db. validates t"
  shows "\<forall>t\<in>set (snd (persistNew accepts db d)). validates t"
  using persistNew_cases[of accepts db d] assms by auto

lemma upsertTrade_validates:
  assumes "\<forall>t\<in>set db. validates t"
  shows "\<forall>t\<in>set (snd (upsertTrade accepts u db payload syncedAt)). validates t"
proof (cases "find (hasKey u (positionId payload)) db")
  case None
  show ?thesis unfolding upsertTrade_absent[OF None] using assms by auto
next
  case (Some existing)
  show ?thesis unfolding upsertTrade_found[OF Some]
    using assms set_save[of db "upsertDoc existing payload syncedAt"] by auto
qed

lemma syncLoop_validates:
  assumes "\<forall>t\<in>set db. validates t"
  shows "\<forall>t\<in>set (snd (syncLoop rnd accepts u now ps counters db)). validates t"
  using assms
proof (induction ps arbitrary: counters db)
  case Nil
  then show ?case by simp
next
  case (Cons p ps)
  obtain a b c where cn: "counters = (a, b, c)" by (cases counters) auto
  show ?case
  proof (cases "mapPosition rnd now p")
    case None
    then show ?thesis using Cons cn by simp
  next
    case (Some payload)
    obtain r db' where up: "upsertTrade accepts u db payload now = (r, db')"
      by (cases "upsertTrade accepts u db payload now") auto
    then have inv': "\<forall>t\<in>set db'. validates t"
      using upsertTrade_validates[OF Cons.prems, of accepts u payload now] by simp
    show ?thesis
      using Some up cn inv' Cons.IH[OF inv']
      by (cases r) (auto split: UpsertResult.splits)
  qed
qed

lemma runSync_validates:
  assumes "\<forall>t\<in>set (trades w). validates t"
  shows "\<forall>t\<in>set (trades (snd (runSync rnd accepts u now feed w))). validates t"
proof (cases "syncing w")
  case True
  then show ?thesis using assms by (simp add: runSync_def)
next
  case False
  show ?thesis
  proof (cases feed)
    case (Inl err)
    then show ?thesis using False assms by (simp add: runSync_def Let_def)
  next
    case (Inr positions)
    have "\<forall>t\<in>set (snd (syncLoop rnd accepts u now positions (0, 0, 0) (trades w))). validates t"
      using syncLoop_validates[OF assms] .
    then show ?thesis
      using False Inr
      by (auto simp: runSync_def Let_def syncPositions_def split: prod.splits sum.splits)
  qed
qed

lemma serve_validates:
  assumes "\<forall>t\<in>set db. validates t"
  shows "\<forall>t\<in>set (serve rnd accepts now db r). validates t"
proof (cases r)
  case (CreateActive uid body)
  then show ?thesis using assms persistNew_validates[OF assms]
    by (auto simp: createActiveRoute_def unauthenticated_def invalidBody_def Let_def
        split: option.splits)
next
  case (CreateClosed uid body)
  then show ?thesis using assms persistNew_validates[OF assms]
    by (auto simp: createClosedRoute_def unauthenticated_def invalidBody_def Let_def
        split: option.splits)
next
  case (Edit uid i body)
  then show ?thesis using assms persist_validates[OF assms]
    by (auto simp: editRoute_def unauthenticated_def invalidBody_def notFound_def
        split: option.splits)
next
  case (AddSize uid i body)
  then show ?thesis using assms persist_validates[OF assms]
    by (auto simp: addSizeRoute_def unauthenticated_def invalidBody_def notFound_def
        split: option.splits)
next
  case (Sell uid i body)
  then show ?thesis using assms persist_validates[OF assms]
    by (auto simp: sellRoute_def unauthenticated_def invalidBody_def notFound_def
        split: option.splits)
next
  case (Delete uid i)
  then show ?thesis using assms set_deleteOne[of db i]
    by (auto simp: deleteRoute_def split: option.splits)
next
  case (Reconcile u feed)
  then show ?thesis
    using runSync_validates[of "\<lparr>syncing = False, trades = db, requests = 0\<rparr>" rnd accepts u now feed]
      assms by simp
qed

lemma history_validates: "\<forall>t\<in>set (history rnd reqs). validates t"
proof (induction reqs rule: rev_induct)
  case Nil
  show ?case by (simp add: history_def)
next
  case (snoc x xs)
  obtain accepts now r where x: "x = (accepts, now, r)" by (cases x) auto
  show ?case unfolding x history_snoc using serve_validates[OF snoc] .
qed

lemma sumEntryCoin_pos_notional:
  assumes "\<forall>e\<in>set es. validEntry e" "0 < sumEntryCoin es"
  shows "0 < sum_list (map (\<lambda>e. amountInvestedUsd e * (case leverage e of None \<Rightarrow> 1 | Some l \<Rightarrow> l)) es)"
proof (cases es)
  case Nil
  then show ?thesis using assms(2) by (simp add: sumEntryCoin_def)
next
  case (Cons e es')
  have pos: "\<forall>e\<in>set es. 0 < amountInvestedUsd e * (case leverage e of None \<Rightarrow> 1 | Some l \<Rightarrow> l)"
    using assms(1) by (auto simp: validEntry_def optPositive_def split: option.splits)
  have "0 \<le> sum_list (map (\<lambda>e. amountInvestedUsd e * (case leverage e of None \<Rightarrow> 1 | Some l \<Rightarrow> l)) es')"
    using pos Cons by (intro sum_list_nonneg) (auto intro: less_imp_le)
  moreover have "0 < amountInvestedUsd e * (case leverage e of None \<Rightarrow> 1 | Some l \<Rightarrow> l)"
    using pos Cons by simp
  ultimately show ?thesis using Cons by simp
qed

lemma avgEntryPrice_exact_pos:
  assumes "\<forall>e\<in>set (entries t). validEntry e" "0 < sumEntryCoin (entries t)"
  shows "\<exists>a. avgEntryPrice (computeTradeAggregates exact t) = Some a \<and> 0 < a"
  using assms sumEntryCoin_pos_notional[OF assms]
  by (simp add: avgEntryPrice_fold foldl_entryStep_exact exact_def)

subsection \<open>Selling more than the open amount\<close>

text \<open>
  Claim C2, as amended. In exact arithmetic, for an active position of a reachable store
  with positive open coin, a sell request of its owner that passes the schema and implies
  more coin than is open, served while the database accepts the write, is answered with
  the saved document: one close is appended, its coin amount is exactly the open coin,
  the closes sum to no more than the total entry coin (plus \<open>10^-8\<close>), and the position
  is closed.
\<close>

theorem sell_beyond_open_clamps_exact:
  assumes "findOne (history exact reqs) i u = Some trade"
    and "status trade = Active"
    and "0 < openCoin (computeTradeAggregates exact trade)"
    and "sellSchema body"
    and "openCoin (computeTradeAggregates exact trade)
           < requestedCoin exact (openCoin (computeTradeAggregates exact trade)) body"
    and "\<forall>d. accepts d"
  shows "\<exists>t' c. sellRoute exact accepts now (history exact reqs) (Some u) i body =
                   (Inr t', save (history exact reqs) t') \<and>
               closes t' = closes trade @ [c] \<and>
               closeCoinAmount c = openCoin (computeTradeAggregates exact trade) \<and>
               sumCloseCoin (closes t') \<le> totalEntryCoin (computeTradeAggregates exact t') \<and>
               sumCloseCoin (closes t') \<le> totalEntryCoin (computeTradeAggregates exact t') + 1 / 10 ^ 8 \<and>
               status t' = Closed"
proof -
  let ?agg = "computeTradeAggregates exact trade"
  have mem: "trade \<in> set (history exact reqs)" using findOne_Some[OF assms(1)] by simp
  have inv: "ledgerInv trade" using history_ledgerInv mem by blast
  have val: "validates trade" using history_validates mem by blast
  have o: "openCoin ?agg = sumEntryCoin (entries trade) - sumCloseCoin (closes trade)"
    using assms(3) by (simp add: openCoin_exact max_def split: if_splits)
  have "0 \<le> sumCloseCoin (closes trade)"
    using inv sumCloseCoin_nonneg[of "closes trade"] by (auto simp: ledgerInv_def intro: less_imp_le)
  then have T: "0 < sumEntryCoin (entries trade)" using o assms(3) by simp
  then obtain a where a: "avgEntryPrice ?agg = Some a" "0 < a"
    using avgEntryPrice_exact_pos[of trade] inv by (auto simp: ledgerInv_def)
  have r: "0 < requestedCoin exact (openCoin ?agg) body" using assms(3,5) by simp
  have sold: "soldCoin exact trade body = openCoin ?agg"
    using assms(5) by (simp add: soldCoin_def Let_def)
  let ?c = "sellClose exact now (side trade) ?agg a (openCoin ?agg) body"
  let ?t' = "trade\<lparr>closes := closes trade @ [?c], status := Closed\<rparr>"
  have st: "sellTrade exact now trade body = Inr ?t'"
    using sellTrade_performed[of trade exact a body now, OF assms(2) a(1)] a(2) T assms(3) r sold
    by (simp add: totalEntryCoin_exact exact_def)
  have v': "validates ?t'" using val by (simp add: validates_def)
  have route: "sellRoute exact accepts now (history exact reqs) (Some u) i body =
                 (Inr ?t', save (history exact reqs) ?t')"
    using assms(1,4,6) st v' by (simp add: sellRoute_def persist_def)
  have sum: "sumCloseCoin (closes ?t') = sumEntryCoin (entries trade)"
    using o by (simp add: sumCloseCoin_append)
  have "closes ?t' = closes trade @ [?c] \<and> closeCoinAmount ?c = openCoin ?agg \<and>
        sumCloseCoin (closes ?t') \<le> totalEntryCoin (computeTradeAggregates exact ?t') \<and>
        sumCloseCoin (closes ?t') \<le> totalEntryCoin (computeTradeAggregates exact ?t') + 1 / 10 ^ 8 \<and>
        status ?t' = Closed"
    using sum by (simp add: totalEntryCoin_exact)
  then show ?thesis using route by blast
qed

subsection \<open>The status after a sell\<close>


subsection \<open>A rejected edit\<close>

text \<open>
  Claim C10. If the edit route rejects a request, for whatever reason and whatever
  fields the request supplies (entry or exit fields, comment, stop loss, take profit),
  the store after the request is the store before it.
\<close>

theorem rejected_edit_stores_nothing:
  assumes "editRoute rnd accepts db uid i body = (Inl err, db')"
  shows "db' = db"
  using assms by (rule editRoute_Inl)


lemma newObjectId_fresh: "t \<in> set db \<Longrightarrow> tradeId t < newObjectId db"
  unfolding newObjectId_def by (induction db) auto

lemma tradeId_create [simp]: "tradeId (create db t) = newObjectId db"
  by (simp add: create_def)

lemma distinct_ids_append_create:
  assumes "distinct (map tradeId db)"
  shows "distinct (map tradeId (db @ [create db d]))"
  using assms by (auto dest: newObjectId_fresh)

lemma distinct_ids_deleteOne:
  "distinct (map tradeId db) \<Longrightarrow> distinct (map tradeId (deleteOne db i u))"
proof (induction db)
  case Nil
  then show ?case by simp
next
  case (Cons t db)
  then show ?case using set_deleteOne[of db i u] by auto
qed

lemma same_id_same_doc:
  assumes "distinct (map tradeId db)" "d \<in> set db" "t \<in> set db" "tradeId d = tradeId t"
  shows "d = t"
  using assms by (meson distinct_map inj_on_def)

lemma persist_ids:
  "distinct (map tradeId db) \<Longrightarrow> distinct (map tradeId (snd (persist accepts db r)))"
  using persist_cases[of accepts db r] by (auto simp: map_tradeId_save)

lemma persistNew_ids:
  "distinct (map tradeId db) \<Longrightarrow> distinct (map tradeId (snd (persistNew accepts db d)))"
  using persistNew_cases[of accepts db d] distinct_ids_append_create[of db d] by auto

lemma upsertTrade_ids:
  assumes "distinct (map tradeId db)"
  shows "distinct (map tradeId (snd (upsertTrade accepts u db payload syncedAt)))"
proof (cases "find (hasKey u (positionId payload)) db")
  case None
  show ?thesis unfolding upsertTrade_absent[OF None]
    using assms distinct_ids_append_create[OF assms] by auto
next
  case (Some existing)
  show ?thesis unfolding upsertTrade_found[OF Some]
    using assms by (auto simp: map_tradeId_save)
qed

lemma syncLoop_ids:
  assumes "distinct (map tradeId db)"
  shows "distinct (map tradeId (snd (syncLoop rnd accepts u now ps counters db)))"
  using assms
proof (induction ps arbitrary: counters db)
  case Nil
  then show ?case by simp
next
  case (Cons p ps)
  obtain a b c where cn: "counters = (a, b, c)" by (cases counters) auto
  show ?case
  proof (cases "mapPosition rnd now p")
    case None
    then show ?thesis using Cons cn by simp
  next
    case (Some payload)
    obtain r db' where up: "upsertTrade accepts u db payload now = (r, db')"
      by (cases "upsertTrade accepts u db payload now") auto
    then have inv': "distinct (map tradeId db')"
      using upsertTrade_ids[OF Cons.prems, of accepts u payload now] by simp
    show ?thesis
      using Some up cn inv' Cons.IH[OF inv']
      by (cases r) (auto split: UpsertResult.splits)
  qed
qed

lemma runSync_ids:
  assumes "distinct (map tradeId (trades w))"
  shows "distinct (map tradeId (trades (snd (runSync rnd accepts u now feed w))))"
proof (cases "syncing w")
  case True
  then show ?thesis using assms by (simp add: runSync_def)
next
  case False
  show ?thesis
  proof (cases feed)
    case (Inl err)
    then show ?thesis using False assms by (simp add: runSync_def Let_def)
  next
    case (Inr positions)
    have "distinct (map tradeId (snd (syncLoop rnd accepts u now positions (0, 0, 0) (trades w))))"
      using syncLoop_ids[OF assms] .
    then show ?thesis
      using False Inr
      by (auto simp: runSync_def Let_def syncPositions_def split: prod.splits sum.splits)
  qed
qed

lemma serve_ids:
  assumes "distinct (map tradeId db)"
  shows "distinct (map tradeId (serve rnd accepts now db r))"
proof (cases r)
  case (CreateActive uid body)
  then show ?thesis using assms persistNew_ids[OF assms]
    by (auto simp: createActiveRoute_def unauthenticated_def invalidBody_def Let_def
        split: option.splits)
next
  case (CreateClosed uid body)
  then show ?thesis using assms persistNew_ids[OF assms]
    by (auto simp: createClosedRoute_def unauthenticated_def invalidBody_def Let_def
        split: option.splits)
next
  case (Edit uid i body)
  then show ?thesis using assms persist_ids[OF assms]
    by (auto simp: editRoute_def unauthenticated_def invalidBody_def notFound_def
        split: option.splits)
next
  case (AddSize uid i body)
  then show ?thesis using assms persist_ids[OF assms]
    by (auto simp: addSizeRoute_def unauthenticated_def invalidBody_def notFound_def
        split: option.splits)
next
  case (Sell uid i body)
  then show ?thesis using assms persist_ids[OF assms]
    by (auto simp: sellRoute_def unauthenticated_def invalidBody_def notFound_def
        split: option.splits)
next
  case (Delete uid i)
  then show ?thesis using assms distinct_ids_deleteOne[OF assms]
    by (auto simp: deleteRoute_def split: option.splits)
next
  case (Reconcile u feed)
  then show ?thesis
    using runSync_ids[of "\<lparr>syncing = False, trades = db, requests = 0\<rparr>" rnd accepts u now feed]
      assms by simp
qed

lemma history_ids: "distinct (map tradeId (history rnd reqs))"
proof (induction reqs rule: rev_induct)
  case Nil
  show ?case by (simp add: history_def)
next
  case (snoc x xs)
  obtain accepts now r where x: "x = (accepts, now, r)" by (cases x) auto
  show ?case unfolding x history_snoc using serve_ids[OF snoc] .
qed

lemma persist_keeps_closed:
  assumes d: "distinct (map tradeId db)"
    and f: "trade \<in> set db"
    and keep: "\<And>x. r = Inr x \<Longrightarrow> tradeId x = tradeId trade \<and> (status trade = Closed \<longrightarrow> status x = Closed)"
    and t: "t \<in> set db" "status t = Closed"
    and t': "t' \<in> set (snd (persist accepts db r))" "tradeId t' = tradeId t"
  shows "status t' = Closed"
proof -
  from persist_cases[of accepts db r] show ?thesis
  proof (elim disjE exE conjE)
    fix e assume "persist accepts db r = (Inl e, db)"
    then have "t' \<in> set db" using t' by simp
    then have "t' = t" using same_id_same_doc[OF d _ t(1) t'(2)] by simp
    then show ?thesis using t by simp
  next
    fix x assume x: "r = Inr x" "persist accepts db r = (Inr x, save db x)"
    then have "t' \<in> set (save db x)" using t' by simp
    then have "t' = x \<or> t' \<in> set db" using set_save[of db x] by auto
    then show ?thesis
    proof
      assume "t' \<in> set db"
      then have "t' = t" using same_id_same_doc[OF d _ t(1) t'(2)] by simp
      then show ?thesis using t by simp
    next
      assume e: "t' = x"
      then have "tradeId trade = tradeId t" using keep[OF x(1)] t'(2) by simp
      then have "trade = t" using same_id_same_doc[OF d f t(1)] by simp
      then show ?thesis using keep[OF x(1)] t(2) e by simp
    qed
  qed
qed

lemma persistNew_keeps_closed:
  assumes d: "distinct (map tradeId db)"
    and t: "t \<in> set db" "status t = Closed"
    and t': "t' \<in> set (snd (persistNew accepts db x))" "tradeId t' = tradeId t"
  shows "status t' = Closed"
proof -
  have "t' \<in> set db"
    using persistNew_cases[of accepts db x] t' newObjectId_fresh[OF t(1)] by auto
  then have "t' = t" using same_id_same_doc[OF d _ t(1) t'(2)] by simp
  then show ?thesis using t by simp
qed

lemma sellTrade_keeps:
  "sellTrade rnd now trade body = Inr x \<Longrightarrow>
     tradeId x = tradeId trade \<and> (status trade = Closed \<longrightarrow> status x = Closed)"
  using sellTrade_Inr[of rnd now trade body x] by auto

lemma addSizeTrade_keeps:
  "addSizeTrade now trade body = Inr x \<Longrightarrow>
     tradeId x = tradeId trade \<and> (status trade = Closed \<longrightarrow> status x = Closed)"
  by (auto simp: addSizeTrade_def split: if_splits)

lemma editTrade_keeps:
  "editTrade rnd trade body = Inr x \<Longrightarrow>
     tradeId x = tradeId trade \<and> (status trade = Closed \<longrightarrow> status x = Closed)"
  using editTrade_Inr[of rnd trade body x] by auto

lemma update_keeps_closed:
  assumes d: "distinct (map tradeId db)"
    and t: "t \<in> set db" "status t = Closed"
    and keep: "\<And>trade x. f trade = Inr x \<Longrightarrow>
                 tradeId x = tradeId trade \<and> (status trade = Closed \<longrightarrow> status x = Closed)"
    and t': "t' \<in> set (snd (case uid of None \<Rightarrow> unauthenticated db
                 | Some u \<Rightarrow> if \<not> ok then invalidBody db
                     else (case findOne db i u of None \<Rightarrow> notFound db
                           | Some trade \<Rightarrow> persist accepts db (f trade))))"
      "tradeId t' = tradeId t"
  shows "status t' = Closed"
proof (cases "\<exists>u trade. uid = Some u \<and> ok \<and> findOne db i u = Some trade")
  case False
  then have "t' \<in> set db"
    using t'(1) by (auto simp: unauthenticated_def invalidBody_def notFound_def
        split: option.splits if_splits)
  then have "t' = t" using same_id_same_doc[OF d _ t(1) t'(2)] by simp
  then show ?thesis using t by simp
next
  case True
  then obtain u trade where h: "uid = Some u" "ok" "findOne db i u = Some trade" by blast
  have mem: "trade \<in> set db" using findOne_Some[OF h(3)] by simp
  have "t' \<in> set (snd (persist accepts db (f trade)))" using t'(1) h by simp
  from persist_keeps_closed[OF d mem _ t this t'(2)] keep show ?thesis by blast
qed

subsection \<open>Closed positions\<close>

text \<open>
  Claim C3, as amended. No route takes a stored position from closed to active: in a
  reachable store, after any request to a route (create, edit, add size, sell, delete),
  a position that was closed is still closed if it is still stored. The reconciliation
  upsert is the exception: it sets the position it overwrites to active.
\<close>

theorem routes_keep_closed:
  assumes "isRoute r"
    and "t \<in> set (history rnd reqs)" "status t = Closed"
    and "t' \<in> set (serve rnd accepts now (history rnd reqs) r)" "tradeId t' = tradeId t"
  shows "status t' = Closed"
proof -
  let ?db = "history rnd reqs"
  have d: "distinct (map tradeId ?db)" by (rule history_ids)
  note same = same_id_same_doc[OF d _ assms(2)]
  show ?thesis
  proof (cases r)
    case (CreateActive uid body)
    then show ?thesis
      using assms persistNew_keeps_closed[OF d assms(2,3) _ assms(5), of accepts] same
      by (auto simp: createActiveRoute_def unauthenticated_def invalidBody_def Let_def
          split: option.splits if_splits)
  next
    case (CreateClosed uid body)
    then show ?thesis
      using assms persistNew_keeps_closed[OF d assms(2,3) _ assms(5), of accepts] same
      by (auto simp: createClosedRoute_def unauthenticated_def invalidBody_def Let_def
          split: option.splits if_splits)
  next
    case (Edit uid i body)
    have "t' \<in> set (snd (editRoute rnd accepts ?db uid i body))" using assms(4) Edit by simp
    then show ?thesis
      using update_keeps_closed[where f = "\<lambda>trade. editTrade rnd trade body" and t' = t' and
          uid = uid and ok = "editTradeSchema body" and i = i and accepts = accepts,
          OF d assms(2,3)] editTrade_keeps assms(5)
      unfolding editRoute_def by blast
  next
    case (AddSize uid i body)
    have "t' \<in> set (snd (addSizeRoute accepts now ?db uid i body))" using assms(4) AddSize by simp
    then show ?thesis
      using update_keeps_closed[where f = "\<lambda>trade. addSizeTrade now trade body" and t' = t' and
          uid = uid and ok = "addSizeSchema body" and i = i and accepts = accepts,
          OF d assms(2,3)] addSizeTrade_keeps assms(5)
      unfolding addSizeRoute_def by blast
  next
    case (Sell uid i body)
    have "t' \<in> set (snd (sellRoute rnd accepts now ?db uid i body))" using assms(4) Sell by simp
    then show ?thesis
      using update_keeps_closed[where f = "\<lambda>trade. sellTrade rnd now trade body" and t' = t' and
          uid = uid and ok = "sellSchema body" and i = i and accepts = accepts,
          OF d assms(2,3)] sellTrade_keeps assms(5)
      unfolding sellRoute_def by blast
  next
    case (Delete uid i)
    then show ?thesis
      using assms same set_deleteOne[of ?db i]
      by (auto simp: deleteRoute_def split: option.splits)
  next
    case (Reconcile u feed)
    then show ?thesis using assms(1) by (simp add: isRoute_def)
  qed
qed


section \<open>Properties of the reconciliation engine\<close>

lemma syncLoop_skip:
  "mapPosition rnd now p = None \<Longrightarrow>
     syncLoop rnd accepts u now (p # ps) (c, up, sk) db =
     syncLoop rnd accepts u now ps (c, up, Suc sk) db"
  by simp

lemma syncLoop_append:
  "syncLoop rnd accepts u now (qs @ ps) counters db =
     (case syncLoop rnd accepts u now qs counters db of
        (Inl err, db') \<Rightarrow> (Inl err, db')
      | (Inr counters', db') \<Rightarrow> syncLoop rnd accepts u now ps counters' db')"
proof (induction qs arbitrary: counters db)
  case Nil
  show ?case by simp
next
  case (Cons q qs)
  obtain a b c where cn: "counters = (a, b, c)" by (cases counters) auto
  show ?case
  proof (cases "mapPosition rnd now q")
    case None
    then show ?thesis using Cons cn by simp
  next
    case (Some payload)
    obtain r db' where up: "upsertTrade accepts u db payload now = (r, db')"
      by (cases "upsertTrade accepts u db payload now") auto
    show ?thesis
      using Some up cn Cons
      by (cases r) (auto split: UpsertResult.splits)
  qed
qed

lemma upsertTrade_Inl: "upsertTrade accepts u db payload syncedAt = (Inl e, db') \<Longrightarrow> db' = db"
  by (cases "find (hasKey u (positionId payload)) db")
    (auto simp: upsertTrade_absent upsertTrade_found split: if_splits)

text \<open>
  Claim C5, as amended. A snapshot that fails the mapping rules only increments the
  skipped counter, and the loop goes on with the next snapshot. A failure of the feed
  fetch ends the run with zeroed statistics before any upsert: the store is unchanged. A
  third failure ends a run as well: when the database rejects the upsert of a snapshot,
  the run ends with zeroed statistics, the upserts made before it stay in the store and
  the snapshots after it are not processed.
\<close>

theorem sync_skips_items_and_aborts_on_failure:
  "(mapPosition rnd now p = None \<longrightarrow>
      syncLoop rnd accepts u now (p # ps) (c, up, sk) db =
      syncLoop rnd accepts u now ps (c, up, Suc sk) db) \<and>
   (\<not> syncing w \<longrightarrow>
      runSync rnd accepts u now (Inl err) w = (failedStats, w\<lparr>requests := Suc (requests w)\<rparr>)) \<and>
   (\<not> syncing w \<and> syncLoop rnd accepts u now qs (0, 0, 0) (trades w) = (Inr counters, db1) \<and>
    mapPosition rnd now p = Some payload \<and> fst (upsertTrade accepts u db1 payload now) = Inl e \<longrightarrow>
      runSync rnd accepts u now (Inr (qs @ p # ps)) w =
        (failedStats, w\<lparr>requests := Suc (requests w), trades := db1\<rparr>))"
proof (intro conjI impI)
  assume "mapPosition rnd now p = None"
  then show "syncLoop rnd accepts u now (p # ps) (c, up, sk) db =
      syncLoop rnd accepts u now ps (c, up, Suc sk) db"
    by simp
next
  assume "\<not> syncing w"
  then show "runSync rnd accepts u now (Inl err) w = (failedStats, w\<lparr>requests := Suc (requests w)\<rparr>)"
    by (simp add: runSync_def Let_def)
next
  assume h: "\<not> syncing w \<and> syncLoop rnd accepts u now qs (0, 0, 0) (trades w) = (Inr counters, db1) \<and>
    mapPosition rnd now p = Some payload \<and> fst (upsertTrade accepts u db1 payload now) = Inl e"
  obtain a b c' where dn: "counters = (a, b, c')" by (cases counters) auto
  obtain db' where up: "upsertTrade accepts u db1 payload now = (Inl e, db')"
    using h by (cases "upsertTrade accepts u db1 payload now") auto
  then have db': "db' = db1" by (rule upsertTrade_Inl)
  have "syncLoop rnd accepts u now (qs @ p # ps) (0, 0, 0) (trades w) = (Inl e, db1)"
    using h up db' dn by (simp add: syncLoop_append)
  then show "runSync rnd accepts u now (Inr (qs @ p # ps)) w =
        (failedStats, w\<lparr>requests := Suc (requests w), trades := db1\<rparr>)"
    using h by (simp add: runSync_def Let_def syncPositions_def)
qed


lemma oneAtATime_finish:
  assumes "oneAtATime e" "k < length (passes e)"
  shows "oneAtATime (finish k stats e)"
  using assms by (cases "passes e") (auto simp: oneAtATime_def finish_def)

lemma oneAtATime_trades [simp]: "oneAtATime (e\<lparr>trades := db\<rparr>) = oneAtATime e"
  by (simp add: oneAtATime_def)

lemma oneAtATime_update:
  assumes "oneAtATime e" "k < length (passes e)"
  shows "oneAtATime (e\<lparr>passes := (passes e)[k := x]\<rparr>)"
  using assms by (auto simp: oneAtATime_def)

lemma oneAtATime_continuePass:
  assumes "oneAtATime e" "k < length (passes e)"
  shows "oneAtATime (continuePass rnd u accepts k pass e)"
proof (cases pass)
  case Fetching
  then show ?thesis using assms by (simp add: continuePass_def)
next
  case (Upserting now n ps counters)
  obtain a b c where cn: "counters = (a, b, c)" by (cases counters) auto
  show ?thesis
  proof (cases ps)
    case Nil
    then show ?thesis
      using Upserting cn oneAtATime_finish[OF assms] by (simp add: continuePass_def)
  next
    case (Cons p ps')
    show ?thesis
    proof (cases "mapPosition rnd now p")
      case None
      then show ?thesis
        using Upserting cn Cons oneAtATime_update[OF assms] by (simp add: continuePass_def)
    next
      case (Some payload)
      obtain r db' where up: "upsertTrade accepts u (trades e) payload now = (r, db')"
        by (cases "upsertTrade accepts u (trades e) payload now") auto
      have f: "oneAtATime (finish k failedStats (e\<lparr>trades := db'\<rparr>))"
        using oneAtATime_finish[of "e\<lparr>trades := db'\<rparr>" k failedStats] assms by simp
      have g: "\<And>x. oneAtATime (e\<lparr>trades := db', passes := (passes e)[k := x]\<rparr>)"
        using assms by (auto simp: oneAtATime_def)
      show ?thesis
        using Upserting cn Cons Some up f g
        by (cases r) (auto simp: continuePass_def split: UpsertResult.splits)
    qed
  qed
qed

lemma oneAtATime_step:
  assumes "oneAtATime e"
  shows "oneAtATime (step rnd u e ev)"
proof (cases ev)
  case Invoke
  then show ?thesis using assms by (auto simp: oneAtATime_def)
next
  case (FeedArrives k feed now)
  show ?thesis
  proof (cases "k < length (passes e) \<and> passes e ! k = Fetching")
    case False
    then show ?thesis using FeedArrives assms by auto
  next
    case True
    then show ?thesis
      using FeedArrives oneAtATime_finish[OF assms, of k] oneAtATime_update[OF assms, of k]
      by (cases feed) auto
  qed
next
  case (Continue k accepts)
  then show ?thesis using assms oneAtATime_continuePass[OF assms] by simp
qed

lemma oneAtATime_foldl:
  "oneAtATime e \<Longrightarrow> oneAtATime (foldl (step rnd u) e events)"
  by (induction events arbitrary: e) (auto intro: oneAtATime_step)

lemma oneAtATime_run: "oneAtATime (run rnd u db events)"
  unfolding run_def by (rule oneAtATime_foldl) (simp add: oneAtATime_def idle_def)

text \<open>
  Claim C6. A call of \<open>runSync\<close> while \<open>syncing\<close> is set returns at once with zero
  positions, created, updated and skipped and with \<open>concurrent\<close> set, and leaves the
  service, the store and the client as they were: no fetch, no write. In every
  interleaving of calls, feed arrivals and loop turns on one engine, at most one pass is
  in flight.
\<close>

theorem runSync_single_flight:
  "(syncing w \<longrightarrow> runSync rnd accepts u now feed w = (concurrentStats, w)) \<and>
   totalPositions concurrentStats = 0 \<and> created concurrentStats = 0 \<and>
   updated concurrentStats = 0 \<and> skipped concurrentStats = 0 \<and> concurrent concurrentStats \<and>
   (syncing e \<longrightarrow> step rnd u e Invoke = e\<lparr>returned := returned e @ [concurrentStats]\<rparr>) \<and>
   length (passes (run rnd u db events)) \<le> 1"
  using oneAtATime_run[of rnd u db events]
  by (simp add: runSync_def concurrentStats_def oneAtATime_def)


lemma validates_freshDoc:
  assumes "mapPosition rnd now p = Some payload"
  shows "validates (create db (freshDoc u payload syncedAt))"
    and "validates (upsertDoc existing payload syncedAt)"
proof -
  from mapPosition_Some[OF assms] obtain b where
    c: "payloadCoin payload \<noteq> []" "payloadCoin payload = toUpperCase (trim b)"
    by blast
  have "setCoin (payloadCoin payload) = payloadCoin payload"
    unfolding c(2) by (rule setCoin_mapped)
  then show "validates (create db (freshDoc u payload syncedAt))"
    and "validates (upsertDoc existing payload syncedAt)"
    using c(1) by (simp_all add: validates_def create_def freshDoc_def upsertDoc_def)
qed

lemma hasKey_freshDoc [simp]:
  "hasKey u (positionId payload) (create db (freshDoc u payload syncedAt))"
  by (simp add: hasKey_def create_def freshDoc_def)

lemma hasKey_upsertDoc [simp]:
  "hasKey u (positionId payload) (upsertDoc existing payload syncedAt) = (userId existing = u)"
  by (simp add: hasKey_def upsertDoc_def)

lemma tradeId_upsertDoc [simp]: "tradeId (upsertDoc existing payload syncedAt) = tradeId existing"
  by (simp add: upsertDoc_def)

lemma save_fresh:
  assumes "tradeId d = newObjectId db" "tradeId d' = tradeId d"
  shows "save (db @ [d]) d' = db @ [d']"
proof -
  have "\<forall>t\<in>set db. tradeId t \<noteq> tradeId d'"
    using assms newObjectId_fresh[of _ db] by fastforce
  then have "map (\<lambda>x. if tradeId x = tradeId d' then d' else x) db = db"
    by (induction db) auto
  then show ?thesis using assms by (simp add: save_def)
qed

lemma find_append_last: "find P xs = None \<Longrightarrow> P d \<Longrightarrow> find P (xs @ [d]) = Some d"
  by (induction xs) (auto split: if_splits)

lemma runSync_idle:
  assumes "\<not> syncing w"
  shows "runSync rnd accepts u now (Inr ps) w =
           (case syncLoop rnd accepts u now ps (0, 0, 0) (trades w) of
              (Inl err, db') \<Rightarrow>
                (failedStats, w\<lparr>requests := Suc (requests w), trades := db'\<rparr>)
            | (Inr (nCreated, nUpdated, nSkipped), db') \<Rightarrow>
                (\<lparr> totalPositions = length ps, created = nCreated, updated = nUpdated,
                    skipped = nSkipped, concurrent = False \<rparr>,
                 w\<lparr>requests := Suc (requests w), trades := db'\<rparr>))"
  using assms
  by (simp add: runSync_def Let_def syncPositions_def split: prod.splits sum.splits
      del: syncLoop.simps)

text \<open>
  Claim C7, as amended. For a snapshot that passes the mapping rules, on a store that
  holds no position under its key \<open>(userId, asterdex, id)\<close> and accepts the writes, two
  consecutive runs on the unchanged snapshot leave exactly one position under that key;
  the first run counts it as created, the second as updated and not as created.
\<close>

theorem resync_same_snapshot:
  assumes m: "mapPosition rnd now1 p = Some payload"
    and absent: "find (hasKey u (p_id p)) (trades w) = None"
    and idle: "\<not> syncing w"
    and acc: "\<forall>d. accepts d"
    and r1: "runSync rnd accepts u now1 (Inr [p]) w = (s1, w1)"
    and r2: "runSync rnd accepts u now2 (Inr [p]) w1 = (s2, w2)"
  shows "created s1 = 1 \<and> updated s1 = 0 \<and> skipped s1 = 0 \<and>
         created s2 = 0 \<and> updated s2 = 1 \<and> skipped s2 = 0 \<and>
         length (filter (hasKey u (p_id p)) (trades w1)) = 1 \<and>
         length (filter (hasKey u (p_id p)) (trades w2)) = 1"
proof -
  let ?db = "trades w"
  from mapPosition_Some[OF m, of now2] obtain payload2 where
    pid: "positionId payload = p_id p"
    and m2: "mapPosition rnd now2 p = Some payload2"
    and pid2: "positionId payload2 = p_id p"
    by auto
  let ?d = "create ?db (freshDoc u payload now1)"
  have up1: "upsertTrade accepts u ?db payload now1 = (Inr Created, ?db @ [?d])"
    using absent pid acc validates_freshDoc(1)[OF m]
    by (simp add: upsertTrade_absent)
  have loop1: "syncLoop rnd accepts u now1 [p] (0, 0, 0) ?db = (Inr (1, 0, 0), ?db @ [?d])"
    using m up1 by simp
  have s1: "s1 = \<lparr> totalPositions = 1, created = 1, updated = 0, skipped = 0, concurrent = False \<rparr>"
    and w1: "trades w1 = ?db @ [?d]" "\<not> syncing w1"
    using r1 idle unfolding runSync_idle[OF idle] loop1 by auto
  have none: "filter (hasKey u (p_id p)) ?db = []"
    using absent by (auto simp: find_None_iff filter_empty_conv)
  have k1: "hasKey u (p_id p) ?d" using hasKey_freshDoc[of u payload ?db now1] pid by simp
  have f1: "filter (hasKey u (p_id p)) (trades w1) = [?d]"
    using none k1 w1 by simp
  have found: "find (hasKey u (positionId payload2)) (trades w1) = Some ?d"
  proof -
    have "find (hasKey u (p_id p)) (?db @ [?d]) = Some ?d"
      using absent k1 by (rule find_append_last)
    then show ?thesis using w1 pid2 by simp
  qed
  let ?d' = "upsertDoc ?d payload2 now2"
  have sv: "save (trades w1) ?d' = ?db @ [?d']"
    unfolding w1(1) by (rule save_fresh) (simp_all add: create_def)
  have up2: "upsertTrade accepts u (trades w1) payload2 now2 = (Inr Updated, ?db @ [?d'])"
    using acc validates_freshDoc(2)[OF m2] sv
    by (simp add: upsertTrade_found[OF found])
  have loop2: "syncLoop rnd accepts u now2 [p] (0, 0, 0) (trades w1) = (Inr (0, 1, 0), ?db @ [?d'])"
    using m2 up2 by simp
  have s2: "s2 = \<lparr> totalPositions = 1, created = 0, updated = 1, skipped = 0, concurrent = False \<rparr>"
    and w2: "trades w2 = ?db @ [?d']"
    using r2 unfolding runSync_idle[OF w1(2)] loop2 by auto
  have k2: "hasKey u (p_id p) ?d'"
    using hasKey_upsertDoc[of u payload2 ?d now2] pid2 by (simp add: create_def freshDoc_def)
  have f2: "filter (hasKey u (p_id p)) (trades w2) = [?d']"
    using none k2 w2 by simp
  show ?thesis using s1 s2 f1 f2 by simp
qed

section \<open>The statements on the examples\<close>

subsection \<open>The position of 50 coins\<close>

lemma setCoin_BTC: "setCoin ''BTC'' = ''BTC''"
  by (simp add: setCoin_def trim_def toUpperCase_def upperChar_def isSpace_def)

lemma exampleTrade_fields [simp]:
  "tradeId exampleTrade = 0" "userId exampleTrade = 1" "status exampleTrade = Active"
  "side exampleTrade = Long" "coin exampleTrade = ''BTC''"
  "entries exampleTrade = [newEntry 100 1000 (Some 5) 7]" "closes exampleTrade = []"
  by (simp_all add: exampleTrade_def create_def newTrade_def newObjectId_def)

lemma history_exampleOpen:
  "history rnd [(acceptAll, 7, CreateActive (Some 1) exampleOpen)] = [exampleTrade]"
  by (simp add: history_def createActiveRoute_def exampleOpen_def createActiveTradeSchema_def
      optPositive_def optMax1000_def persistNew_def exampleTrade_def create_def newTrade_def
      validates_def setCoin_BTC Let_def)

lemma exampleTrade_exact:
  "totalEntryCoin (computeTradeAggregates exact exampleTrade) = 50"
  "openCoin (computeTradeAggregates exact exampleTrade) = 50"
  "avgEntryPrice (computeTradeAggregates exact exampleTrade) = Some 100"
  "totalInitialMarginUsd (computeTradeAggregates exact exampleTrade) = 1000"
  by (simp_all add: totalEntryCoin_fold openCoin_fold avgEntryPrice_fold totalInitialMarginUsd_fold
      entryStep_def newEntry_def exact_def)

lemma sellSchema_sellOf:
  "sellSchema (sellOf 120 None None (Some 50))" "sellSchema (sellOf 120 (Some 80) None None)"
  by (simp_all add: sellSchema_def sellSchemaBase_def sellOf_def optPositive_def)

lemma sell_half:
  "sellRoute exact acceptAll 8 [exampleTrade] (Some 1) 0 (sellOf 120 None None (Some 50)) =
     (Inr (exampleTrade\<lparr>closes := [\<lparr> closePrice = 120, closeCoinAmount = 25, closeUsdAmount = 3000,
                                        closeDate = 8, pnlUsd = 500, pnlPercent = 100 \<rparr>]\<rparr>),
      [exampleTrade\<lparr>closes := [\<lparr> closePrice = 120, closeCoinAmount = 25, closeUsdAmount = 3000,
                                   closeDate = 8, pnlUsd = 500, pnlPercent = 100 \<rparr>]\<rparr>])"
proof -
  have st: "sellTrade exact 8 exampleTrade (sellOf 120 None None (Some 50)) =
     Inr (exampleTrade\<lparr>closes := [\<lparr> closePrice = 120, closeCoinAmount = 25, closeUsdAmount = 3000,
                                        closeDate = 8, pnlUsd = 500, pnlPercent = 100 \<rparr>]\<rparr>)"
    by (simp add: sellTrade_def exampleTrade_exact requestedCoin_def sellClose_def sellOf_def
        Let_def exact_def)
  show ?thesis
    by (simp add: sellRoute_def sellSchema_sellOf findOne_def st persist_def validates_def save_def)
qed

subsection \<open>The position of more than 2^30 coins\<close>

lemma foldl_closeStep_coin:
  "fst (foldl (closeStep rnd) (c, p) cs) = foldl (\<lambda>a x. rnd (a + x)) c (map closeCoinAmount cs)"
  by (induction cs arbitrary: c p) (auto simp: closeStep_def)

lemma openCoin_closed_amounts:
  "openCoin (computeTradeAggregates rnd t) =
     max (rnd (fst (snd (foldl (entryStep rnd) (0, 0, 0) (entries t))) -
               foldl (\<lambda>a x. rnd (a + x)) 0 (map closeCoinAmount (closes t)))) 0"
  by (simp add: openCoin_fold foldl_closeStep_coin)

lemma setCoin_PEPE: "setCoin ''PEPE'' = ''PEPE''"
  by (simp add: setCoin_def trim_def toUpperCase_def upperChar_def isSpace_def)

lemma memeTrade_fields [simp]:
  "tradeId memeTrade = 0" "userId memeTrade = 1" "status memeTrade = Active"
  "side memeTrade = Long" "coin memeTrade = ''PEPE''"
  "entries memeTrade = [newEntry (1 / 2 ^ 20) (2 ^ 10 + 3 / 2 ^ 42) None 7]" "closes memeTrade = []"
  by (simp_all add: memeTrade_def create_def newTrade_def newObjectId_def)

lemma history_memeOpen:
  "history rnd [(acceptAll, 7, CreateActive (Some 1) memeOpen)] = [memeTrade]"
  by (simp add: history_def createActiveRoute_def memeOpen_def createActiveTradeSchema_def
      optPositive_def optMax1000_def persistNew_def memeTrade_def create_def newTrade_def
      validates_def setCoin_PEPE Let_def)

lemma meme_entries_fl64:
  assumes "entries t = [newEntry (1 / 2 ^ 20) (2 ^ 10 + 3 / 2 ^ 42) None 7]"
  shows "totalEntryCoin (computeTradeAggregates fl64 t) = 2 ^ 30 + 3 / 2 ^ 22"
    and "avgEntryPrice (computeTradeAggregates fl64 t) = Some (1 / 2 ^ 20)"
    and "fst (snd (foldl (entryStep fl64) (0, 0, 0) (entries t))) = 2 ^ 30 + 3 / 2 ^ 22"
  using assms
  by (simp_all add: totalEntryCoin_fold avgEntryPrice_fold entryStep_def newEntry_def fl64_eval)

subsection \<open>The result of a sell\<close>

lemma sellTrade_result:
  assumes "status trade = Active"
    and "avgEntryPrice (computeTradeAggregates rnd trade) = Some a" "a \<noteq> 0"
    and "0 < totalEntryCoin (computeTradeAggregates rnd trade)"
    and "openCoin (computeTradeAggregates rnd trade) = opn" "0 < opn"
    and "requestedCoin rnd opn body = req" "0 < req"
    and "sold = (if req > opn then opn else req)"
    and "st = (if rnd (opn - sold) \<le> rnd (1 / 10 ^ 8) then Closed else Active)"
  shows "sellTrade rnd now trade body =
           Inr (trade\<lparr>closes := closes trade @
                          [sellClose rnd now (side trade) (computeTradeAggregates rnd trade) a sold body],
                     status := st\<rparr>)"
  using assms by (simp add: sellTrade_def Let_def)

lemma sellRoute_result:
  assumes "findOne db i u = Some trade" "sellSchema body"
    and "sellTrade rnd now trade body = Inr t'" "coin t' \<noteq> []" "accepts t'"
  shows "sellRoute rnd accepts now db (Some u) i body = (Inr t', save db t')"
  using assms by (simp add: sellRoute_def persist_def validates_def)

lemma memeTrade_fl64:
  "totalEntryCoin (computeTradeAggregates fl64 memeTrade) = 2 ^ 30 + 3 / 2 ^ 22"
  "avgEntryPrice (computeTradeAggregates fl64 memeTrade) = Some (1 / 2 ^ 20)"
  "openCoin (computeTradeAggregates fl64 memeTrade) = 2 ^ 30 + 3 / 2 ^ 22"
proof -
  show "totalEntryCoin (computeTradeAggregates fl64 memeTrade) = 2 ^ 30 + 3 / 2 ^ 22"
    "avgEntryPrice (computeTradeAggregates fl64 memeTrade) = Some (1 / 2 ^ 20)"
    by (simp_all add: meme_entries_fl64)
  have "fst (snd (foldl (entryStep fl64) (0, 0, 0) (entries memeTrade))) = 2 ^ 30 + 3 / 2 ^ 22"
    by (rule meme_entries_fl64) simp
  then show "openCoin (computeTradeAggregates fl64 memeTrade) = 2 ^ 30 + 3 / 2 ^ 22"
    unfolding openCoin_closed_amounts by (simp add: fl64_eval)
qed

lemma first_sell_fl64:
  "sellTrade fl64 8 memeTrade memeFirstSell = Inr memeAfterFirstSell"
  unfolding memeAfterFirstSell_def
proof -
  have "sellTrade fl64 8 memeTrade memeFirstSell =
        Inr (memeTrade\<lparr>closes := closes memeTrade @
               [sellClose fl64 8 (side memeTrade) (computeTradeAggregates fl64 memeTrade)
                  (1 / 2 ^ 20) (3 / 2 ^ 23) memeFirstSell],
             status := Active\<rparr>)"
  proof (rule sellTrade_result[where opn = "2 ^ 30 + 3 / 2 ^ 22" and req = "3 / 2 ^ 23"])
    show "status memeTrade = Active" by simp
    show "avgEntryPrice (computeTradeAggregates fl64 memeTrade) = Some (1 / 2 ^ 20)"
      by (rule memeTrade_fl64)
    show "(1 / 2 ^ 20 :: real) \<noteq> 0" by simp
    show "0 < totalEntryCoin (computeTradeAggregates fl64 memeTrade)"
      by (simp add: memeTrade_fl64)
    show "openCoin (computeTradeAggregates fl64 memeTrade) = 2 ^ 30 + 3 / 2 ^ 22"
      by (rule memeTrade_fl64)
    show "(0 :: real) < 2 ^ 30 + 3 / 2 ^ 22" by simp
    show "requestedCoin fl64 (2 ^ 30 + 3 / 2 ^ 22) memeFirstSell = 3 / 2 ^ 23"
      by (simp add: requestedCoin_def memeFirstSell_def sellOf_def)
    show "(0 :: real) < 3 / 2 ^ 23" by simp
    show "(3 / 2 ^ 23 :: real) = (if 3 / 2 ^ 23 > (2 ^ 30 + 3 / 2 ^ 22 :: real) then 2 ^ 30 + 3 / 2 ^ 22 else 3 / 2 ^ 23)"
      by simp
    show "Active = (if fl64 (2 ^ 30 + 3 / 2 ^ 22 - 3 / 2 ^ 23) \<le> fl64 (1 / 10 ^ 8) then Closed else Active)"
      by (simp add: fl64_eval)
  qed
  then show "sellTrade fl64 8 memeTrade memeFirstSell =
    Inr (memeTrade\<lparr>closes := [sellClose fl64 8 Long (computeTradeAggregates fl64 memeTrade)
                            (1 / 2 ^ 20) (3 / 2 ^ 23) memeFirstSell],
               status := Active\<rparr>)"
    by simp
qed

subsection \<open>Selling the rest in binary64\<close>

lemma memeAfterFirstSell_fields [simp]:
  "tradeId memeAfterFirstSell = 0" "userId memeAfterFirstSell = 1"
  "status memeAfterFirstSell = Active" "side memeAfterFirstSell = Long"
  "coin memeAfterFirstSell = ''PEPE''"
  "entries memeAfterFirstSell = [newEntry (1 / 2 ^ 20) (2 ^ 10 + 3 / 2 ^ 42) None 7]"
  "map closeCoinAmount (closes memeAfterFirstSell) = [3 / 2 ^ 23]"
  by (simp_all add: memeAfterFirstSell_def)

lemma sellSchema_amountCoin:
  "0 < p \<Longrightarrow> 0 < c \<Longrightarrow> sellSchema (sellOf p (Some c) None None)"
  by (simp add: sellSchema_def sellSchemaBase_def sellOf_def optPositive_def)

lemma sellSchema_percentage:
  "0 < p \<Longrightarrow> 0 < c \<Longrightarrow> c \<le> 100 \<Longrightarrow> sellSchema (sellOf p None None (Some c))"
  by (simp add: sellSchema_def sellSchemaBase_def sellOf_def optPositive_def)

lemma sellSchema_meme: "sellSchema memeFirstSell" "sellSchema memeSellAll" "sellSchema memeSellRest"
  unfolding memeFirstSell_def memeSellAll_def memeSellRest_def
  by (simp_all add: sellSchema_amountCoin sellSchema_percentage)

lemma memeHistory_store: "history fl64 memeHistory = [memeAfterFirstSell]"
proof -
  have "sellRoute fl64 acceptAll 8 [memeTrade] (Some 1) 0 memeFirstSell =
          (Inr memeAfterFirstSell, save [memeTrade] memeAfterFirstSell)"
    by (rule sellRoute_result[where trade = memeTrade])
      (simp_all add: findOne_def sellSchema_meme first_sell_fl64)
  then have "serve fl64 acceptAll 8 [memeTrade] (Sell (Some 1) 0 memeFirstSell) =
               save [memeTrade] memeAfterFirstSell"
    by (simp only: serve.simps snd_conv)
  moreover have "save [memeTrade] memeAfterFirstSell = [memeAfterFirstSell]"
    by (simp add: save_def)
  moreover have "history fl64 memeHistory =
      serve fl64 acceptAll 8 (history fl64 [(acceptAll, 7, CreateActive (Some 1) memeOpen)])
        (Sell (Some 1) 0 memeFirstSell)"
    unfolding memeHistory_def
    using history_snoc[of fl64 "[(acceptAll, 7, CreateActive (Some 1) memeOpen)]" "acceptAll" 8
        "Sell (Some 1) 0 memeFirstSell"]
    by (simp only: append_Cons append_Nil)
  ultimately show ?thesis
    by (simp only: history_memeOpen)
qed

lemma memeAfterFirstSell_fl64:
  "totalEntryCoin (computeTradeAggregates fl64 memeAfterFirstSell) = 2 ^ 30 + 3 / 2 ^ 22"
  "avgEntryPrice (computeTradeAggregates fl64 memeAfterFirstSell) = Some (1 / 2 ^ 20)"
  "openCoin (computeTradeAggregates fl64 memeAfterFirstSell) = 2 ^ 30 + 1 / 2 ^ 21"
proof -
  show "totalEntryCoin (computeTradeAggregates fl64 memeAfterFirstSell) = 2 ^ 30 + 3 / 2 ^ 22"
    "avgEntryPrice (computeTradeAggregates fl64 memeAfterFirstSell) = Some (1 / 2 ^ 20)"
    by (simp_all add: meme_entries_fl64)
  have "fst (snd (foldl (entryStep fl64) (0, 0, 0) (entries memeAfterFirstSell))) = 2 ^ 30 + 3 / 2 ^ 22"
    by (rule meme_entries_fl64) simp
  then show "openCoin (computeTradeAggregates fl64 memeAfterFirstSell) = 2 ^ 30 + 1 / 2 ^ 21"
    unfolding openCoin_closed_amounts by (simp add: fl64_eval)
qed

lemma second_sell_fl64:
  assumes "requestedCoin fl64 (2 ^ 30 + 1 / 2 ^ 21) body = req" "2 ^ 30 + 1 / 2 ^ 21 \<le> req"
  shows "sellTrade fl64 9 memeAfterFirstSell body = Inr (memeSoldOut body)"
proof -
  have "sellTrade fl64 9 memeAfterFirstSell body =
        Inr (memeAfterFirstSell\<lparr>closes := closes memeAfterFirstSell @
               [sellClose fl64 9 (side memeAfterFirstSell)
                  (computeTradeAggregates fl64 memeAfterFirstSell)
                  (1 / 2 ^ 20) (2 ^ 30 + 1 / 2 ^ 21) body],
             status := Closed\<rparr>)"
  proof (rule sellTrade_result[where opn = "2 ^ 30 + 1 / 2 ^ 21" and req = req])
    show "status memeAfterFirstSell = Active" by simp
    show "avgEntryPrice (computeTradeAggregates fl64 memeAfterFirstSell) = Some (1 / 2 ^ 20)"
      by (rule memeAfterFirstSell_fl64)
    show "(1 / 2 ^ 20 :: real) \<noteq> 0" by simp
    show "0 < totalEntryCoin (computeTradeAggregates fl64 memeAfterFirstSell)"
      by (simp add: memeAfterFirstSell_fl64)
    show "openCoin (computeTradeAggregates fl64 memeAfterFirstSell) = 2 ^ 30 + 1 / 2 ^ 21"
      by (rule memeAfterFirstSell_fl64)
    show "(0 :: real) < 2 ^ 30 + 1 / 2 ^ 21" by simp
    show "requestedCoin fl64 (2 ^ 30 + 1 / 2 ^ 21) body = req" by (rule assms)
    show "0 < req" using assms(2) by simp
    show "(2 ^ 30 + 1 / 2 ^ 21 :: real) = (if req > 2 ^ 30 + 1 / 2 ^ 21 then 2 ^ 30 + 1 / 2 ^ 21 else req)"
      using assms(2) by simp
    show "Closed = (if fl64 (2 ^ 30 + 1 / 2 ^ 21 - (2 ^ 30 + 1 / 2 ^ 21)) \<le> fl64 (1 / 10 ^ 8)
                    then Closed else Active)"
      by (simp add: fl64_eval)
  qed
  then show ?thesis by (simp add: memeSoldOut_def)
qed

lemma requested_memeSellAll:
  "requestedCoin fl64 (2 ^ 30 + 1 / 2 ^ 21) memeSellAll = 2 ^ 31"
  by (simp add: requestedCoin_def memeSellAll_def sellOf_def)

lemma requested_memeSellRest:
  "requestedCoin fl64 (2 ^ 30 + 1 / 2 ^ 21) memeSellRest = 2 ^ 30 + 1 / 2 ^ 21"
  by (simp add: requestedCoin_def memeSellRest_def sellOf_def fl64_eval)

lemma memeSoldOut_fields [simp]:
  "tradeId (memeSoldOut body) = 0" "userId (memeSoldOut body) = 1"
  "status (memeSoldOut body) = Closed" "coin (memeSoldOut body) = ''PEPE''"
  "entries (memeSoldOut body) = [newEntry (1 / 2 ^ 20) (2 ^ 10 + 3 / 2 ^ 42) None 7]"
  "map closeCoinAmount (closes (memeSoldOut body)) = [3 / 2 ^ 23, 2 ^ 30 + 1 / 2 ^ 21]"
  by (simp_all add: memeSoldOut_def)

lemma memeSoldOut_sums:
  "totalEntryCoin (computeTradeAggregates fl64 (memeSoldOut body)) = 2 ^ 30 + 3 / 2 ^ 22"
  "sumCloseCoin (closes (memeSoldOut body)) = 2 ^ 30 + 3 / 2 ^ 22 + 1 / 2 ^ 23"
  "fst (foldl (closeStep fl64) (0, 0) (closes (memeSoldOut body))) = 2 ^ 30 + 3 / 2 ^ 22 + 1 / 2 ^ 22"
proof -
  show "totalEntryCoin (computeTradeAggregates fl64 (memeSoldOut body)) = 2 ^ 30 + 3 / 2 ^ 22"
    by (simp add: meme_entries_fl64)
  have "sum_list (map closeCoinAmount (closes (memeSoldOut body))) = 2 ^ 30 + 3 / 2 ^ 22 + 1 / 2 ^ 23"
    by (simp only: memeSoldOut_fields) simp
  then show "sumCloseCoin (closes (memeSoldOut body)) = 2 ^ 30 + 3 / 2 ^ 22 + 1 / 2 ^ 23"
    by (simp only: sumCloseCoin_def)
  show "fst (foldl (closeStep fl64) (0, 0) (closes (memeSoldOut body))) = 2 ^ 30 + 3 / 2 ^ 22 + 1 / 2 ^ 22"
    unfolding foldl_closeStep_coin by (simp only: memeSoldOut_fields) (simp add: fl64_eval)
qed

text \<open>
  Claim C2 as stated, with binary64 arithmetic, fails on its last part. The position of
  \<open>2^30 + 3 * 2^-22\<close> coins is active after the first sell of \<open>3 * 2^-23\<close> coins,
  and the open coin that the program computes for it is \<open>2^30 + 2^-21\<close>, the double
  nearest to the difference. A sell that asks for \<open>2^31\<close> coins is clamped to exactly
  that open coin and closes the position. The two closes then sum to
  \<open>2^30 + 3 * 2^-22 + 2^-23\<close>, and to \<open>2^30 + 3 * 2^-22 + 2^-22\<close> as the program
  adds them: in both cases more than the total entry coin plus \<open>10^-8\<close>.
\<close>

theorem sell_beyond_open_oversells_binary64_counterexample:
  "findOne (history fl64 memeHistory) 0 1 = Some memeAfterFirstSell \<and>
   status memeAfterFirstSell = Active \<and>
   0 < openCoin (computeTradeAggregates fl64 memeAfterFirstSell) \<and>
   sellSchema memeSellAll \<and>
   openCoin (computeTradeAggregates fl64 memeAfterFirstSell)
     < requestedCoin fl64 (openCoin (computeTradeAggregates fl64 memeAfterFirstSell)) memeSellAll \<and>
   sellRoute fl64 acceptAll 9 (history fl64 memeHistory) (Some 1) 0 memeSellAll =
     (Inr (memeSoldOut memeSellAll), [memeSoldOut memeSellAll]) \<and>
   map closeCoinAmount (closes (memeSoldOut memeSellAll)) = [3 / 2 ^ 23, 2 ^ 30 + 1 / 2 ^ 21] \<and>
   totalEntryCoin (computeTradeAggregates fl64 (memeSoldOut memeSellAll)) = 2 ^ 30 + 3 / 2 ^ 22 \<and>
   \<not> sumCloseCoin (closes (memeSoldOut memeSellAll))
       \<le> totalEntryCoin (computeTradeAggregates fl64 (memeSoldOut memeSellAll)) + 1 / 10 ^ 8 \<and>
   \<not> fst (foldl (closeStep fl64) (0, 0) (closes (memeSoldOut memeSellAll)))
       \<le> totalEntryCoin (computeTradeAggregates fl64 (memeSoldOut memeSellAll)) + 1 / 10 ^ 8"
proof -
  have st: "sellTrade fl64 9 memeAfterFirstSell memeSellAll = Inr (memeSoldOut memeSellAll)"
    by (rule second_sell_fl64[OF requested_memeSellAll]) simp
  have route: "sellRoute fl64 acceptAll 9 [memeAfterFirstSell] (Some 1) 0 memeSellAll =
                 (Inr (memeSoldOut memeSellAll), save [memeAfterFirstSell] (memeSoldOut memeSellAll))"
    by (rule sellRoute_result[where trade = memeAfterFirstSell])
      (simp_all add: findOne_def sellSchema_meme st)
  have sv: "save [memeAfterFirstSell] (memeSoldOut memeSellAll) = [memeSoldOut memeSellAll]"
    by (simp add: save_def)
  show ?thesis
    unfolding memeHistory_store route sv memeSoldOut_sums memeAfterFirstSell_fl64
      requested_memeSellAll
    by (simp add: findOne_def sellSchema_meme)
qed

text \<open>
  Claim C1 as stated, with binary64 arithmetic, fails. The history opens the position of
  \<open>2^30 + 3 * 2^-22\<close> coins, sells \<open>3 * 2^-23\<close> coins and then sells 100 per cent
  of what is open. The closes of the stored position sum to more than its total entry
  coin plus \<open>10^-8\<close>, as an exact sum and as the program adds them.
\<close>

theorem reachable_closes_exceed_entries_binary64_counterexample:
  "memeSoldOut memeSellRest \<in>
     set (history fl64 (memeHistory @ [(acceptAll, 9, Sell (Some 1) 0 memeSellRest)])) \<and>
   totalEntryCoin (computeTradeAggregates fl64 (memeSoldOut memeSellRest)) = 2 ^ 30 + 3 / 2 ^ 22 \<and>
   sumCloseCoin (closes (memeSoldOut memeSellRest)) = 2 ^ 30 + 3 / 2 ^ 22 + 1 / 2 ^ 23 \<and>
   \<not> sumCloseCoin (closes (memeSoldOut memeSellRest))
       \<le> totalEntryCoin (computeTradeAggregates fl64 (memeSoldOut memeSellRest)) + 1 / 10 ^ 8 \<and>
   \<not> fst (foldl (closeStep fl64) (0, 0) (closes (memeSoldOut memeSellRest)))
       \<le> totalEntryCoin (computeTradeAggregates fl64 (memeSoldOut memeSellRest)) + 1 / 10 ^ 8"
proof -
  have st: "sellTrade fl64 9 memeAfterFirstSell memeSellRest = Inr (memeSoldOut memeSellRest)"
    by (rule second_sell_fl64[OF requested_memeSellRest]) simp
  have route: "sellRoute fl64 acceptAll 9 [memeAfterFirstSell] (Some 1) 0 memeSellRest =
                 (Inr (memeSoldOut memeSellRest), save [memeAfterFirstSell] (memeSoldOut memeSellRest))"
    by (rule sellRoute_result[where trade = memeAfterFirstSell])
      (simp_all add: findOne_def sellSchema_meme st)
  have sv: "save [memeAfterFirstSell] (memeSoldOut memeSellRest) = [memeSoldOut memeSellRest]"
    by (simp add: save_def)
  have h: "history fl64 (memeHistory @ [(acceptAll, 9, Sell (Some 1) 0 memeSellRest)]) =
             [memeSoldOut memeSellRest]"
    unfolding history_snoc memeHistory_store by (simp only: serve.simps route snd_conv sv)
  show ?thesis
    unfolding h memeSoldOut_sums by simp
qed

subsection \<open>Sells and edits in exact arithmetic\<close>

lemma exampleHistory_store: "history rnd exampleHistory = [exampleTrade]"
  unfolding exampleHistory_def by (rule history_exampleOpen)

lemma sellSchema_example: "sellSchema exampleSellHalf" "sellSchema exampleSellAll"
  unfolding exampleSellHalf_def exampleSellAll_def
  by (simp_all add: sellSchema_amountCoin sellSchema_percentage)

lemma sell_half_route:
  "sellRoute exact acceptAll 8 [exampleTrade] (Some 1) 0 exampleSellHalf =
     (Inr exampleHalfSold, [exampleHalfSold])"
  unfolding exampleSellHalf_def exampleHalfSold_def by (rule sell_half)

lemma sell_all_route:
  "sellRoute exact acceptAll 8 [exampleTrade] (Some 1) 0 exampleSellAll =
     (Inr exampleSoldOut, [exampleSoldOut])"
proof -
  have st: "sellTrade exact 8 exampleTrade exampleSellAll = Inr exampleSoldOut"
    by (simp add: sellTrade_def exampleTrade_exact requestedCoin_def sellClose_def sellOf_def
        Let_def exact_def exampleSellAll_def exampleSoldOut_def)
  show ?thesis
    by (simp add: sellRoute_def sellSchema_example findOne_def st persist_def validates_def
        save_def exampleSoldOut_def)
qed

lemma exampleDocs_fields [simp]:
  "status exampleHalfSold = Active" "status exampleSoldOut = Closed"
  "tradeId exampleSoldOut = 0" "userId exampleSoldOut = 1" "coin exampleSoldOut = ''BTC''"
  "entries exampleHalfSold = [newEntry 100 1000 (Some 5) 7]"
  "entries exampleSoldOut = [newEntry 100 1000 (Some 5) 7]"
  "map closeCoinAmount (closes exampleHalfSold) = [25]"
  "map closeCoinAmount (closes exampleSoldOut) = [50]"
  by (simp_all add: exampleHalfSold_def exampleSoldOut_def)

lemma history_snoc_store:
  "history rnd reqs = db \<Longrightarrow> history rnd (reqs @ [(accepts, now, r)]) = serve rnd accepts now db r"
  by (simp add: history_snoc)

lemma soldHistory_store:
  "history exact (exampleHistory @ [(acceptAll, 8, Sell (Some 1) 0 exampleSellAll)]) = [exampleSoldOut]"
  using history_snoc_store[OF exampleHistory_store[of exact], of acceptAll 8 "Sell (Some 1) 0 exampleSellAll"]
  by (simp only: serve.simps sell_all_route snd_conv)

lemma halfHistory_store:
  "history exact (exampleHistory @ [(acceptAll, 8, Sell (Some 1) 0 exampleSellHalf)]) = [exampleHalfSold]"
  using history_snoc_store[OF exampleHistory_store[of exact], of acceptAll 8 "Sell (Some 1) 0 exampleSellHalf"]
  by (simp only: serve.simps sell_half_route snd_conv)

text \<open>
  The theorem of claim C1 on the history that opens the position of 50 coins and sells
  half of it: the one close holds 25 coins, the total entry coin is 50.
\<close>

theorem reachable_closes_within_entries_witness:
  "history exact (exampleHistory @ [(acceptAll, 8, Sell (Some 1) 0 exampleSellHalf)]) = [exampleHalfSold] \<and>
   sumCloseCoin (closes exampleHalfSold) = 25 \<and>
   totalEntryCoin (computeTradeAggregates exact exampleHalfSold) = 50 \<and>
   sumCloseCoin (closes exampleHalfSold) \<le> totalEntryCoin (computeTradeAggregates exact exampleHalfSold) \<and>
   sumCloseCoin (closes exampleHalfSold)
     \<le> totalEntryCoin (computeTradeAggregates exact exampleHalfSold) + 1 / 10 ^ 8"
proof -
  have s: "sumCloseCoin (closes exampleHalfSold) = 25"
    by (simp add: sumCloseCoin_def)
  have t: "totalEntryCoin (computeTradeAggregates exact exampleHalfSold) = 50"
    by (simp add: totalEntryCoin_fold entryStep_def newEntry_def exact_def)
  have "sumCloseCoin (closes exampleHalfSold) \<le> totalEntryCoin (computeTradeAggregates exact exampleHalfSold) \<and>
        sumCloseCoin (closes exampleHalfSold)
          \<le> totalEntryCoin (computeTradeAggregates exact exampleHalfSold) + 1 / 10 ^ 8"
    using reachable_closes_within_entries[of "exampleHistory @ [(acceptAll, 8, Sell (Some 1) 0 exampleSellHalf)]"]
    unfolding halfHistory_store by simp
  then show ?thesis using s t halfHistory_store by simp
qed

text \<open>
  The theorem of claim C2 on the position of 50 coins and a request to sell 80: the
  close holds 50 coins and the position is closed.
\<close>

theorem sell_beyond_open_clamps_exact_witness:
  "findOne (history exact exampleHistory) 0 1 = Some exampleTrade \<and>
   status exampleTrade = Active \<and>
   openCoin (computeTradeAggregates exact exampleTrade) = 50 \<and>
   sellSchema exampleSellAll \<and>
   requestedCoin exact (openCoin (computeTradeAggregates exact exampleTrade)) exampleSellAll = 80 \<and>
   sellRoute exact acceptAll 8 (history exact exampleHistory) (Some 1) 0 exampleSellAll =
     (Inr exampleSoldOut, [exampleSoldOut]) \<and>
   map closeCoinAmount (closes exampleSoldOut) = [50] \<and>
   sumCloseCoin (closes exampleSoldOut) \<le> totalEntryCoin (computeTradeAggregates exact exampleSoldOut) \<and>
   status exampleSoldOut = Closed"
proof -
  have f: "findOne (history exact exampleHistory) 0 1 = Some exampleTrade"
    unfolding exampleHistory_store by (simp add: findOne_def)
  have r: "requestedCoin exact (openCoin (computeTradeAggregates exact exampleTrade)) exampleSellAll = 80"
    by (simp add: requestedCoin_def exampleSellAll_def sellOf_def)
  have o: "openCoin (computeTradeAggregates exact exampleTrade) = 50"
    by (rule exampleTrade_exact)
  have route: "sellRoute exact acceptAll 8 (history exact exampleHistory) (Some 1) 0 exampleSellAll =
                 (Inr exampleSoldOut, [exampleSoldOut])"
    unfolding exampleHistory_store by (rule sell_all_route)
  have "\<exists>t' c. sellRoute exact acceptAll 8 (history exact exampleHistory) (Some 1) 0 exampleSellAll =
                   (Inr t', save (history exact exampleHistory) t') \<and>
               closes t' = closes exampleTrade @ [c] \<and>
               closeCoinAmount c = openCoin (computeTradeAggregates exact exampleTrade) \<and>
               sumCloseCoin (closes t') \<le> totalEntryCoin (computeTradeAggregates exact t') \<and>
               sumCloseCoin (closes t') \<le> totalEntryCoin (computeTradeAggregates exact t') + 1 / 10 ^ 8 \<and>
               status t' = Closed"
  proof (rule sell_beyond_open_clamps_exact[OF f])
    show "status exampleTrade = Active" by simp
    show "0 < openCoin (computeTradeAggregates exact exampleTrade)" unfolding o by simp
    show "sellSchema exampleSellAll" by (rule sellSchema_example)
    show "openCoin (computeTradeAggregates exact exampleTrade)
            < requestedCoin exact (openCoin (computeTradeAggregates exact exampleTrade)) exampleSellAll"
      unfolding r unfolding o by simp
    show "\<forall>d. acceptAll d" by simp
  qed
  then obtain t' c where
    h: "sellRoute exact acceptAll 8 (history exact exampleHistory) (Some 1) 0 exampleSellAll =
          (Inr t', save (history exact exampleHistory) t')"
       "closes t' = closes exampleTrade @ [c]"
       "closeCoinAmount c = openCoin (computeTradeAggregates exact exampleTrade)"
       "sumCloseCoin (closes t') \<le> totalEntryCoin (computeTradeAggregates exact t')"
       "status t' = Closed"
    by blast
  have t': "t' = exampleSoldOut" using h(1) unfolding route by simp
  have "map closeCoinAmount (closes exampleSoldOut) = [50]"
    using h(2,3) unfolding t' o by simp
  then show ?thesis
    using f r o route h(4,5) sellSchema_example(2) unfolding t' by simp
qed


text \<open>
  The theorem of claim C10 on an edit of the active position that supplies an entry
  price, a comment, a stop loss and a take profit: the route answers 400 and the stored
  document has no comment.
\<close>

theorem rejected_edit_stores_nothing_witness:
  "editRoute exact acceptAll [exampleTrade] (Some 1) 0 exampleEdit =
     (Inl (400, ''Only closed trades can edit entry/exit details''), [exampleTrade]) \<and>
   editTradeSchema exampleEdit \<and> e_comment exampleEdit = Some ''moved the stop'' \<and>
   comment exampleTrade = None"
proof -
  have s: "editTradeSchema exampleEdit"
    by (simp add: editTradeSchema_def exampleEdit_def optMax1000_def nullablePositive_def
        optPositive_def)
  have et: "editTrade exact exampleTrade exampleEdit =
          Inl (400, ''Only closed trades can edit entry/exit details'')"
    by (simp add: editTrade_def closedFieldsProvided_def exampleEdit_def)
  have "fst (editRoute exact acceptAll [exampleTrade] (Some 1) 0 exampleEdit) =
          Inl (400, ''Only closed trades can edit entry/exit details'')"
    by (simp add: editRoute_def s findOne_def et persist_def)
  then have "editRoute exact acceptAll [exampleTrade] (Some 1) 0 exampleEdit =
          (Inl (400, ''Only closed trades can edit entry/exit details''),
           snd (editRoute exact acceptAll [exampleTrade] (Some 1) 0 exampleEdit))"
    by (metis prod.collapse)
  from this rejected_edit_stores_nothing[OF this] s show ?thesis
    by (simp add: exampleEdit_def exampleTrade_def create_def newTrade_def)
qed

text \<open>
  The theorem of claim C3 on the position of 50 coins after it is sold out: an edit of
  its comment is stored, and the position is still closed.
\<close>

theorem routes_keep_closed_witness:
  "isRoute (Edit (Some 1) 0 exampleComment) \<and>
   exampleSoldOut \<in> set (history exact (exampleHistory @ [(acceptAll, 8, Sell (Some 1) 0 exampleSellAll)])) \<and>
   status exampleSoldOut = Closed \<and>
   serve exact acceptAll 9 (history exact (exampleHistory @ [(acceptAll, 8, Sell (Some 1) 0 exampleSellAll)]))
     (Edit (Some 1) 0 exampleComment) = [exampleSoldOut\<lparr>comment := Some ''done''\<rparr>] \<and>
   status (exampleSoldOut\<lparr>comment := Some ''done''\<rparr>) = Closed"
proof -
  let ?h = "exampleHistory @ [(acceptAll, 8, Sell (Some 1) 0 exampleSellAll)]"
  let ?t' = "exampleSoldOut\<lparr>comment := Some ''done''\<rparr>"
  have r: "isRoute (Edit (Some 1) 0 exampleComment)" by (simp add: isRoute_def)
  have m: "exampleSoldOut \<in> set (history exact ?h)" unfolding soldHistory_store by simp
  have e: "editRoute exact acceptAll [exampleSoldOut] (Some 1) 0 exampleComment = (Inr ?t', [?t'])"
    by (simp add: editRoute_def editTradeSchema_def exampleComment_def optMax1000_def
        nullablePositive_def optPositive_def findOne_def editTrade_def closedFieldsProvided_def
        editBasics_def persist_def validates_def save_def Let_def)
  have s: "serve exact acceptAll 9 (history exact ?h) (Edit (Some 1) 0 exampleComment) = [?t']"
    unfolding soldHistory_store by (simp only: serve.simps e snd_conv)
  have "status ?t' = Closed"
  proof (rule routes_keep_closed[OF r m])
    show "status exampleSoldOut = Closed" by simp
    show "?t' \<in> set (serve exact acceptAll 9 (history exact ?h) (Edit (Some 1) 0 exampleComment))"
      unfolding s by simp
    show "tradeId ?t' = tradeId exampleSoldOut" by simp
  qed
  then show ?thesis using r m s by simp
qed

subsection \<open>Reconciliation runs\<close>

lemma setCoin_ETH: "setCoin ''ETH'' = ''ETH''"
  by (simp add: setCoin_def trim_def toUpperCase_def upperChar_def isSpace_def)

lemma mapPosition_examples:
  "mapPosition rnd now btcPosition = Some btcPayload"
  "mapPosition rnd now ethPosition = Some ethPayload"
  "mapPosition rnd now flatPosition = None"
  "mapPosition rnd now solPosition \<noteq> None"
  by (simp_all add: mapPosition_def btcPosition_def ethPosition_def flatPosition_def
      solPosition_def btcPayload_def ethPayload_def Let_def trim_def toUpperCase_def
      upperChar_def isSpace_def)

lemma payload_fields [simp]:
  "positionId btcPayload = ''p1''" "positionId ethPayload = ''p2''"
  "payloadCoin btcPayload = ''BTC''" "payloadCoin ethPayload = ''ETH''"
  by (simp_all add: btcPayload_def ethPayload_def)

lemma btcSynced_fields [simp]:
  "tradeId btcSynced = 0" "userId btcSynced = 1" "status btcSynced = Active"
  "side btcSynced = Long" "coin btcSynced = ''BTC''" "closes btcSynced = []"
  "entries btcSynced = [\<lparr> entryPrice = 100, amountInvestedUsd = 200, leverage = Some 1,
                           entryDate = 3 \<rparr>]"
  "exchange btcSynced = Some ''asterdex''" "exchangePositionId btcSynced = Some ''p1''"
  by (simp_all add: btcSynced_def create_def freshDoc_def newObjectId_def btcPayload_def
      setCoin_BTC)

lemma upsert_btc_first:
  "accepts btcSynced \<Longrightarrow> upsertTrade accepts 1 [] btcPayload 7 = (Inr Created, [btcSynced])"
  using upsertTrade_absent[of 1 btcPayload "[]" accepts 7]
  by (simp add: btcSynced_def[symmetric] validates_def del: One_nat_def)

lemma upsert_eth_refused:
  "upsertTrade refusesETH 1 [btcSynced] ethPayload 7 = (Inl ''create rejected'', [btcSynced])"
  using upsertTrade_absent[of 1 ethPayload "[btcSynced]" refusesETH 7]
  by (simp add: hasKey_def refusesETH_def create_def freshDoc_def setCoin_ETH)

lemma loop_btc:
  "accepts btcSynced \<Longrightarrow>
     syncLoop rnd accepts 1 7 [btcPosition] (c, up, sk) [] = (Inr (Suc c, up, sk), [btcSynced])"
  by (simp add: mapPosition_examples upsert_btc_first del: One_nat_def)

lemma refusesETH_btc: "refusesETH btcSynced"
  by (simp add: refusesETH_def)

lemma loop_refused:
  "syncLoop rnd refusesETH 1 7 [btcPosition, ethPosition, solPosition] (0, 0, 0) [] =
     (Inl ''create rejected'', [btcSynced])"
  by (simp add: mapPosition_examples upsert_btc_first refusesETH_btc upsert_eth_refused
      del: One_nat_def)

lemma idleState_fields [simp]:
  "\<not> syncing idleState" "trades idleState = []" "requests idleState = 0"
  by (simp_all add: idleState_def)

text \<open>
  Claim C5 as stated fails where it says that only a failure of the feed fetch ends a
  run. The feed delivers three snapshots that all pass the mapping rules; the database
  accepts the document of the first and rejects the document of the second. The run ends
  there with zeroed statistics: the first position stays stored although the run reports
  no created position, and the third snapshot is never processed.
\<close>

theorem upsert_failure_aborts_run_counterexample:
  "mapPosition fl64 7 btcPosition = Some btcPayload \<and>
   mapPosition fl64 7 ethPosition = Some ethPayload \<and>
   mapPosition fl64 7 solPosition \<noteq> None \<and>
   upsertTrade refusesETH 1 [] btcPayload 7 = (Inr Created, [btcSynced]) \<and>
   upsertTrade refusesETH 1 [btcSynced] ethPayload 7 = (Inl ''create rejected'', [btcSynced]) \<and>
   runSync fl64 refusesETH 1 7 (Inr [btcPosition, ethPosition, solPosition]) idleState =
     (\<lparr> totalPositions = 0, created = 0, updated = 0, skipped = 0, concurrent = False \<rparr>,
      \<lparr> syncing = False, trades = [btcSynced], requests = 1 \<rparr>)"
proof -
  have "runSync fl64 refusesETH 1 7 (Inr [btcPosition, ethPosition, solPosition]) idleState =
     (\<lparr> totalPositions = 0, created = 0, updated = 0, skipped = 0, concurrent = False \<rparr>,
      \<lparr> syncing = False, trades = [btcSynced], requests = 1 \<rparr>)"
    unfolding runSync_idle[OF idleState_fields(1)] idleState_fields loop_refused
    by (simp add: failedStats_def idleState_def)
  then show ?thesis
    using mapPosition_examples[of fl64 7] upsert_btc_first[of refusesETH, OF refusesETH_btc]
      upsert_eth_refused
    by simp
qed

text \<open>
  The theorem of claim C5 on the snapshots of the examples: the snapshot of size zero is
  skipped and the next one is created; a feed that fails leaves the store empty; a
  rejected write of the second snapshot ends the run with the first position stored.
\<close>

theorem sync_skips_items_and_aborts_on_failure_witness:
  "mapPosition exact 7 flatPosition = None \<and>
   syncLoop exact acceptAll 1 7 [flatPosition, btcPosition] (0, 0, 0) [] =
     (Inr (1, 0, 1), [btcSynced]) \<and>
   runSync exact acceptAll 1 7 (Inl ''feed unavailable'') idleState =
     (failedStats, \<lparr> syncing = False, trades = [], requests = 1 \<rparr>) \<and>
   mapPosition exact 7 ethPosition = Some ethPayload \<and>
   fst (upsertTrade refusesETH 1 [btcSynced] ethPayload 7) = Inl ''create rejected'' \<and>
   runSync exact refusesETH 1 7 (Inr [btcPosition, ethPosition, solPosition]) idleState =
     (failedStats, \<lparr> syncing = False, trades = [btcSynced], requests = 1 \<rparr>)"
proof -
  note t1 = sync_skips_items_and_aborts_on_failure[where rnd = exact and now = 7
        and p = flatPosition and accepts = acceptAll and u = 1 and ps = "[btcPosition]"
        and c = 0 and up = 0 and sk = 0 and db = "[]" and w = idleState
        and err = "''feed unavailable''"]
  have skip: "syncLoop exact acceptAll 1 7 (flatPosition # [btcPosition]) (0, 0, 0) [] =
                syncLoop exact acceptAll 1 7 [btcPosition] (0, 0, Suc 0) []"
    using t1 mapPosition_examples(3)[of exact 7] by blast
  have one: "syncLoop exact acceptAll 1 7 [flatPosition, btcPosition] (0, 0, 0) [] =
               (Inr (1, 0, 1), [btcSynced])"
    unfolding skip using loop_btc[of acceptAll exact 0 0 "Suc 0"] by simp
  have feed: "runSync exact acceptAll 1 7 (Inl ''feed unavailable'') idleState =
               (failedStats, idleState\<lparr>requests := Suc (requests idleState)\<rparr>)"
    using t1 idleState_fields(1) by blast
  have q: "syncLoop exact refusesETH 1 7 [btcPosition] (0, 0, 0) (trades idleState) =
             (Inr (Suc 0, 0, 0), [btcSynced])"
    using loop_btc[of refusesETH exact 0 0 0, OF refusesETH_btc] by simp
  have e: "fst (upsertTrade refusesETH 1 [btcSynced] ethPayload 7) = Inl ''create rejected''"
    using upsert_eth_refused by simp
  note t2 = sync_skips_items_and_aborts_on_failure[where rnd = exact and now = 7
        and p = ethPosition and accepts = refusesETH and u = 1 and ps = "[solPosition]"
        and w = idleState and qs = "[btcPosition]"
        and counters = "(Suc 0, 0, 0)" and ?db1.0 = "[btcSynced]" and payload = ethPayload
        and e = "''create rejected''"]
  have abort: "runSync exact refusesETH 1 7 (Inr ([btcPosition] @ ethPosition # [solPosition])) idleState =
      (failedStats, idleState\<lparr>requests := Suc (requests idleState), trades := [btcSynced]\<rparr>)"
    using t2 q e mapPosition_examples(2)[of exact 7] idleState_fields(1) by blast
  have st1: "idleState\<lparr>requests := Suc (requests idleState)\<rparr> =
               \<lparr> syncing = False, trades = [], requests = 1 \<rparr>"
    by (simp add: idleState_def)
  have st2: "idleState\<lparr>requests := Suc (requests idleState), trades := [btcSynced]\<rparr> =
               \<lparr> syncing = False, trades = [btcSynced], requests = 1 \<rparr>"
    by (simp add: idleState_def)
  have app: "[btcPosition] @ ethPosition # [solPosition] = [btcPosition, ethPosition, solPosition]"
    by simp
  show ?thesis
    using mapPosition_examples(3)[of exact 7] one feed[unfolded st1]
      mapPosition_examples(2)[of exact 7] e abort[unfolded st2 app]
    by blast
qed

subsection \<open>Repeated runs and overlapping calls\<close>

lemma hasKey_btcSynced: "hasKey 1 ''p1'' btcSynced"
  by (simp add: hasKey_def)

lemma upsert_btc_again:
  assumes "hasKey 1 ''p1'' d" "tradeId d = 0" "accepts (upsertDoc d btcPayload now)"
  shows "upsertTrade accepts 1 [d] btcPayload now = (Inr Updated, [upsertDoc d btcPayload now])"
proof -
  have "find (hasKey 1 (positionId btcPayload)) [d] = Some d"
    using assms(1) by simp
  from upsertTrade_found[OF this, of accepts now] show ?thesis
    using assms(2,3) by (simp add: validates_def save_def upsertDoc_def setCoin_BTC)
qed

lemma loop_btc_again:
  assumes "hasKey 1 ''p1'' d" "tradeId d = 0" "accepts (upsertDoc d btcPayload now)"
  shows "syncLoop rnd accepts 1 now [btcPosition] (0, 0, 0) [d] =
           (Inr (0, 1, 0), [upsertDoc d btcPayload now])"
  using upsert_btc_again[of d accepts now, OF assms]
  by (simp add: mapPosition_examples del: One_nat_def)

lemma run_first:
  "runSync rnd acceptAll 1 7 (Inr [btcPosition]) idleState = (createdOne, onceSynced)"
  unfolding runSync_idle[OF idleState_fields(1)] idleState_fields
  using loop_btc[of acceptAll rnd 0 0 0]
  by (simp add: createdOne_def onceSynced_def idleState_def del: syncLoop.simps)

lemma run_second:
  "runSync rnd acceptAll 1 9 (Inr [btcPosition]) onceSynced = (updatedOne, twiceSynced)"
proof -
  have i: "\<not> syncing onceSynced" by (simp add: onceSynced_def)
  have l: "syncLoop rnd acceptAll 1 9 [btcPosition] (0, 0, 0) (trades onceSynced) =
             (Inr (0, 1, 0), [btcResynced])"
    unfolding btcResynced_def
    using loop_btc_again[of btcSynced acceptAll 9 rnd, OF hasKey_btcSynced]
    by (simp add: onceSynced_def del: syncLoop.simps)
  show ?thesis
    unfolding runSync_idle[OF i] l
    by (simp add: updatedOne_def onceSynced_def twiceSynced_def)
qed

text \<open>
  The theorem of claim C7 on the first snapshot and the empty store: the first run
  creates the position, the second updates it, and one position is stored under the key
  after each.
\<close>

theorem resync_same_snapshot_witness:
  "mapPosition exact 7 btcPosition = Some btcPayload \<and>
   find (hasKey 1 (p_id btcPosition)) (trades idleState) = None \<and>
   runSync exact acceptAll 1 7 (Inr [btcPosition]) idleState = (createdOne, onceSynced) \<and>
   runSync exact acceptAll 1 9 (Inr [btcPosition]) onceSynced = (updatedOne, twiceSynced) \<and>
   created createdOne = 1 \<and> updated createdOne = 0 \<and>
   created updatedOne = 0 \<and> updated updatedOne = 1 \<and>
   length (filter (hasKey 1 (p_id btcPosition)) (trades onceSynced)) = 1 \<and>
   length (filter (hasKey 1 (p_id btcPosition)) (trades twiceSynced)) = 1"
proof -
  have m: "mapPosition exact 7 btcPosition = Some btcPayload" by (rule mapPosition_examples)
  have a: "find (hasKey 1 (p_id btcPosition)) (trades idleState) = None" by simp
  have acc: "\<forall>d. acceptAll d" by simp
  from resync_same_snapshot[OF m a idleState_fields(1) acc run_first run_second]
  show ?thesis using m a run_first run_second by simp
qed

text \<open>
  Claim C7 as stated, for any snapshot, fails. The snapshot of size zero fails the
  mapping rules: both runs count it as skipped, neither as created or updated, and no
  position is stored under its key.
\<close>

theorem resync_flat_snapshot_counterexample:
  "runSync fl64 acceptAll 1 7 (Inr [flatPosition]) idleState =
     (skippedOne, \<lparr> syncing = False, trades = [], requests = 1 \<rparr>) \<and>
   runSync fl64 acceptAll 1 9 (Inr [flatPosition]) \<lparr> syncing = False, trades = [], requests = 1 \<rparr> =
     (skippedOne, \<lparr> syncing = False, trades = [], requests = 2 \<rparr>) \<and>
   created skippedOne = 0 \<and> updated skippedOne = 0 \<and> skipped skippedOne = 1 \<and>
   length (filter (hasKey 1 (p_id flatPosition))
             (trades \<lparr> syncing = False, trades = [], requests = 2 \<rparr>)) = 0"
proof -
  have l: "\<And>now db. syncLoop fl64 acceptAll 1 now [flatPosition] (0, 0, 0) db = (Inr (0, 0, 1), db)"
    by (simp add: mapPosition_examples)
  have r1: "runSync fl64 acceptAll 1 7 (Inr [flatPosition]) idleState =
     (skippedOne, \<lparr> syncing = False, trades = [], requests = 1 \<rparr>)"
    unfolding runSync_idle[OF idleState_fields(1)] l
    by (simp add: skippedOne_def idleState_def)
  have i: "\<not> syncing \<lparr> syncing = False, trades = [], requests = 1 \<rparr>" by simp
  have r2: "runSync fl64 acceptAll 1 9 (Inr [flatPosition]) \<lparr> syncing = False, trades = [], requests = 1 \<rparr> =
     (skippedOne, \<lparr> syncing = False, trades = [], requests = 2 \<rparr>)"
    unfolding runSync_idle[OF i] l
    by (simp add: skippedOne_def)
  show ?thesis using r1 r2 by (simp add: skippedOne_def)
qed

text \<open>
  The theorem of claim C6 on a service whose flag is set, and on an engine that is called
  twice before the feed arrives: the second call returns the concurrent statistics, the
  client has signed one request, and one pass is in flight.
\<close>

theorem runSync_single_flight_witness:
  "syncing busyState \<and>
   runSync exact acceptAll 1 7 (Inr [btcPosition]) busyState = (concurrentStats, busyState) \<and>
   syncing (run exact 1 [] [Invoke]) \<and>
   step exact 1 (run exact 1 [] [Invoke]) Invoke =
     (run exact 1 [] [Invoke])\<lparr>returned := returned (run exact 1 [] [Invoke]) @ [concurrentStats]\<rparr> \<and>
   returned (run exact 1 [] [Invoke, Invoke]) = [concurrentStats] \<and>
   requests (run exact 1 [] [Invoke, Invoke]) = 1 \<and>
   length (passes (run exact 1 [] [Invoke, Invoke, FeedArrives 0 (Inr [btcPosition]) 7, Invoke])) \<le> 1"
proof -
  have b: "syncing busyState" by (simp add: busyState_def)
  have s: "syncing (run exact 1 [] [Invoke])" by (simp add: run_def idle_def)
  note t = runSync_single_flight[where w = busyState and rnd = exact and accepts = acceptAll
      and u = 1 and now = 7 and feed = "Inr [btcPosition]" and e = "run exact 1 [] [Invoke]"
      and db = "[]" and events = "[Invoke, Invoke, FeedArrives 0 (Inr [btcPosition]) 7, Invoke]"]
  have r: "runSync exact acceptAll 1 7 (Inr [btcPosition]) busyState = (concurrentStats, busyState)"
    using t b by blast
  have st: "step exact 1 (run exact 1 [] [Invoke]) Invoke =
     (run exact 1 [] [Invoke])\<lparr>returned := returned (run exact 1 [] [Invoke]) @ [concurrentStats]\<rparr>"
    using t s by blast
  have l: "length (passes (run exact 1 [] [Invoke, Invoke, FeedArrives 0 (Inr [btcPosition]) 7, Invoke])) \<le> 1"
    using t by blast
  have x: "returned (run exact 1 [] [Invoke, Invoke]) = [concurrentStats]"
    "requests (run exact 1 [] [Invoke, Invoke]) = 1"
    by (simp_all add: run_def idle_def)
  show ?thesis using b r s st l x by blast
qed

lemma btcSynced_fl64:
  "totalEntryCoin (computeTradeAggregates fl64 btcSynced) = 2"
  "avgEntryPrice (computeTradeAggregates fl64 btcSynced) = Some 100"
  "openCoin (computeTradeAggregates fl64 btcSynced) = 2"
  by (simp_all add: totalEntryCoin_fold avgEntryPrice_fold openCoin_fold entryStep_def fl64_eval)

lemma sellEverything_fl64: "sellTrade fl64 8 btcSynced sellEverything = Inr btcSyncedSold"
proof -
  have "sellTrade fl64 8 btcSynced sellEverything =
        Inr (btcSynced\<lparr>closes := closes btcSynced @
               [sellClose fl64 8 (side btcSynced) (computeTradeAggregates fl64 btcSynced)
                  100 2 sellEverything],
             status := Closed\<rparr>)"
  proof (rule sellTrade_result[where opn = 2 and req = 2])
    show "status btcSynced = Active" by simp
    show "avgEntryPrice (computeTradeAggregates fl64 btcSynced) = Some 100"
      by (rule btcSynced_fl64)
    show "(100 :: real) \<noteq> 0" by simp
    show "0 < totalEntryCoin (computeTradeAggregates fl64 btcSynced)"
      by (simp add: btcSynced_fl64)
    show "openCoin (computeTradeAggregates fl64 btcSynced) = 2" by (rule btcSynced_fl64)
    show "(0 :: real) < 2" by simp
    show "requestedCoin fl64 2 sellEverything = 2"
      by (simp add: requestedCoin_def sellEverything_def sellOf_def fl64_eval)
    show "(0 :: real) < 2" by simp
    show "(2 :: real) = (if 2 > (2 :: real) then 2 else 2)" by simp
    show "Closed = (if fl64 (2 - 2) \<le> fl64 (1 / 10 ^ 8) then Closed else Active)"
      by (simp add: fl64_eval)
  qed
  then show ?thesis by (simp add: btcSyncedSold_def)
qed

lemma btcSyncedSold_fields [simp]:
  "tradeId btcSyncedSold = 0" "userId btcSyncedSold = 1" "status btcSyncedSold = Closed"
  "coin btcSyncedSold = ''BTC''" "hasKey 1 ''p1'' btcSyncedSold"
  by (simp_all add: btcSyncedSold_def hasKey_def)

lemma syncHistory_store: "history fl64 syncHistory = [btcSyncedSold]"
proof -
  have h1: "history fl64 [(acceptAll, 7, Reconcile 1 (Inr [btcPosition]))] = [btcSynced]"
    using run_first[of fl64]
    by (simp add: history_def idleState_def onceSynced_def del: One_nat_def)
  have sch: "sellSchema sellEverything"
    unfolding sellEverything_def by (simp add: sellSchema_percentage)
  have route: "sellRoute fl64 acceptAll 8 [btcSynced] (Some 1) 0 sellEverything =
                 (Inr btcSyncedSold, save [btcSynced] btcSyncedSold)"
    by (rule sellRoute_result[where trade = btcSynced])
      (simp_all add: findOne_def sch sellEverything_fl64)
  have sv: "save [btcSynced] btcSyncedSold = [btcSyncedSold]"
    by (simp add: save_def)
  have "history fl64 syncHistory =
          serve fl64 acceptAll 8 (history fl64 [(acceptAll, 7, Reconcile 1 (Inr [btcPosition]))])
            (Sell (Some 1) 0 sellEverything)"
    unfolding syncHistory_def
    using history_snoc[of fl64 "[(acceptAll, 7, Reconcile 1 (Inr [btcPosition]))]" acceptAll 8
        "Sell (Some 1) 0 sellEverything"]
    by (simp only: append_Cons append_Nil)
  then show ?thesis
    by (simp only: h1 serve.simps route snd_conv sv)
qed

text \<open>
  Claim C3 as stated fails for the reconciliation upsert. A run creates the position of
  the first snapshot, a sell of 100 per cent closes it, and the next run on the same
  snapshot finds it under its key and stores it as active, with its closes removed.
\<close>

theorem reconciliation_reopens_closed_counterexample:
  "btcSyncedSold \<in> set (history fl64 syncHistory) \<and>
   status btcSyncedSold = Closed \<and>
   serve fl64 acceptAll 9 (history fl64 syncHistory) (Reconcile 1 (Inr [btcPosition])) =
     [upsertDoc btcSyncedSold btcPayload 9] \<and>
   tradeId (upsertDoc btcSyncedSold btcPayload 9) = tradeId btcSyncedSold \<and>
   status (upsertDoc btcSyncedSold btcPayload 9) = Active"
proof -
  have i: "\<not> syncing \<lparr> syncing = False, trades = [btcSyncedSold], requests = 0 \<rparr>" by simp
  have l: "syncLoop fl64 acceptAll 1 9 [btcPosition] (0, 0, 0) [btcSyncedSold] =
             (Inr (0, 1, 0), [upsertDoc btcSyncedSold btcPayload 9])"
    by (rule loop_btc_again) (simp_all del: One_nat_def)
  have "trades (snd (runSync fl64 acceptAll 1 9 (Inr [btcPosition])
                       \<lparr> syncing = False, trades = [btcSyncedSold], requests = 0 \<rparr>)) =
          [upsertDoc btcSyncedSold btcPayload 9]"
    unfolding runSync_idle[OF i] using l by (simp del: syncLoop.simps)
  then have s: "serve fl64 acceptAll 9 (history fl64 syncHistory) (Reconcile 1 (Inr [btcPosition])) =
     [upsertDoc btcSyncedSold btcPayload 9]"
    unfolding syncHistory_store by (simp only: serve.simps)
  have m: "btcSyncedSold \<in> set (history fl64 syncHistory)"
    unfolding syncHistory_store by simp
  have "tradeId (upsertDoc btcSyncedSold btcPayload 9) = tradeId btcSyncedSold \<and>
        status (upsertDoc btcSyncedSold btcPayload 9) = Active"
    by (simp add: upsertDoc_def)
  then show ?thesis
    using m s btcSyncedSold_fields(3) by blast
qed

end
